(* ===== verification/Prelude.thy ===== *)
theory Prelude
  imports
    Main
    "HOL-Library.Word"
    "HOL-Library.Multiset"
    "HOL-Library.AList"
    "HOL-Library.Sublist"
    "HOL-Library.Char_ord"
    "HOL-Library.List_Lexorder"
begin

text \<open>
  The prelude of the development: the values a Go function can end with, the error values of
  the program, Go maps as association lists with distinct keys, one-shot close of a channel
  (\<open>sync.Once\<close> around \<open>close\<close>), decimal printing, and the lemmas on them that the components
  share.  Nothing here models one particular source file; the error constants are those of
  \<open>src/server/server.go\<close> and \<open>src/server/network.go\<close>.
\<close>

named_theorems heap_simps \<open>reading after writing in the store of the server\<close>
named_theorems outcome_simps \<open>evaluation of outcomes\<close>

section \<open>Errors and outcomes\<close>

text \<open>The status codes of gRPC the program tells apart; the others are one constructor.\<close>

datatype grpc_code =
    CodeCanceled
  | CodeDeadlineExceeded
  | CodeUnavailable
  | CodeUnimplemented
  | CodeInvalidArgument
  | CodeOther nat

text \<open>
  The error values: the sentinel errors of the server (\<open>var Err... = errors.New\<close>) and of the
  local network (\<open>errAborted\<close>), the sentinels of the standard library the code compares with
  (\<open>context.Canceled\<close>, \<open>context.DeadlineExceeded\<close>, \<open>io.EOF\<close>), an error that carries a gRPC
  status, and any other error of a library, by its text.
\<close>

datatype go_error =
    ErrNotExists
  | ErrInvalidPort
  | ErrClosed
  | ErrAlreadyBootstrapped
  | ErrNotBootstrapped
  | ErrNodeNotFound
  | ErrUnexpectedType
  | ErrStatusCanceled
  | ErrAborted
  | CtxCanceled
  | CtxDeadlineExceeded
  | IoEOF
  | GrpcStatus grpc_code string
  | ExtError string

text \<open>
  How a Go function ends: it returns a value, it returns an error, it panics (a nil
  dereference, an index out of range, a call of \<open>panic\<close>), or it waits for ever on a channel.
  Nothing under \<open>src/\<close> recovers from a panic, so \<open>Panic\<close> in any goroutine is the end of the
  process.
\<close>

datatype 'a outcome = Ret 'a | Fail go_error | Panic | Block

text \<open>A call is answered when it returns a value or an error.\<close>

fun answered :: "'a outcome \<Rightarrow> bool" where
  "answered (Ret _) = True"
| "answered (Fail _) = True"
| "answered Panic = False"
| "answered Block = False"

lemma answered_iff [outcome_simps]: "answered r \<longleftrightarrow> r \<noteq> Panic \<and> r \<noteq> Block"
  by (cases r) auto

text \<open>
  Sequencing two pieces of code over a state: the second runs only when the first returned a
  value; an error, a panic or a wait for ever is the result of both.
\<close>

fun and_then ::
  "'a outcome \<times> 's \<Rightarrow> ('a \<Rightarrow> 's \<Rightarrow> 'b outcome \<times> 's) \<Rightarrow> 'b outcome \<times> 's" where
  "and_then (Ret x, s) k = k x s"
| "and_then (Fail e, s) k = (Fail e, s)"
| "and_then (Panic, s) k = (Panic, s)"
| "and_then (Block, s) k = (Block, s)"

lemma and_then_split:
  "P (and_then p k) \<longleftrightarrow>
     (\<forall>x s. p = (Ret x, s) \<longrightarrow> P (k x s)) \<and> (\<forall>e s. p = (Fail e, s) \<longrightarrow> P (Fail e, s)) \<and>
     (\<forall>s. p = (Panic, s) \<longrightarrow> P (Panic, s)) \<and> (\<forall>s. p = (Block, s) \<longrightarrow> P (Block, s))"
  by (cases "(p, k)" rule: and_then.cases) auto

lemma and_then_split_asm:
  "P (and_then p k) \<longleftrightarrow>
     \<not> ((\<exists>x s. p = (Ret x, s) \<and> \<not> P (k x s)) \<or> (\<exists>e s. p = (Fail e, s) \<and> \<not> P (Fail e, s)) \<or>
        (\<exists>s. p = (Panic, s) \<and> \<not> P (Panic, s)) \<or> (\<exists>s. p = (Block, s) \<and> \<not> P (Block, s)))"
  by (cases "(p, k)" rule: and_then.cases) auto

lemmas and_then_splits = and_then_split and_then_split_asm

lemma and_then_state:
  assumes "I (snd p)" and "\<And>x s. p = (Ret x, s) \<Longrightarrow> I s \<Longrightarrow> I (snd (k x s))"
  shows "I (snd (and_then p k))"
  using assms by (cases "(p, k)" rule: and_then.cases) auto

lemma and_then_answered:
  assumes "answered (fst p)" and "\<And>x s. p = (Ret x, s) \<Longrightarrow> answered (fst (k x s))"
  shows "answered (fst (and_then p k))"
  using assms by (cases "(p, k)" rule: and_then.cases) auto

lemma and_then_assoc:
  "and_then (and_then p k) l = and_then p (\<lambda>x s. and_then (k x s) l)"
  by (cases "(p, k)" rule: and_then.cases) auto

section \<open>Channels that are only ever closed\<close>

text \<open>
  The program uses channels of empty structs as flags: the only operation is \<open>close\<close>, and closing
  a closed channel panics.  A \<open>sync.Once\<close> around the \<open>close\<close> makes it safe to repeat.
\<close>

fun close_chan :: "bool \<Rightarrow> bool outcome" where
  "close_chan True = Panic"
| "close_chan False = Ret True"

record once_chan =
  oc_closed :: bool
  oc_done :: bool

definition new_once_chan :: once_chan where
  "new_once_chan = \<lparr>oc_closed = False, oc_done = False\<rparr>"

definition once_close :: "once_chan \<Rightarrow> once_chan outcome" where
  "once_close c =
     (if oc_done c then Ret c
      else (case close_chan (oc_closed c) of
              Ret b \<Rightarrow> Ret \<lparr>oc_closed = b, oc_done = True\<rparr>
            | Fail e \<Rightarrow> Fail e
            | Panic \<Rightarrow> Panic
            | Block \<Rightarrow> Block))"

definition once_ok :: "once_chan \<Rightarrow> bool" where
  "once_ok c \<longleftrightarrow> oc_closed c = oc_done c"

text \<open>
  The contract of a resource that is closed at most once, however often it is asked to: the ready
  channel of a network, the \<open>closed\<close> channels of the server and of the client.
\<close>

locale closable =
  fixes do_close :: "'s \<Rightarrow> 's outcome"
    and is_closed :: "'s \<Rightarrow> bool"
    and close_inv :: "'s \<Rightarrow> bool"
  assumes close_returns: "close_inv s \<Longrightarrow> \<exists>s'. do_close s = Ret s' \<and> is_closed s' \<and> close_inv s'"
    and close_again: "close_inv s \<Longrightarrow> is_closed s \<Longrightarrow> do_close s = Ret s"
begin

fun close_times :: "nat \<Rightarrow> 's \<Rightarrow> 's outcome" where
  "close_times 0 s = Ret s"
| "close_times (Suc k) s =
     (case do_close s of Ret s' \<Rightarrow> close_times k s' | Fail e \<Rightarrow> Fail e | Panic \<Rightarrow> Panic | Block \<Rightarrow> Block)"

lemma close_times_closed: "close_inv s \<Longrightarrow> is_closed s \<Longrightarrow> close_times k s = Ret s"
  by (induction k) (simp_all add: close_again)

lemma close_times_once:
  assumes "close_inv s"
  shows "\<exists>s'. do_close s = Ret s' \<and> is_closed s' \<and> close_times (Suc k) s = Ret s'"
proof -
  obtain s' where s': "do_close s = Ret s'" "is_closed s'" "close_inv s'"
    using close_returns [OF assms] by blast
  then show ?thesis by (simp add: close_times_closed)
qed

lemma close_never_panics: "close_inv s \<Longrightarrow> do_close s \<noteq> Panic \<and> do_close s \<noteq> Block"
  using close_returns by fastforce

end

lemma once_close_ok:
  assumes "once_ok c"
  shows "once_close c = Ret \<lparr>oc_closed = True, oc_done = True\<rparr>"
proof (cases "oc_done c")
  case True
  with assms show ?thesis by (simp add: once_close_def once_ok_def)
next
  case False
  with assms show ?thesis by (simp add: once_close_def once_ok_def)
qed

interpretation once: closable once_close oc_closed once_ok
  by unfold_locales (auto simp: once_close_ok once_ok_def once_close_def)

section \<open>Go maps\<close>

text \<open>
  A Go map is an association list whose keys are distinct: \<open>map_of\<close> reads it, \<open>AList.update\<close>
  stores, \<open>AList.delete\<close> is the builtin \<open>delete\<close>.  Go visits a map in an unspecified order, so
  every loop over a map takes the order as an argument: a function that lists the entries
  in some order, each once.
\<close>

type_synonym ('k, 'v) gomap = "('k \<times> 'v) list"

abbreviation keys :: "('k, 'v) gomap \<Rightarrow> 'k set" where
  "keys m \<equiv> fst ` set m"

definition gomap_ok :: "('k, 'v) gomap \<Rightarrow> bool" where
  "gomap_ok m \<longleftrightarrow> distinct (map fst m)"

type_synonym ('k, 'v) visit = "('k, 'v) gomap \<Rightarrow> ('k, 'v) gomap"

definition visit_ok :: "('k, 'v) visit \<Rightarrow> bool" where
  "visit_ok ord \<longleftrightarrow> (\<forall>m. mset (ord m) = mset m)"

lemma gomap_ok_Nil [simp]: "gomap_ok []"
  by (simp add: gomap_ok_def)

lemma gomap_ok_update [simp]: "gomap_ok m \<Longrightarrow> gomap_ok (AList.update k v m)"
  by (simp add: gomap_ok_def distinct_update)

lemma gomap_ok_delete [simp]: "gomap_ok m \<Longrightarrow> gomap_ok (AList.delete k m)"
  by (simp add: gomap_ok_def distinct_delete)

lemma keys_update [simp]: "keys (AList.update k v m) = insert k (keys m)"
  by (simp add: dom_map_of_conv_image_fst [symmetric] update_conv')

lemma keys_delete [simp]: "keys (AList.delete k m) = keys m - {k}"
  by (auto simp: dom_map_of_conv_image_fst [symmetric] delete_conv split: if_splits)

lemma map_of_in_keys: "map_of m k = Some v \<Longrightarrow> k \<in> keys m"
  by (metis domI dom_map_of_conv_image_fst)

lemma map_of_keys_iff: "(map_of m k = None) \<longleftrightarrow> k \<notin> keys m"
  by (rule map_of_eq_None_iff)

lemma map_of_keys_Some: "k \<in> keys m \<Longrightarrow> \<exists>v. map_of m k = Some v"
  by (metis map_of_eq_None_iff not_None_eq)

lemma visit_mset: "visit_ok ord \<Longrightarrow> mset (ord m) = mset m"
  by (simp add: visit_ok_def)

lemma visit_set [simp]: "visit_ok ord \<Longrightarrow> set (ord m) = set m"
  by (metis visit_mset set_mset_mset)

lemma visit_ok_id: "visit_ok (\<lambda>m. m)"
  by (simp add: visit_ok_def)

lemma visit_ok_rev: "visit_ok rev"
  by (simp add: visit_ok_def)

lemma visit_distinct_fst:
  assumes "visit_ok ord" and "gomap_ok m"
  shows "distinct (map fst (ord m))"
proof -
  have "mset (map fst (ord m)) = mset (map fst m)"
    using visit_mset [OF assms(1), of m] by simp
  then show ?thesis
    using assms(2) by (metis gomap_ok_def mset_eq_imp_distinct_iff)
qed

lemma visit_map_of:
  assumes "visit_ok ord" and "gomap_ok m"
  shows "map_of (ord m) = map_of m"
  using assms visit_distinct_fst [OF assms]
  by (metis gomap_ok_def map_of_inject_set visit_set)

lemma visit_gomap_ok: "visit_ok ord \<Longrightarrow> gomap_ok m \<Longrightarrow> gomap_ok (ord m)"
  by (simp add: gomap_ok_def [of "ord m"] visit_distinct_fst)

section \<open>Decimal printing (the \<open>%d\<close> of \<open>fmt.Sprintf\<close>)\<close>

definition digit_char :: "nat \<Rightarrow> char" where
  "digit_char d = char_of (48 + d)"

fun show_nat :: "nat \<Rightarrow> string" where
  "show_nat n = (if n < 10 then [digit_char n] else show_nat (n div 10) @ [digit_char (n mod 10)])"

declare show_nat.simps [simp del]

fun read_nat_aux :: "nat \<Rightarrow> string \<Rightarrow> nat" where
  "read_nat_aux acc [] = acc"
| "read_nat_aux acc (c # cs) = read_nat_aux (acc * 10 + (of_char c - 48)) cs"

lemma of_char_digit [simp]: "d < 10 \<Longrightarrow> (of_char (digit_char d) :: nat) = 48 + d"
  by (simp add: digit_char_def)

lemma read_nat_aux_append:
  "read_nat_aux acc (xs @ ys) = read_nat_aux (read_nat_aux acc xs) ys"
  by (induction xs arbitrary: acc) auto

lemma read_show_nat: "read_nat_aux 0 (show_nat n) = n"
proof (induction n rule: show_nat.induct)
  case (1 n)
  show ?case
  proof (cases "n < 10")
    case True
    then show ?thesis by (subst show_nat.simps) simp
  next
    case False
    with 1 show ?thesis
      by (subst show_nat.simps) (simp add: read_nat_aux_append)
  qed
qed

lemma show_nat_inj: "show_nat m = show_nat n \<Longrightarrow> m = n"
  by (metis read_show_nat)

lemma show_nat_chars: "c \<in> set (show_nat n) \<Longrightarrow> (of_char c :: nat) \<in> {48..57}"
proof (induction n rule: show_nat.induct)
  case (1 n)
  show ?case
  proof (cases "n < 10")
    case True
    with "1.prems" show ?thesis by (simp add: show_nat.simps [of n])
  next
    case False
    with 1 show ?thesis by (auto simp: show_nat.simps [of n])
  qed
qed

lemma show_nat_nonempty [simp]: "show_nat n \<noteq> []"
  by (subst show_nat.simps) simp

end
