(* ===== verification/Gostd.thy ===== *)
theory Gostd
  imports Prelude
begin

text \<open>
  The functions of Go's standard library that the program computes with: \<open>strings.Join\<close>,
  \<open>strings.HasPrefix\<close>, \<open>strings.HasSuffix\<close>, \<open>strings.ToUpper\<close>, and \<open>filepath.Clean\<close> with
  \<open>filepath.Join\<close> (on a Unix system, separator \<open>/\<close>).  A string is its list of bytes.
\<close>

section \<open>Splitting and joining\<close>

fun split_on :: "char \<Rightarrow> string \<Rightarrow> string list" where
  "split_on c [] = [[]]"
| "split_on c (x # xs) =
     (if x = c then [] # split_on c xs
      else (case split_on c xs of [] \<Rightarrow> [[x]] | y # ys \<Rightarrow> (x # y) # ys))"

fun strings_Join :: "string list \<Rightarrow> string \<Rightarrow> string" where
  "strings_Join [] sep = []"
| "strings_Join [x] sep = x"
| "strings_Join (x # y # ys) sep = x @ sep @ strings_Join (y # ys) sep"

abbreviation slash :: char where
  "slash \<equiv> CHR 0x2F"

lemma split_on_nonempty [simp]: "split_on c xs \<noteq> []"
  by (induction xs) (auto split: list.splits)

lemma split_on_no_sep: "c \<notin> set x \<Longrightarrow> split_on c x = [x]"
  by (induction x) auto

lemma split_on_append:
  "split_on c (xs @ c # ys) = split_on c xs @ split_on c ys"
proof (induction xs)
  case Nil
  show ?case by simp
next
  case (Cons x xs)
  show ?case
  proof (cases "split_on c xs")
    case Nil
    then show ?thesis by simp
  next
    case (Cons y ys')
    with Cons.IH show ?thesis by simp
  qed
qed

lemma split_on_Join:
  "es \<noteq> [] \<Longrightarrow> (\<And>e. e \<in> set es \<Longrightarrow> c \<notin> set e) \<Longrightarrow> split_on c (strings_Join es [c]) = es"
proof (induction es "[c]" rule: strings_Join.induct)
  case 1
  then show ?case by simp
next
  case (2 x)
  then show ?case by (simp add: split_on_no_sep)
next
  case (3 x y ys)
  then show ?case by (simp add: split_on_append split_on_no_sep)
qed

lemma Join_inj:
  assumes "strings_Join es [c] = strings_Join fs [c]" and "es \<noteq> []" and "fs \<noteq> []"
    and "\<And>e. e \<in> set es \<Longrightarrow> c \<notin> set e" and "\<And>e. e \<in> set fs \<Longrightarrow> c \<notin> set e"
  shows "es = fs"
  by (metis assms split_on_Join)

lemma split_on_no_sep_elem: "e \<in> set (split_on c xs) \<Longrightarrow> c \<notin> set e"
proof (induction xs arbitrary: e)
  case Nil
  then show ?case by simp
next
  case (Cons x xs)
  then show ?case
    by (cases "split_on c xs") (auto split: if_splits)
qed

section \<open>Prefix, suffix, upper case\<close>

definition strings_HasPrefix :: "string \<Rightarrow> string \<Rightarrow> bool" where
  "strings_HasPrefix s p = prefix p s"

definition strings_HasSuffix :: "string \<Rightarrow> string \<Rightarrow> bool" where
  "strings_HasSuffix s p = suffix p s"

definition is_ascii :: "string \<Rightarrow> bool" where
  "is_ascii s = list_all (\<lambda>c. (of_char c :: nat) < 128) s"

definition upper_char :: "char \<Rightarrow> char" where
  "upper_char c = (let n = (of_char c :: nat) in if 97 \<le> n \<and> n \<le> 122 then char_of (n - 32) else c)"

text \<open>
  \<open>strings.ToUpper\<close> maps the bytes of an ASCII string; for other strings it maps Unicode
  letters with the tables of the \<open>unicode\<close> package, which \<open>up\<close> stands for.
\<close>

definition strings_ToUpper :: "(string \<Rightarrow> string) \<Rightarrow> string \<Rightarrow> string" where
  "strings_ToUpper up s = (if is_ascii s then map upper_char s else up s)"

lemma length_ToUpper_ascii: "is_ascii s \<Longrightarrow> length (strings_ToUpper up s) = length s"
  by (simp add: strings_ToUpper_def)

section \<open>\<open>filepath.Clean\<close> and \<open>filepath.Join\<close>\<close>

text \<open>
  \<open>Clean\<close> reads the path element by element into an output buffer: an empty element and \<open>.\<close>
  are dropped, \<open>..\<close> removes the last element kept, stays at the root of a rooted path, and is
  kept when a relative path has nothing left to remove.  The buffer is the stack of the kept
  elements, last first.
\<close>

fun clean_step :: "bool \<Rightarrow> string \<Rightarrow> string list \<Rightarrow> string list" where
  "clean_step rooted e st =
     (if e = [] \<or> e = ''.'' then st
      else if e = ''..'' then
        (case st of
           [] \<Rightarrow> if rooted then [] else [''..'']
         | x # xs \<Rightarrow> if x = ''..'' then ''..'' # st else xs)
      else e # st)"

declare clean_step.simps [simp del]

definition is_rooted :: "string \<Rightarrow> bool" where
  "is_rooted p = (case p of [] \<Rightarrow> False | c # _ \<Rightarrow> c = slash)"

definition clean_stack :: "string \<Rightarrow> string list" where
  "clean_stack p = fold (clean_step (is_rooted p)) (split_on slash p) []"

definition render_path :: "bool \<Rightarrow> string list \<Rightarrow> string" where
  "render_path rooted st =
     (if rooted then slash # strings_Join (rev st) [slash]
      else if st = [] then ''.'' else strings_Join (rev st) [slash])"

definition filepath_Clean :: "string \<Rightarrow> string" where
  "filepath_Clean p = (if p = [] then ''.'' else render_path (is_rooted p) (clean_stack p))"

definition filepath_Join :: "string list \<Rightarrow> string" where
  "filepath_Join es =
     (case dropWhile (\<lambda>e. e = []) es of
        [] \<Rightarrow> []
      | e # rest \<Rightarrow> filepath_Clean (strings_Join (e # rest) [slash]))"

text \<open>A plain element is a name \<open>Clean\<close> keeps as it is.\<close>

definition plain_elem :: "string \<Rightarrow> bool" where
  "plain_elem e \<longleftrightarrow> e \<noteq> [] \<and> e \<noteq> ''.'' \<and> e \<noteq> ''..'' \<and> slash \<notin> set e"

lemma plain_elemD: "plain_elem e \<Longrightarrow> e \<noteq> [] \<and> e \<noteq> ''.'' \<and> e \<noteq> ''..'' \<and> slash \<notin> set e"
  by (simp add: plain_elem_def)

lemma is_rooted_append: "p \<noteq> [] \<Longrightarrow> is_rooted (p @ q) = is_rooted p"
  by (cases p) (auto simp: is_rooted_def)

lemma clean_step_plain: "plain_elem e \<Longrightarrow> clean_step r e st = e # st"
  by (auto simp: plain_elem_def clean_step.simps)

lemma clean_stack_child:
  assumes "p \<noteq> []" and "plain_elem e"
  shows "clean_stack (p @ slash # e) = e # clean_stack p"
proof -
  have "split_on slash (p @ slash # e) = split_on slash p @ [e]"
    using assms(2) by (simp add: split_on_append split_on_no_sep plain_elem_def)
  then show ?thesis
    using assms by (simp add: clean_stack_def is_rooted_append clean_step_plain)
qed

lemma filepath_Join_child2:
  assumes "root \<noteq> []" and "plain_elem a" and "plain_elem b"
  shows "filepath_Join [root, a, b] = render_path (is_rooted root) (b # a # clean_stack root)"
proof -
  have "clean_stack ((root @ slash # a) @ slash # b) = b # a # clean_stack root"
    using assms clean_stack_child [of "root @ slash # a" b] clean_stack_child [of root a] by simp
  then show ?thesis
    using assms(1) by (simp add: filepath_Join_def filepath_Clean_def is_rooted_append)
qed

lemma clean_step_no_slash:
  "slash \<notin> set e \<Longrightarrow> (\<And>x. x \<in> set st \<Longrightarrow> slash \<notin> set x) \<Longrightarrow>
   x \<in> set (clean_step r e st) \<Longrightarrow> slash \<notin> set x"
  by (auto simp: clean_step.simps split: if_splits list.splits)

lemma fold_clean_no_slash:
  "(\<And>e. e \<in> set es \<Longrightarrow> slash \<notin> set e) \<Longrightarrow> (\<And>x. x \<in> set st \<Longrightarrow> slash \<notin> set x) \<Longrightarrow>
   x \<in> set (fold (clean_step r) es st) \<Longrightarrow> slash \<notin> set x"
proof (induction es arbitrary: st)
  case Nil
  then show ?case by simp
next
  case (Cons e es)
  have step: "slash \<notin> set y" if "y \<in> set (clean_step r e st)" for y
    using that Cons.prems(1,2) clean_step_no_slash [of e st y r] by auto
  have "x \<in> set (fold (clean_step r) es (clean_step r e st))"
    using Cons.prems(3) by simp
  with step Cons.prems(1) show ?case
    by (intro Cons.IH [of "clean_step r e st"]) auto
qed

lemma clean_stack_no_slash: "e \<in> set (clean_stack p) \<Longrightarrow> slash \<notin> set e"
  unfolding clean_stack_def
  by (rule fold_clean_no_slash [of "split_on slash p" "[]"]) (auto dest: split_on_no_sep_elem)

lemma render_path_inj:
  assumes "render_path r st = render_path r st'" and "st \<noteq> []" and "st' \<noteq> []"
    and "\<And>e. e \<in> set st \<Longrightarrow> slash \<notin> set e" and "\<And>e. e \<in> set st' \<Longrightarrow> slash \<notin> set e"
  shows "st = st'"
proof -
  have "strings_Join (rev st) [slash] = strings_Join (rev st') [slash]"
    using assms(1-3) by (auto simp: render_path_def split: if_splits)
  then have "rev st = rev st'"
    using assms(2-5) by (intro Join_inj [where c = slash]) auto
  then show ?thesis by simp
qed

text \<open>Two grandchildren of one directory are the same path only if both names agree.\<close>

lemma filepath_Join_child2_inj:
  assumes "filepath_Join [root, a, b] = filepath_Join [root, a', b']" and "root \<noteq> []"
    and "plain_elem a" and "plain_elem b" and "plain_elem a'" and "plain_elem b'"
  shows "a = a' \<and> b = b'"
proof -
  have "render_path (is_rooted root) (b # a # clean_stack root) =
        render_path (is_rooted root) (b' # a' # clean_stack root)"
    using assms by (simp add: filepath_Join_child2)
  then have "b # a # clean_stack root = b' # a' # clean_stack root"
    using assms(3-6) clean_stack_no_slash
    by (intro render_path_inj [where r = "is_rooted root"]) (auto dest: plain_elemD)
  then show ?thesis by simp
qed

lemma filepath_Join_example: "filepath_Join [''/tmp//x/'', ''node1'', ''log''] = ''/tmp/x/node1/log''"
  by (simp add: filepath_Join_def filepath_Clean_def render_path_def clean_stack_def is_rooted_def clean_step.simps)

end
