(* ===== verification/Messages.thy ===== *)
theory Messages
  imports Prelude
begin

text \<open>
  The protocol messages of \<open>src/rpcpb/rpc.pb.go\<close> (from \<open>src/rpcpb/rpc.proto\<close>): one record per
  message with fields, and the getters the program calls, which read a possibly nil pointer.
  The bookkeeping fields of the generated structs (\<open>state\<close>, \<open>sizeCache\<close>, \<open>unknownFields\<close>) belong to
  the protobuf runtime and are left out.
\<close>

type_synonym int32 = "32 word"
type_synonym int64 = "64 word"

section \<open>Messages\<close>

record NodeInfo =
  ni_Name :: string
  ni_ExecPath :: string
  ni_Uri :: string
  ni_Id :: string
  ni_LogDir :: string
  ni_DbDir :: string
  ni_WhitelistedSubnets :: string
  ni_Config :: string

text \<open>
  \<open>ClusterInfo\<close> exists twice: in the memory of the server its field \<open>NodeInfos\<close> is a reference to a
  map that the local network holds too (or nil); on the wire it is the map itself.  The type
  parameter is the type of that field.
\<close>

record 'm ClusterInfo =
  ci_NodeNames :: "string list"
  ci_NodeInfos :: 'm
  ci_Pid :: int32
  ci_RootDataDir :: string
  ci_Healthy :: bool

record PingResponse =
  pr_Pid :: int32

record StartRequest =
  sr_ExecPath :: string
  sr_WhitelistedSubnets :: "string option"
  sr_LogLevel :: "string option"

record RestartNodeRequest =
  rr_Name :: string
  rr_StartRequest :: "StartRequest option"

record RemoveNodeRequest =
  rm_Name :: string

record StreamStatusRequest =
  ss_PushInterval :: int64

record URIsResponse =
  ur_Uris :: "string list"

section \<open>Getters of possibly nil pointers\<close>

text \<open>
  Every getter returns the zero value of its field when the receiver is nil; the getters of the
  \<open>optional\<close> fields also when the field is nil.
\<close>

fun StartRequest_GetExecPath :: "StartRequest option \<Rightarrow> string" where
  "StartRequest_GetExecPath (Some x) = sr_ExecPath x"
| "StartRequest_GetExecPath None = []"

fun StartRequest_GetWhitelistedSubnets :: "StartRequest option \<Rightarrow> string" where
  "StartRequest_GetWhitelistedSubnets (Some x) =
     (case sr_WhitelistedSubnets x of Some w \<Rightarrow> w | None \<Rightarrow> [])"
| "StartRequest_GetWhitelistedSubnets None = []"

fun StartRequest_GetLogLevel :: "StartRequest option \<Rightarrow> string" where
  "StartRequest_GetLogLevel (Some x) = (case sr_LogLevel x of Some l \<Rightarrow> l | None \<Rightarrow> [])"
| "StartRequest_GetLogLevel None = []"

fun ClusterInfo_GetPid :: "'m ClusterInfo option \<Rightarrow> int32" where
  "ClusterInfo_GetPid (Some x) = ci_Pid x"
| "ClusterInfo_GetPid None = 0"

fun ClusterInfo_GetRootDataDir :: "'m ClusterInfo option \<Rightarrow> string" where
  "ClusterInfo_GetRootDataDir (Some x) = ci_RootDataDir x"
| "ClusterInfo_GetRootDataDir None = []"

fun ClusterInfo_GetHealthy :: "'m ClusterInfo option \<Rightarrow> bool" where
  "ClusterInfo_GetHealthy (Some x) = ci_Healthy x"
| "ClusterInfo_GetHealthy None = False"

fun ClusterInfo_GetNodeNames :: "'m ClusterInfo option \<Rightarrow> string list" where
  "ClusterInfo_GetNodeNames (Some x) = ci_NodeNames x"
| "ClusterInfo_GetNodeNames None = []"

end
