(* ===== verification/Net_Config.thy ===== *)
theory Net_Config
  imports Gostd Messages
begin

text \<open>
  The configuration of the local cluster, first part of \<open>src/server/network.go\<close>: what \<open>newNetwork\<close>
  computes for every node (its name, directories, configuration file, output writer) before any
  process runs.  The types of the packages \<open>network\<close>, \<open>network/node\<close> and \<open>local\<close> of
  avalanche-network-runner are records of the fields this program reads or writes; the fields it
  only copies along are left out.
\<close>

section \<open>Types\<close>

record writer =
  wr_c :: string
  wr_name :: string

record LocalNodeConfig =
  lnc_BinaryPath :: string
  lnc_Stdout :: "writer option"
  lnc_Stderr :: "writer option"

text \<open>
  The field \<open>ImplSpecificConfig\<close> has an interface type: nil, a \<open>local.NodeConfig\<close>, or a value of
  another type (which the type assertion in \<open>RestartNode\<close> refuses).
\<close>

datatype implConfig = ImplNil | ImplLocal LocalNodeConfig | ImplOther string

record NodeConfig =
  nc_Name :: string
  nc_ConfigFile :: string
  nc_Impl :: implConfig

section \<open>The configuration file of a node\<close>

definition quoted :: "string \<Rightarrow> string" where
  "quoted s = CHR 0x22 # s @ [CHR 0x22]"

definition json_member :: "string \<Rightarrow> string \<Rightarrow> string" where
  "json_member k v = quoted k @ '':'' @ v"

definition newline_tab :: string where
  "newline_tab = [CHR 0x0A, CHR 0x09]"

text \<open>
  The format string of \<open>newNetwork\<close> (and, with the level fixed to \<open>INFO\<close>, of \<open>RestartNode\<close>):
  one member per line, indented by a tab.
\<close>

definition config_file :: "string \<Rightarrow> string \<Rightarrow> string \<Rightarrow> string \<Rightarrow> string" where
  "config_file logLevel logDir dbDir whitelistedSubnets =
     ''{'' @ newline_tab @
     strings_Join
       [json_member ''network-peer-list-gossip-frequency'' (quoted ''250ms''),
        json_member ''network-max-reconnect-delay'' (quoted ''1s''),
        json_member ''public-ip'' (quoted ''127.0.0.1''),
        json_member ''health-check-frequency'' (quoted ''2s''),
        json_member ''api-admin-enabled'' ''true'',
        json_member ''api-ipcs-enabled'' ''true'',
        json_member ''index-enabled'' ''true'',
        json_member ''log-display-level'' (quoted ''INFO''),
        json_member ''log-level'' (quoted logLevel),
        json_member ''log-dir'' (quoted logDir),
        json_member ''db-dir'' (quoted dbDir),
        json_member ''whitelisted-subnets'' (quoted whitelistedSubnets)]
       ('','' @ newline_tab) @
     [CHR 0x0A] @ ''}''"

definition restart_config_file :: "string \<Rightarrow> string \<Rightarrow> string \<Rightarrow> string" where
  "restart_config_file logDir dbDir whitelistedSubnets =
     config_file ''INFO'' logDir dbDir whitelistedSubnets"

section \<open>Colours and the writer of a node's output\<close>

definition colors :: "string list" where
  "colors = [''{{green}}'', ''{{orange}}'', ''{{blue}}'', ''{{magenta}}'', ''{{cyan}}'']"

text \<open>
  \<open>writer.Write\<close> prints the coloured name of the node to the terminal and then hands the bytes to
  the underlying writer.  \<open>F\<close> is the formatter of the package ginkgo, applied to the format and the
  name; the result is what is printed before the bytes.
\<close>

definition writer_Write :: "(string \<Rightarrow> string \<Rightarrow> string) \<Rightarrow> writer \<Rightarrow> string \<Rightarrow> string" where
  "writer_Write F wr p = F (wr_c wr @ ''[%s]{{/}}'' @ [CHR 0x09]) (wr_name wr) @ p"

section \<open>The loop of \<open>newNetwork\<close>\<close>

definition node_name :: "nat \<Rightarrow> string" where
  "node_name i = ''node'' @ show_nat (i + 1)"

definition log_dir :: "string \<Rightarrow> string \<Rightarrow> string" where
  "log_dir rootDataDir nodeName = filepath_Join [rootDataDir, nodeName, ''log'']"

definition db_dir :: "string \<Rightarrow> string \<Rightarrow> string" where
  "db_dir rootDataDir nodeName = filepath_Join [rootDataDir, nodeName, ''db-dir'']"

text \<open>What one round of the loop stores in \<open>cfg.NodeConfigs[i]\<close> and in \<open>nodeInfos[nodeName]\<close>.\<close>

definition node_info :: "string \<Rightarrow> string \<Rightarrow> string \<Rightarrow> string \<Rightarrow> nat \<Rightarrow> NodeInfo" where
  "node_info execPath rootDataDir whitelistedSubnets level i =
     (let nodeName = node_name i;
          logDir = log_dir rootDataDir nodeName;
          dbDir = db_dir rootDataDir nodeName
      in \<lparr>ni_Name = nodeName, ni_ExecPath = execPath, ni_Uri = [], ni_Id = [],
          ni_LogDir = logDir, ni_DbDir = dbDir, ni_WhitelistedSubnets = whitelistedSubnets,
          ni_Config = config_file level logDir dbDir whitelistedSubnets\<rparr>)"

definition node_config ::
  "string \<Rightarrow> string \<Rightarrow> string \<Rightarrow> string \<Rightarrow> string \<Rightarrow> nat \<Rightarrow> NodeConfig \<Rightarrow> NodeConfig" where
  "node_config color execPath rootDataDir whitelistedSubnets level i cfg =
     (let nodeName = node_name i;
          wr = \<lparr>wr_c = color, wr_name = nodeName\<rparr>
      in cfg\<lparr>nc_Name := nodeName,
             nc_ConfigFile := config_file level (log_dir rootDataDir nodeName)
                                (db_dir rootDataDir nodeName) whitelistedSubnets,
             nc_Impl := ImplLocal \<lparr>lnc_BinaryPath = execPath, lnc_Stdout = Some wr,
                                   lnc_Stderr = Some wr\<rparr>\<rparr>)"

text \<open>
  The loop over \<open>cfg.NodeConfigs\<close>: \<open>n\<close> is the number of configurations, \<open>i\<close> the index, \<open>m\<close> the map
  \<open>nodeInfos\<close> so far.  The writer takes \<open>colors[i % n]\<close>; an index past the end of \<open>colors\<close> is a
  panic, the result \<open>None\<close>.
\<close>

fun newNetwork_loop ::
  "string \<Rightarrow> string \<Rightarrow> string \<Rightarrow> string \<Rightarrow> nat \<Rightarrow> nat \<Rightarrow> NodeConfig list \<Rightarrow> (string, NodeInfo) gomap \<Rightarrow>
   (NodeConfig list \<times> string list \<times> (string, NodeInfo) gomap) option" where
  "newNetwork_loop execPath root ws level n i [] m = Some ([], [], m)"
| "newNetwork_loop execPath root ws level n i (cfg # cfgs) m =
     (if length colors \<le> i mod n then None
      else
        (case newNetwork_loop execPath root ws level n (i + 1) cfgs
                (AList.update (node_name i) (node_info execPath root ws level i) m) of
           None \<Rightarrow> None
         | Some (cfgs', names, m') \<Rightarrow>
             Some (node_config (colors ! (i mod n)) execPath root ws level i cfg # cfgs',
                   node_name i # names, m')))"

section \<open>Facts about the loop\<close>

lemma node_name_inj [simp]: "node_name i = node_name j \<longleftrightarrow> i = j"
  by (auto simp: node_name_def dest: show_nat_inj)

lemma plain_node_name [simp]: "plain_elem (node_name i)"
proof -
  have "slash \<notin> set (show_nat (i + 1))"
    using show_nat_chars [of slash "i + 1"] by auto
  then show ?thesis by (simp add: plain_elem_def node_name_def)
qed

lemma plain_log_db [simp]: "plain_elem ''log''" "plain_elem ''db-dir''"
  by (simp_all add: plain_elem_def)

lemma node_info_fields [simp]:
  "ni_Name (node_info e r w l i) = node_name i"
  "ni_ExecPath (node_info e r w l i) = e"
  "ni_Uri (node_info e r w l i) = []"
  "ni_Id (node_info e r w l i) = []"
  "ni_LogDir (node_info e r w l i) = log_dir r (node_name i)"
  "ni_DbDir (node_info e r w l i) = db_dir r (node_name i)"
  "ni_WhitelistedSubnets (node_info e r w l i) = w"
  by (simp_all add: node_info_def Let_def)

lemma node_config_fields [simp]:
  "nc_Name (node_config c e r w l i cfg) = node_name i"
  "nc_ConfigFile (node_config c e r w l i cfg) = ni_Config (node_info e r w l i)"
  "nc_Impl (node_config c e r w l i cfg) =
     ImplLocal \<lparr>lnc_BinaryPath = e, lnc_Stdout = Some \<lparr>wr_c = c, wr_name = node_name i\<rparr>,
                lnc_Stderr = Some \<lparr>wr_c = c, wr_name = node_name i\<rparr>\<rparr>"
  by (simp_all add: node_config_def node_info_def Let_def)

text \<open>
  The loop in closed form: it panics exactly when some index reaches the end of the colours;
  otherwise node \<open>i + k\<close> gets the \<open>k\<close>-th configuration, name and map entry.
\<close>

lemma newNetwork_loop_None_iff:
  "newNetwork_loop e r w l n i cfgs m = None \<longleftrightarrow>
   (\<exists>k < length cfgs. length colors \<le> (i + k) mod n)"
proof (induction cfgs arbitrary: i m)
  case Nil
  then show ?case by simp
next
  case (Cons cfg cfgs)
  have "(\<exists>k < length (cfg # cfgs). length colors \<le> (i + k) mod n) \<longleftrightarrow>
        length colors \<le> i mod n \<or> (\<exists>k < length cfgs. length colors \<le> (i + 1 + k) mod n)"
    by (simp add: Ex_less_Suc2)
  moreover have "(newNetwork_loop e r w l n (i + 1) cfgs
                    (AList.update (node_name i) (node_info e r w l i) m) = None) \<longleftrightarrow>
        (\<exists>k < length cfgs. length colors \<le> (i + 1 + k) mod n)"
    by (rule Cons.IH)
  moreover have "(newNetwork_loop e r w l n i (cfg # cfgs) m = None) \<longleftrightarrow>
        length colors \<le> i mod n \<or>
        newNetwork_loop e r w l n (i + 1) cfgs
          (AList.update (node_name i) (node_info e r w l i) m) = None"
    by (simp split: option.splits)
  ultimately show ?case by (simp only:)
qed

lemma newNetwork_loop_names:
  "newNetwork_loop e r w l n i cfgs m = Some (cfgs', names, m') \<Longrightarrow>
   names = map node_name [i ..< i + length cfgs] \<and> map nc_Name cfgs' = names"
proof (induction cfgs arbitrary: i m cfgs' names)
  case Nil
  then show ?case by simp
next
  case (Cons cfg cfgs)
  then obtain cs ns where
      loop: "newNetwork_loop e r w l n (i + 1) cfgs
               (AList.update (node_name i) (node_info e r w l i) m) = Some (cs, ns, m')"
    and res: "cfgs' = node_config (colors ! (i mod n)) e r w l i cfg # cs" "names = node_name i # ns"
    by (auto split: if_splits option.splits)
  from Cons.IH [OF loop] res show ?case
    by (simp add: upt_conv_Cons del: upt_Suc)
qed

lemma newNetwork_loop_map:
  "newNetwork_loop e r w l n i cfgs m = Some (cfgs', names, m') \<Longrightarrow>
   map_of m' x =
     (if \<exists>k < length cfgs. x = node_name (i + k)
      then Some (node_info e r w l (THE j. node_name j = x)) else map_of m x)"
proof (induction cfgs arbitrary: i m cfgs' names)
  case Nil
  then show ?case by simp
next
  case (Cons cfg cfgs)
  let ?m = "AList.update (node_name i) (node_info e r w l i) m"
  from Cons.prems obtain cs ns where
    loop: "newNetwork_loop e r w l n (i + 1) cfgs ?m = Some (cs, ns, m')"
    by (auto split: if_splits option.splits)
  have ex: "(\<exists>k < length (cfg # cfgs). x = node_name (i + k)) \<longleftrightarrow>
        x = node_name i \<or> (\<exists>k < length cfgs. x = node_name (i + 1 + k))"
    by (simp add: Ex_less_Suc2)
  have the: "(THE j. node_name j = node_name i) = i" by auto
  show ?case
    unfolding Cons.IH [OF loop] ex by (auto simp: update_conv' the)
qed

lemma newNetwork_loop_keys:
  "newNetwork_loop e r w l n i cfgs m = Some (cfgs', names, m') \<Longrightarrow>
   keys m' = keys m \<union> set names \<and> (gomap_ok m \<longrightarrow> gomap_ok m')"
proof (induction cfgs arbitrary: i m cfgs' names)
  case Nil
  then show ?case by simp
next
  case (Cons cfg cfgs)
  let ?m = "AList.update (node_name i) (node_info e r w l i) m"
  from Cons.prems obtain cs ns where
      loop: "newNetwork_loop e r w l n (i + 1) cfgs ?m = Some (cs, ns, m')"
    and names: "names = node_name i # ns"
    by (auto split: if_splits option.splits)
  from Cons.IH [OF loop] names show ?case by auto
qed

lemma newNetwork_loop_impl:
  "newNetwork_loop e r w l n i cfgs m = Some (cfgs', names, m') \<Longrightarrow> c \<in> set cfgs' \<Longrightarrow>
   \<exists>wr. nc_Impl c = ImplLocal \<lparr>lnc_BinaryPath = e, lnc_Stdout = Some wr, lnc_Stderr = Some wr\<rparr>"
proof (induction cfgs arbitrary: i m cfgs' names)
  case Nil
  then show ?case by simp
next
  case (Cons cfg cfgs)
  then show ?case by (auto split: if_splits option.splits)
qed

lemma newNetwork_loop_config:
  "newNetwork_loop e r w l n i cfgs m = Some (cfgs', names, m') \<Longrightarrow> k < length cfgs \<Longrightarrow>
   nc_ConfigFile (cfgs' ! k) = ni_Config (node_info e r w l (i + k)) \<and>
   nc_Name (cfgs' ! k) = node_name (i + k)"
proof (induction cfgs arbitrary: i m cfgs' names k)
  case Nil
  then show ?case by simp
next
  case (Cons cfg cfgs)
  let ?m = "AList.update (node_name i) (node_info e r w l i) m"
  from Cons.prems obtain cs ns where
      loop: "newNetwork_loop e r w l n (i + 1) cfgs ?m = Some (cs, ns, m')"
    and cs: "cfgs' = node_config (colors ! (i mod n)) e r w l i cfg # cs"
    by (auto split: if_splits option.splits)
  show ?case
    using Cons.IH [OF loop, of "k - 1"] Cons.prems(2) cs by (cases k) auto
qed

text \<open>All directories of the nodes below one root directory are different.\<close>

lemma node_dirs_inj:
  assumes "root \<noteq> []"
  shows "log_dir root (node_name i) = log_dir root (node_name j) \<longleftrightarrow> i = j"
    and "db_dir root (node_name i) = db_dir root (node_name j) \<longleftrightarrow> i = j"
    and "log_dir root (node_name i) \<noteq> db_dir root (node_name j)"
  using assms unfolding log_dir_def db_dir_def
  by (auto dest!: filepath_Join_child2_inj)

end
