(* ===== verification/Local_Network.thy ===== *)
theory Local_Network
  imports Net_Config
begin

text \<open>
  The store of the server and the local network, second part of \<open>src/server/network.go\<close>:
  \<open>newNetwork\<close>, \<open>start\<close>, \<open>waitForHealthy\<close> and \<open>stop\<close>.  The structs that several goroutines
  hold pointers to live in lists of the server state, a pointer is an index, nil is \<open>None\<close>:
  \<^item> \<open>sv_nets\<close>: the structs \<open>localNetwork\<close>;
  \<^item> \<open>sv_maps\<close>: the maps \<open>nodeInfos\<close>, which a local network and the cluster information share;
  \<^item> \<open>sv_infos\<close>: the structs \<open>rpcpb.ClusterInfo\<close>.
  A \<open>*rpcpb.NodeInfo\<close> is only reachable through the one map it was stored in by \<open>newNetwork\<close>, so an
  assignment to one of its fields is an update of the map's entry.
\<close>

section \<open>The libraries the server calls\<close>

text \<open>
  The answers of code that is not part of this repository: \<open>logging.DefaultConfig\<close> and the log
  factory, \<open>local.NewDefaultConfig\<close>, the Unicode tables of \<open>strings.ToUpper\<close>, the methods of
  \<open>network.Network\<close> (its state has the type \<open>'nw\<close>), \<open>os.Getpid\<close> and \<open>os.Stat\<close>.
\<close>

record Node =
  nd_URL :: string
  nd_APIPort :: "16 word"
  nd_NodeID :: string
  nd_APIClient :: nat

record 'nw ext =
  x_DefaultConfig :: "go_error option"
  x_MakeLogger :: "string \<Rightarrow> go_error option"
  x_NewDefaultConfig :: "string \<Rightarrow> NodeConfig list"
  x_ToUpper :: "string \<Rightarrow> string"
  x_NewNetwork :: "NodeConfig list \<Rightarrow> go_error + 'nw"
  x_GetAllNodes :: "'nw \<Rightarrow> go_error + (string, Node) gomap"
  x_RemoveNode :: "string \<Rightarrow> 'nw \<Rightarrow> go_error option \<times> 'nw"
  x_AddNode :: "NodeConfig \<Rightarrow> 'nw \<Rightarrow> go_error option \<times> 'nw"
  x_Stop :: "'nw \<Rightarrow> go_error option \<times> 'nw"
  x_Getpid :: int
  x_Stat :: "string \<Rightarrow> bool"

text \<open>
  What the scheduler, the clock and the order of map visits decide during one call: which case the
  \<open>select\<close> of \<open>waitForHealthy\<close> takes, in which order the maps are visited, and what
  \<open>ioutil.TempDir\<close> returns.
\<close>

datatype health_event = HStopc | HTimeout | HReport "go_error option"

record call_env =
  ce_event :: health_event
  ce_nodes :: "(string, Node) visit"
  ce_infos :: "(string, NodeInfo) visit"
  ce_tempdir :: "go_error + string"

section \<open>State\<close>

record 'nw localNetwork =
  ln_binPath :: string
  ln_cfg :: "NodeConfig list"
  ln_nw :: "'nw option"
  ln_nodeNames :: "string list"
  ln_nodes :: "(string, Node) gomap option"
  ln_nodeInfos :: nat
  ln_apiClis :: "(string, nat) gomap"
  ln_ready :: once_chan
  ln_stopc :: bool
  ln_stopOnce :: bool
  ln_donec :: bool
  ln_errc :: "go_error list"

record 'nw server =
  sv_clusterInfo :: "nat option"
  sv_network :: "nat option"
  sv_closed :: bool
  sv_infos :: "nat option ClusterInfo list"
  sv_maps :: "(string, NodeInfo) gomap list"
  sv_nets :: "'nw localNetwork list"
  sv_dirs :: "string list"

abbreviation net :: "'nw server \<Rightarrow> nat \<Rightarrow> 'nw localNetwork" where
  "net s n \<equiv> sv_nets s ! n"

abbreviation info_at :: "'nw server \<Rightarrow> nat \<Rightarrow> nat option ClusterInfo" where
  "info_at s c \<equiv> sv_infos s ! c"

definition net_map :: "'nw server \<Rightarrow> nat \<Rightarrow> (string, NodeInfo) gomap" where
  "net_map s n = sv_maps s ! ln_nodeInfos (net s n)"

definition upd_net :: "nat \<Rightarrow> ('nw localNetwork \<Rightarrow> 'nw localNetwork) \<Rightarrow> 'nw server \<Rightarrow> 'nw server" where
  "upd_net n f s = s\<lparr>sv_nets := (sv_nets s)[n := f (net s n)]\<rparr>"

definition upd_map ::
  "nat \<Rightarrow> ((string, NodeInfo) gomap \<Rightarrow> (string, NodeInfo) gomap) \<Rightarrow> 'nw server \<Rightarrow> 'nw server" where
  "upd_map m f s = s\<lparr>sv_maps := (sv_maps s)[m := f (sv_maps s ! m)]\<rparr>"

definition upd_info ::
  "nat \<Rightarrow> (nat option ClusterInfo \<Rightarrow> nat option ClusterInfo) \<Rightarrow> 'nw server \<Rightarrow> 'nw server" where
  "upd_info c f s = s\<lparr>sv_infos := (sv_infos s)[c := f (info_at s c)]\<rparr>"

lemma upd_net_simps [simp, heap_simps]:
  "sv_clusterInfo (upd_net n f s) = sv_clusterInfo s"
  "sv_network (upd_net n f s) = sv_network s"
  "sv_closed (upd_net n f s) = sv_closed s"
  "sv_infos (upd_net n f s) = sv_infos s"
  "sv_maps (upd_net n f s) = sv_maps s"
  "sv_dirs (upd_net n f s) = sv_dirs s"
  "length (sv_nets (upd_net n f s)) = length (sv_nets s)"
  "n < length (sv_nets s) \<Longrightarrow> net (upd_net n f s) n = f (net s n)"
  "n \<noteq> n' \<Longrightarrow> net (upd_net n f s) n' = net s n'"
  by (simp_all add: upd_net_def)

lemma upd_map_simps [simp, heap_simps]:
  "sv_clusterInfo (upd_map m g s) = sv_clusterInfo s"
  "sv_network (upd_map m g s) = sv_network s"
  "sv_closed (upd_map m g s) = sv_closed s"
  "sv_infos (upd_map m g s) = sv_infos s"
  "sv_nets (upd_map m g s) = sv_nets s"
  "sv_dirs (upd_map m g s) = sv_dirs s"
  "length (sv_maps (upd_map m g s)) = length (sv_maps s)"
  "m < length (sv_maps s) \<Longrightarrow> sv_maps (upd_map m g s) ! m = g (sv_maps s ! m)"
  "m \<noteq> m' \<Longrightarrow> sv_maps (upd_map m g s) ! m' = sv_maps s ! m'"
  by (simp_all add: upd_map_def)

lemma upd_info_simps [simp, heap_simps]:
  "sv_clusterInfo (upd_info c h s) = sv_clusterInfo s"
  "sv_network (upd_info c h s) = sv_network s"
  "sv_closed (upd_info c h s) = sv_closed s"
  "sv_maps (upd_info c h s) = sv_maps s"
  "sv_nets (upd_info c h s) = sv_nets s"
  "sv_dirs (upd_info c h s) = sv_dirs s"
  "length (sv_infos (upd_info c h s)) = length (sv_infos s)"
  "c < length (sv_infos s) \<Longrightarrow> info_at (upd_info c h s) c = h (info_at s c)"
  "c \<noteq> c' \<Longrightarrow> info_at (upd_info c h s) c' = info_at s c'"
  by (simp_all add: upd_info_def)

section \<open>\<open>newNetwork\<close>\<close>

definition newNetwork ::
  "'nw ext \<Rightarrow> string \<Rightarrow> string \<Rightarrow> string \<Rightarrow> string \<Rightarrow> 'nw server \<Rightarrow> nat outcome \<times> 'nw server" where
  "newNetwork E execPath rootDataDir whitelistedSubnets logLevel s =
     (case x_DefaultConfig E of
        Some e \<Rightarrow> (Fail e, s)
      | None \<Rightarrow>
     (case x_MakeLogger E rootDataDir of
        Some e \<Rightarrow> (Fail e, s)
      | None \<Rightarrow>
     (let level = (if logLevel = [] then ''INFO'' else logLevel);
          cfgs = x_NewDefaultConfig E execPath
      in (case newNetwork_loop execPath rootDataDir whitelistedSubnets
                 (strings_ToUpper (x_ToUpper E) level) (length cfgs) 0 cfgs [] of
            None \<Rightarrow> (Panic, s)
          | Some (cfgs', nodeNames, nodeInfos) \<Rightarrow>
              (Ret (length (sv_nets s)),
               s\<lparr>sv_maps := sv_maps s @ [nodeInfos],
                 sv_nets := sv_nets s @
                   [\<lparr>ln_binPath = execPath, ln_cfg = cfgs', ln_nw = None,
                     ln_nodeNames = nodeNames, ln_nodes = None,
                     ln_nodeInfos = length (sv_maps s), ln_apiClis = [],
                     ln_ready = new_once_chan, ln_stopc = False, ln_stopOnce = False,
                     ln_donec = False, ln_errc = []\<rparr>]\<rparr>)))))"

section \<open>\<open>waitForHealthy\<close>, step by step\<close>

text \<open>The call \<open>lc.nw.Healthy(ctx)\<close>: a nil interface value panics.\<close>

definition wfh_enter :: "nat \<Rightarrow> 'nw server \<Rightarrow> unit outcome" where
  "wfh_enter n s = (case ln_nw (net s n) of None \<Rightarrow> Panic | Some _ \<Rightarrow> Ret ())"

text \<open>
  The \<open>select\<close>: the stop channel, the timeout of the context, or the report of the health
  check.  The first case is only possible when \<open>stopc\<close> is closed.
\<close>

definition event_possible :: "nat \<Rightarrow> health_event \<Rightarrow> 'nw server \<Rightarrow> bool" where
  "event_possible n ev s \<longleftrightarrow> (ev \<noteq> HStopc \<or> ln_stopc (net s n))"

fun wfh_select :: "health_event \<Rightarrow> unit outcome" where
  "wfh_select HStopc = Fail ErrAborted"
| "wfh_select HTimeout = Fail CtxDeadlineExceeded"
| "wfh_select (HReport (Some e)) = Fail e"
| "wfh_select (HReport None) = Ret ()"

text \<open>The call \<open>lc.nw.GetAllNodes()\<close> and the assignment to \<open>lc.nodes\<close>.\<close>

definition wfh_nodes ::
  "'nw ext \<Rightarrow> nat \<Rightarrow> 'nw server \<Rightarrow> (string, Node) gomap outcome \<times> 'nw server" where
  "wfh_nodes E n s =
     (case ln_nw (net s n) of
        None \<Rightarrow> (Panic, s)
      | Some nw \<Rightarrow>
          (case x_GetAllNodes E nw of
             Inl e \<Rightarrow> (Fail e, s)
           | Inr nodes \<Rightarrow> (Ret nodes, upd_net n (\<lambda>l. l\<lparr>ln_nodes := Some nodes\<rparr>) s)))"

text \<open>
  The loop over \<open>nodes\<close>: a name without an entry in \<open>nodeInfos\<close> is a nil dereference, the result
  \<open>None\<close>.
\<close>

definition node_uri :: "Node \<Rightarrow> string" where
  "node_uri nd = ''http://'' @ nd_URL nd @ '':'' @ show_nat (unat (nd_APIPort nd))"

fun wfh_loop ::
  "(string, Node) gomap \<Rightarrow> (string, NodeInfo) gomap \<times> (string, nat) gomap \<Rightarrow>
   ((string, NodeInfo) gomap \<times> (string, nat) gomap) option" where
  "wfh_loop [] (infos, clis) = Some (infos, clis)"
| "wfh_loop ((name, nd) # rest) (infos, clis) =
     (case map_of infos name of
        None \<Rightarrow> None
      | Some ni \<Rightarrow>
          wfh_loop rest
            (AList.update name (ni\<lparr>ni_Uri := node_uri nd, ni_Id := nd_NodeID nd\<rparr>) infos,
             AList.update name (nd_APIClient nd) clis))"

definition close_ready :: "'nw localNetwork \<Rightarrow> 'nw localNetwork outcome" where
  "close_ready l =
     (case once_close (ln_ready l) of
        Ret c \<Rightarrow> Ret (l\<lparr>ln_ready := c\<rparr>)
      | Fail e \<Rightarrow> Fail e
      | Panic \<Rightarrow> Panic
      | Block \<Rightarrow> Block)"

definition wfh_publish ::
  "call_env \<Rightarrow> nat \<Rightarrow> (string, Node) gomap \<Rightarrow> 'nw server \<Rightarrow> unit outcome \<times> 'nw server" where
  "wfh_publish c n nodes s =
     (case wfh_loop (ce_nodes c nodes) (net_map s n, ln_apiClis (net s n)) of
        None \<Rightarrow> (Panic, s)
      | Some (infos, clis) \<Rightarrow>
          (let s1 = upd_map (ln_nodeInfos (net s n)) (\<lambda>_. infos) s;
               s2 = upd_net n (\<lambda>l. l\<lparr>ln_apiClis := clis\<rparr>) s1
           in (case close_ready (net s2 n) of
                 Ret l \<Rightarrow> (Ret (), upd_net n (\<lambda>_. l) s2)
               | Fail e \<Rightarrow> (Fail e, s2)
               | Panic \<Rightarrow> (Panic, s2)
               | Block \<Rightarrow> (Block, s2))))"

text \<open>The whole method, the steps in their order.\<close>

definition waitForHealthy ::
  "'nw ext \<Rightarrow> call_env \<Rightarrow> nat \<Rightarrow> 'nw server \<Rightarrow> unit outcome \<times> 'nw server" where
  "waitForHealthy E c n s =
     and_then (wfh_enter n s, s) (\<lambda>_ s0.
     and_then (wfh_select (ce_event c), s0) (\<lambda>_ s0.
     and_then (wfh_nodes E n s0) (\<lambda>nodes s1.
     wfh_publish c n nodes s1)))"

section \<open>\<open>start\<close> and \<open>stop\<close>\<close>

text \<open>
  The goroutine \<open>start\<close>: every return closes \<open>donec\<close> (the deferred call); an error goes into the
  buffered channel \<open>errc\<close>, which has room for the one error a start can produce.
\<close>

definition start_done :: "go_error list \<Rightarrow> 'nw localNetwork \<Rightarrow> 'nw localNetwork" where
  "start_done errs l = l\<lparr>ln_donec := True, ln_errc := ln_errc l @ errs\<rparr>"

definition start_create :: "'nw ext \<Rightarrow> nat \<Rightarrow> 'nw server \<Rightarrow> unit outcome \<times> 'nw server" where
  "start_create E n s =
     (case x_NewNetwork E (ln_cfg (net s n)) of
        Inl e \<Rightarrow> (Fail e, upd_net n (start_done [e]) s)
      | Inr nw \<Rightarrow> (Ret (), upd_net n (\<lambda>l. l\<lparr>ln_nw := Some nw\<rparr>) s))"

definition localNetwork_start ::
  "'nw ext \<Rightarrow> call_env \<Rightarrow> nat \<Rightarrow> 'nw server \<Rightarrow> unit outcome \<times> 'nw server" where
  "localNetwork_start E c n s =
     (case start_create E n s of
        (Panic, s1) \<Rightarrow> (Panic, s1) | (Block, s1) \<Rightarrow> (Block, s1)
      | (Fail e, s1) \<Rightarrow> (Ret (), s1)
      | (Ret _, s1) \<Rightarrow>
          (case waitForHealthy E c n s1 of
             (Panic, s2) \<Rightarrow> (Panic, s2) | (Block, s2) \<Rightarrow> (Block, s2)
           | (Fail e, s2) \<Rightarrow> (Ret (), upd_net n (start_done [e]) s2)
           | (Ret _, s2) \<Rightarrow> (Ret (), upd_net n (start_done []) s2)))"

text \<open>
  \<open>stop\<close> up to the receive from \<open>donec\<close>: inside the \<open>stopOnce\<close>, \<open>stopc\<close> is closed and the network
  is stopped; its error is only printed.
\<close>

definition stop_begin :: "'nw ext \<Rightarrow> nat \<Rightarrow> 'nw server \<Rightarrow> unit outcome \<times> 'nw server" where
  "stop_begin E n s =
     (if ln_stopOnce (net s n) then (Ret (), s)
      else
        (case close_chan (ln_stopc (net s n)) of
           Panic \<Rightarrow> (Panic, s) | Block \<Rightarrow> (Block, s) | Fail e \<Rightarrow> (Fail e, s)
         | Ret b \<Rightarrow>
             (let s1 = upd_net n (\<lambda>l. l\<lparr>ln_stopc := b\<rparr>) s
              in (case ln_nw (net s1 n) of
                    None \<Rightarrow> (Panic, s1)
                  | Some nw \<Rightarrow>
                      (Ret (), upd_net n (\<lambda>l. l\<lparr>ln_nw := Some (snd (x_Stop E nw)),
                                               ln_stopOnce := True\<rparr>) s1)))))"

definition localNetwork_stop :: "'nw ext \<Rightarrow> nat \<Rightarrow> 'nw server \<Rightarrow> unit outcome \<times> 'nw server" where
  "localNetwork_stop E n s =
     and_then (stop_begin E n s) (\<lambda>_ s1.
     (if ln_donec (net s1 n) then Ret () else Block, s1))"

end
