(* ===== verification/Local_Network_Props.thy ===== *)
theory Local_Network_Props
  imports Local_Network
begin

text \<open>
  What the operations of the local network do: the loop of \<open>waitForHealthy\<close> in closed form, the
  frame of every operation (what it leaves alone), the behaviour of \<open>newNetwork\<close>, and the ready
  channel as an instance of the contract of resources that are closed once.
\<close>

section \<open>The ready channel\<close>

interpretation ready: closable close_ready "\<lambda>l. oc_closed (ln_ready l)" "\<lambda>l. once_ok (ln_ready l)"
proof unfold_locales
  fix l :: "'a localNetwork"
  assume ok: "once_ok (ln_ready l)"
  then show "\<exists>l'. close_ready l = Ret l' \<and> oc_closed (ln_ready l') \<and> once_ok (ln_ready l')"
    by (simp add: close_ready_def once_close_ok) (simp add: once_ok_def)
next
  fix l :: "'a localNetwork"
  assume "once_ok (ln_ready l)" and "oc_closed (ln_ready l)"
  then show "close_ready l = Ret l"
    by (simp add: close_ready_def once.close_again)
qed

lemma close_ready_ok:
  "once_ok (ln_ready l) \<Longrightarrow>
   close_ready l = Ret (l\<lparr>ln_ready := \<lparr>oc_closed = True, oc_done = True\<rparr>\<rparr>)"
  by (simp add: close_ready_def once_close_ok)

section \<open>The loop over the nodes\<close>

definition node_entry :: "Node \<Rightarrow> NodeInfo \<Rightarrow> NodeInfo" where
  "node_entry nd ni = ni\<lparr>ni_Uri := node_uri nd, ni_Id := nd_NodeID nd\<rparr>"

lemma node_entry_frame [simp]:
  "ni_Name (node_entry nd ni) = ni_Name ni"
  "ni_ExecPath (node_entry nd ni) = ni_ExecPath ni"
  "ni_Uri (node_entry nd ni) = node_uri nd"
  "ni_Id (node_entry nd ni) = nd_NodeID nd"
  "ni_LogDir (node_entry nd ni) = ni_LogDir ni"
  "ni_DbDir (node_entry nd ni) = ni_DbDir ni"
  "ni_WhitelistedSubnets (node_entry nd ni) = ni_WhitelistedSubnets ni"
  "ni_Config (node_entry nd ni) = ni_Config ni"
  by (simp_all add: node_entry_def)

lemma wfh_loop_None_iff: "wfh_loop ns (m, cl) = None \<longleftrightarrow> \<not> keys ns \<subseteq> keys m"
proof (induction ns "(m, cl)" arbitrary: m cl rule: wfh_loop.induct)
  case (1 m cl)
  show ?case by simp
next
  case (2 name nd rest m cl)
  show ?case
  proof (cases "map_of m name")
    case None
    then have "name \<notin> keys m" by (simp add: map_of_eq_None_iff)
    with None show ?thesis by simp
  next
    case (Some ni)
    then have "name \<in> keys m" by (rule map_of_in_keys)
    with 2 [OF Some] Some show ?thesis by (simp add: insert_absorb)
  qed
qed

lemma wfh_loop_total: "keys ns \<subseteq> keys m \<Longrightarrow> \<exists>m' cl'. wfh_loop ns (m, cl) = Some (m', cl')"
  using wfh_loop_None_iff [of ns m cl] by (cases "wfh_loop ns (m, cl)") auto

lemma wfh_loop_keys:
  "wfh_loop ns (m, cl) = Some (m', cl') \<Longrightarrow>
   keys m' = keys m \<and> keys cl' = keys cl \<union> keys ns \<and>
   (gomap_ok m \<longrightarrow> gomap_ok m') \<and> (gomap_ok cl \<longrightarrow> gomap_ok cl')"
proof (induction ns "(m, cl)" arbitrary: m cl rule: wfh_loop.induct)
  case (1 m cl)
  then show ?case by simp
next
  case (2 name nd rest m cl)
  from "2.prems" obtain ni where
      ni: "map_of m name = Some ni"
    and rec: "wfh_loop rest
          (AList.update name (ni\<lparr>ni_Uri := node_uri nd, ni_Id := nd_NodeID nd\<rparr>) m,
           AList.update name (nd_APIClient nd) cl) = Some (m', cl')"
    by (auto split: option.splits)
  have "name \<in> keys m" using ni by (rule map_of_in_keys)
  with "2.hyps" [OF ni rec] show ?case by (auto simp: insert_absorb)
qed

lemma wfh_loop_entries:
  "wfh_loop ns (m, cl) = Some (m', cl') \<Longrightarrow> distinct (map fst ns) \<Longrightarrow>
   map_of m' x =
     (case map_of ns x of
        None \<Rightarrow> map_of m x
      | Some nd \<Rightarrow> map_option (node_entry nd) (map_of m x)) \<and>
   map_of cl' x =
     (case map_of ns x of None \<Rightarrow> map_of cl x | Some nd \<Rightarrow> Some (nd_APIClient nd))"
proof (induction ns "(m, cl)" arbitrary: m cl rule: wfh_loop.induct)
  case (1 m cl)
  then show ?case by simp
next
  case (2 name nd rest m cl)
  from "2.prems" obtain ni where
      ni: "map_of m name = Some ni"
    and rec: "wfh_loop rest
          (AList.update name (ni\<lparr>ni_Uri := node_uri nd, ni_Id := nd_NodeID nd\<rparr>) m,
           AList.update name (nd_APIClient nd) cl) = Some (m', cl')"
    by (auto split: option.splits)
  have "map_of rest name = None"
    using "2.prems"(2) by (auto simp: map_of_eq_None_iff)
  with "2.hyps" [OF ni rec] "2.prems"(2) ni show ?case
    by (auto simp: update_conv' node_entry_def split: option.splits)
qed

section \<open>What an operation on a network leaves alone\<close>

text \<open>
  \<open>wait_frame n s s'\<close>: from \<open>s\<close> to \<open>s'\<close> at most the addresses and identities in the map of network
  \<open>n\<close>, its API clients, its nodes and its ready channel have changed.
\<close>

definition same_shell :: "'nw server \<Rightarrow> 'nw server \<Rightarrow> bool" where
  "same_shell s s' \<longleftrightarrow>
     sv_network s' = sv_network s \<and> sv_clusterInfo s' = sv_clusterInfo s \<and>
     sv_closed s' = sv_closed s \<and> sv_dirs s' = sv_dirs s \<and> sv_infos s' = sv_infos s \<and>
     length (sv_nets s') = length (sv_nets s) \<and> length (sv_maps s') = length (sv_maps s)"

definition net_frame :: "'nw localNetwork \<Rightarrow> 'nw localNetwork \<Rightarrow> bool" where
  "net_frame l l' \<longleftrightarrow>
     ln_binPath l' = ln_binPath l \<and> ln_cfg l' = ln_cfg l \<and> ln_nw l' = ln_nw l \<and>
     ln_nodeNames l' = ln_nodeNames l \<and> ln_nodeInfos l' = ln_nodeInfos l \<and>
     ln_stopc l' = ln_stopc l \<and> ln_stopOnce l' = ln_stopOnce l \<and>
     ln_donec l' = ln_donec l \<and> ln_errc l' = ln_errc l \<and>
     (oc_closed (ln_ready l) \<longrightarrow> oc_closed (ln_ready l')) \<and>
     (once_ok (ln_ready l) \<longrightarrow> once_ok (ln_ready l'))"

definition static_part :: "NodeInfo \<Rightarrow> NodeInfo" where
  "static_part ni = ni\<lparr>ni_Uri := [], ni_Id := []\<rparr>"

definition map_frame :: "(string, NodeInfo) gomap \<Rightarrow> (string, NodeInfo) gomap \<Rightarrow> bool" where
  "map_frame m m' \<longleftrightarrow>
     keys m' = keys m \<and> (gomap_ok m \<longrightarrow> gomap_ok m') \<and>
     (\<forall>x. map_option static_part (map_of m' x) = map_option static_part (map_of m x))"

definition wait_frame :: "nat \<Rightarrow> 'nw server \<Rightarrow> 'nw server \<Rightarrow> bool" where
  "wait_frame n s s' \<longleftrightarrow>
     same_shell s s' \<and> net_frame (net s n) (net s' n) \<and> map_frame (net_map s n) (net_map s' n) \<and>
     (\<forall>k. k \<noteq> n \<longrightarrow> net s' k = net s k) \<and>
     (\<forall>m. m \<noteq> ln_nodeInfos (net s n) \<longrightarrow> sv_maps s' ! m = sv_maps s ! m)"

lemma static_part_node_entry [simp]: "static_part (node_entry nd ni) = static_part ni"
  by (simp add: static_part_def node_entry_def)

lemma same_shell_refl [simp]: "same_shell s s"
  by (simp add: same_shell_def)

lemma net_frame_refl [simp]: "net_frame l l"
  by (simp add: net_frame_def)

lemma map_frame_refl [simp]: "map_frame m m"
  by (simp add: map_frame_def)

lemma wait_frame_refl [simp]: "wait_frame n s s"
  by (simp add: wait_frame_def)

lemma wait_frame_trans:
  "wait_frame n s s' \<Longrightarrow> wait_frame n s' s'' \<Longrightarrow> wait_frame n s s''"
  unfolding wait_frame_def same_shell_def net_frame_def map_frame_def by auto

lemma map_frame_trans: "map_frame m m' \<Longrightarrow> map_frame m' m'' \<Longrightarrow> map_frame m m''"
  by (simp add: map_frame_def)

lemma map_frame_update:
  assumes "map_of m name = Some ni" and "static_part ni' = static_part ni"
  shows "map_frame m (AList.update name ni' m)"
proof -
  have "name \<in> keys m" using assms(1) by (rule map_of_in_keys)
  with assms show ?thesis by (auto simp: map_frame_def update_conv' insert_absorb)
qed

lemma wfh_loop_map_frame: "wfh_loop ns (m, cl) = Some (m', cl') \<Longrightarrow> map_frame m m'"
proof (induction ns "(m, cl)" arbitrary: m cl rule: wfh_loop.induct)
  case (1 m cl)
  then show ?case by simp
next
  case (2 name nd rest m cl)
  from "2.prems" obtain ni where
      ni: "map_of m name = Some ni"
    and rec: "wfh_loop rest
          (AList.update name (ni\<lparr>ni_Uri := node_uri nd, ni_Id := nd_NodeID nd\<rparr>) m,
           AList.update name (nd_APIClient nd) cl) = Some (m', cl')"
    by (auto split: option.splits)
  have "map_frame m (AList.update name (ni\<lparr>ni_Uri := node_uri nd, ni_Id := nd_NodeID nd\<rparr>) m)"
    using ni by (rule map_frame_update) (simp add: static_part_def)
  then show ?case using "2.hyps" [OF ni rec] by (rule map_frame_trans)
qed

text \<open>A network reference of a well-formed store.\<close>

definition valid_net :: "nat \<Rightarrow> 'nw server \<Rightarrow> bool" where
  "valid_net n s \<longleftrightarrow>
     n < length (sv_nets s) \<and> ln_nodeInfos (net s n) < length (sv_maps s) \<and>
     once_ok (ln_ready (net s n))"

lemma valid_netD:
  "valid_net n s \<Longrightarrow> n < length (sv_nets s)"
  "valid_net n s \<Longrightarrow> ln_nodeInfos (net s n) < length (sv_maps s)"
  "valid_net n s \<Longrightarrow> once_ok (ln_ready (net s n))"
  by (simp_all add: valid_net_def)

lemma wait_frame_valid: "wait_frame n s s' \<Longrightarrow> valid_net n s \<Longrightarrow> valid_net n s'"
  by (simp add: wait_frame_def valid_net_def same_shell_def net_frame_def)

lemma wfh_nodes_frame:
  assumes "n < length (sv_nets s)" and "wfh_nodes E n s = (r, s')"
  shows "wait_frame n s s'"
  using assms
  by (auto simp: wfh_nodes_def wait_frame_def same_shell_def net_frame_def net_map_def
           split: option.splits sum.splits)

text \<open>The publication in closed form.\<close>

definition published ::
  "nat \<Rightarrow> (string, NodeInfo) gomap \<Rightarrow> (string, nat) gomap \<Rightarrow> 'nw server \<Rightarrow> 'nw server" where
  "published n infos clis s =
     upd_net n (\<lambda>l. l\<lparr>ln_apiClis := clis, ln_ready := \<lparr>oc_closed = True, oc_done = True\<rparr>\<rparr>)
       (upd_map (ln_nodeInfos (net s n)) (\<lambda>_. infos) s)"

lemma wfh_publish_eq:
  assumes "valid_net n s"
  shows "wfh_publish c n nodes s =
     (case wfh_loop (ce_nodes c nodes) (net_map s n, ln_apiClis (net s n)) of
        None \<Rightarrow> (Panic, s)
      | Some (infos, clis) \<Rightarrow> (Ret (), published n infos clis s))"
  using assms
  by (auto simp: wfh_publish_def close_ready_ok valid_net_def published_def Let_def upd_net_def
           split: option.splits)

lemma published_frame:
  assumes "valid_net n s" and "map_frame (net_map s n) infos"
  shows "wait_frame n s (published n infos clis s)"
  using assms
  by (auto simp: published_def wait_frame_def same_shell_def net_frame_def valid_net_def net_map_def
                 once_ok_def)

lemma wfh_publish_frame:
  assumes "valid_net n s" and "wfh_publish c n nodes s = (r, s')"
  shows "wait_frame n s s'"
  using assms
  by (auto simp: wfh_publish_eq split: option.splits
           intro: published_frame wfh_loop_map_frame)

lemma wfh_nodes_publish_frame:
  assumes "valid_net n s" and "wfh_nodes E n s = (Ret nodes, s1)"
    and "wfh_publish c n nodes s1 = (r, s')"
  shows "wait_frame n s s'"
proof -
  have fr: "wait_frame n s s1"
    using valid_netD(1) [OF assms(1)] assms(2) by (rule wfh_nodes_frame)
  then have "valid_net n s1" using assms(1) by (rule wait_frame_valid)
  then have "wait_frame n s1 s'" using assms(3) by (rule wfh_publish_frame)
  with fr show ?thesis by (rule wait_frame_trans)
qed

lemma waitForHealthy_frame:
  assumes "valid_net n s" and "waitForHealthy E c n s = (r, s')"
  shows "wait_frame n s s'"
  using assms(2) wfh_nodes_frame [OF valid_netD(1) [OF assms(1)]]
    wfh_nodes_publish_frame [OF assms(1)]
  unfolding waitForHealthy_def by (auto split: and_then_split_asm)

section \<open>The result of a wait\<close>

text \<open>The state after a wait that found all nodes known and healthy.\<close>

definition healthy_state ::
  "call_env \<Rightarrow> nat \<Rightarrow> (string, Node) gomap \<Rightarrow> 'nw server \<Rightarrow> 'nw server" where
  "healthy_state c n nodes s =
     (let s1 = upd_net n (\<lambda>l. l\<lparr>ln_nodes := Some nodes\<rparr>) s
      in (case wfh_loop (ce_nodes c nodes) (net_map s1 n, ln_apiClis (net s1 n)) of
            None \<Rightarrow> s1
          | Some (infos, clis) \<Rightarrow> published n infos clis s1))"

lemma waitForHealthy_eq:
  assumes valid: "valid_net n s" and vis: "visit_ok (ce_nodes c)"
  shows "waitForHealthy E c n s =
     (case ln_nw (net s n) of
        None \<Rightarrow> (Panic, s)
      | Some nw \<Rightarrow>
          (case wfh_select (ce_event c) of
             Ret _ \<Rightarrow>
               (case x_GetAllNodes E nw of
                  Inl e \<Rightarrow> (Fail e, s)
                | Inr nodes \<Rightarrow>
                    (if keys nodes \<subseteq> keys (net_map s n) then Ret () else Panic,
                     healthy_state c n nodes s))
           | Fail e \<Rightarrow> (Fail e, s) | Panic \<Rightarrow> (Panic, s) | Block \<Rightarrow> (Block, s)))"
proof (cases "ln_nw (net s n)")
  case None
  then show ?thesis by (simp add: waitForHealthy_def wfh_enter_def)
next
  case (Some nw)
  note nw = this
  have publish: "wfh_publish c n nodes s1 =
      (if keys nodes \<subseteq> keys (net_map s n) then Ret () else Panic, healthy_state c n nodes s)"
    if s1: "s1 = upd_net n (\<lambda>l. l\<lparr>ln_nodes := Some nodes\<rparr>) s" for nodes s1
  proof -
    have valid1: "valid_net n s1" using valid s1 by (simp add: valid_net_def)
    have map1: "net_map s1 n = net_map s n" using valid s1 by (simp add: valid_net_def net_map_def)
    show ?thesis
    proof (cases "wfh_loop (ce_nodes c nodes) (net_map s1 n, ln_apiClis (net s1 n))")
      case None
      then have "\<not> keys nodes \<subseteq> keys (net_map s n)"
        using vis by (simp add: wfh_loop_None_iff map1)
      moreover have "wfh_publish c n nodes s1 = (Panic, s1)"
        using None by (simp add: wfh_publish_eq [OF valid1])
      moreover have "healthy_state c n nodes s = s1"
        using None by (simp add: healthy_state_def s1 [symmetric])
      ultimately show ?thesis by simp
    next
      case (Some res)
      obtain infos clis where res: "res = (infos, clis)" by (cases res)
      have "keys nodes \<subseteq> keys (net_map s n)"
      proof (rule ccontr)
        assume "\<not> ?thesis"
        then have "wfh_loop (ce_nodes c nodes) (net_map s1 n, ln_apiClis (net s1 n)) = None"
          using vis by (simp add: wfh_loop_None_iff map1)
        with Some show False by simp
      qed
      moreover have "wfh_publish c n nodes s1 = (Ret (), published n infos clis s1)"
        using Some res by (simp add: wfh_publish_eq [OF valid1])
      moreover have "healthy_state c n nodes s = published n infos clis s1"
        using Some res by (simp add: healthy_state_def s1 [symmetric])
      ultimately show ?thesis by simp
    qed
  qed
  show ?thesis
  proof (cases "wfh_select (ce_event c)")
    case (Ret u)
    then show ?thesis
      using nw by (auto simp: waitForHealthy_def wfh_enter_def wfh_nodes_def publish split: sum.splits)
  qed (use nw in \<open>simp_all add: waitForHealthy_def wfh_enter_def\<close>)
qed

lemma wfh_select_answered [simp]: "wfh_select ev \<noteq> Panic" "wfh_select ev \<noteq> Block"
  by (cases ev rule: wfh_select.cases; simp)+

lemma waitForHealthy_answered:
  assumes "valid_net n s" and "visit_ok (ce_nodes c)" and "ln_nw (net s n) = Some nw"
    and "\<And>nodes. x_GetAllNodes E nw = Inr nodes \<Longrightarrow> keys nodes \<subseteq> keys (net_map s n)"
  shows "answered (fst (waitForHealthy E c n s))"
  using assms(3,4)
  by (auto simp: waitForHealthy_eq [OF assms(1,2)] outcome_simps split: outcome.splits sum.splits)

text \<open>After a healthy report: every entry of a running node has its address and identity.\<close>

lemma healthy_state_entries:
  assumes "valid_net n s" and "visit_ok (ce_nodes c)" and "gomap_ok nodes"
    and "keys nodes \<subseteq> keys (net_map s n)"
  shows "map_of (net_map (healthy_state c n nodes s) n) x =
           (case map_of nodes x of
              None \<Rightarrow> map_of (net_map s n) x
            | Some nd \<Rightarrow> map_option (node_entry nd) (map_of (net_map s n) x))"
    and "oc_closed (ln_ready (net (healthy_state c n nodes s) n))"
    and "ln_nodes (net (healthy_state c n nodes s) n) = Some nodes"
    and "map_of (ln_apiClis (net (healthy_state c n nodes s) n)) x =
           (case map_of nodes x of
              None \<Rightarrow> map_of (ln_apiClis (net s n)) x
            | Some nd \<Rightarrow> Some (nd_APIClient nd))"
proof -
  define s1 where "s1 = upd_net n (\<lambda>l. l\<lparr>ln_nodes := Some nodes\<rparr>) s"
  have s1: "valid_net n s1" "net_map s1 n = net_map s n" "ln_apiClis (net s1 n) = ln_apiClis (net s n)"
       "ln_nodes (net s1 n) = Some nodes"
    using assms(1) by (simp_all add: s1_def valid_net_def net_map_def)
  have "keys (ce_nodes c nodes) \<subseteq> keys (net_map s n)" using assms(2,4) by simp
  then obtain infos clis where
    loop: "wfh_loop (ce_nodes c nodes) (net_map s n, ln_apiClis (net s n)) = Some (infos, clis)"
    using wfh_loop_total by blast
  then have eq: "healthy_state c n nodes s = published n infos clis s1"
    using s1 by (simp add: healthy_state_def s1_def [symmetric] Let_def)
  have entries: "map_of infos x =
      (case map_of nodes x of
         None \<Rightarrow> map_of (net_map s n) x
       | Some nd \<Rightarrow> map_option (node_entry nd) (map_of (net_map s n) x))"
    and cl: "map_of clis x =
      (case map_of nodes x of None \<Rightarrow> map_of (ln_apiClis (net s n)) x | Some nd \<Rightarrow> Some (nd_APIClient nd))"
    using wfh_loop_entries [OF loop visit_distinct_fst [OF assms(2,3)], of x]
    by (simp_all add: visit_map_of [OF assms(2,3)])
  have net: "net (published n infos clis s1) n =
      (net s1 n)\<lparr>ln_apiClis := clis, ln_ready := \<lparr>oc_closed = True, oc_done = True\<rparr>\<rparr>"
    and map: "net_map (published n infos clis s1) n = infos"
    using s1(1) by (simp_all add: published_def valid_net_def net_map_def)
  from eq map entries show "map_of (net_map (healthy_state c n nodes s) n) x =
           (case map_of nodes x of
              None \<Rightarrow> map_of (net_map s n) x
            | Some nd \<Rightarrow> map_option (node_entry nd) (map_of (net_map s n) x))" by simp
  from eq net show "oc_closed (ln_ready (net (healthy_state c n nodes s) n))" by simp
  from eq net s1(4) show "ln_nodes (net (healthy_state c n nodes s) n) = Some nodes" by simp
  from eq net cl show "map_of (ln_apiClis (net (healthy_state c n nodes s) n)) x =
           (case map_of nodes x of
              None \<Rightarrow> map_of (ln_apiClis (net s n)) x
            | Some nd \<Rightarrow> Some (nd_APIClient nd))" by simp
qed

section \<open>\<open>newNetwork\<close>\<close>

text \<open>The struct and the map a successful \<open>newNetwork\<close> adds to the store.\<close>

lemma newNetwork_Ret:
  assumes "newNetwork E execPath root ws lvl s = (Ret n, s')"
  obtains cfgs' names infos where
    "newNetwork_loop execPath root ws
       (strings_ToUpper (x_ToUpper E) (if lvl = [] then ''INFO'' else lvl))
       (length (x_NewDefaultConfig E execPath)) 0 (x_NewDefaultConfig E execPath) []
       = Some (cfgs', names, infos)"
    and "n = length (sv_nets s)"
    and "s' = s\<lparr>sv_maps := sv_maps s @ [infos],
              sv_nets := sv_nets s @
                [\<lparr>ln_binPath = execPath, ln_cfg = cfgs', ln_nw = None, ln_nodeNames = names,
                  ln_nodes = None, ln_nodeInfos = length (sv_maps s), ln_apiClis = [],
                  ln_ready = new_once_chan, ln_stopc = False, ln_stopOnce = False,
                  ln_donec = False, ln_errc = []\<rparr>]\<rparr>"
  using assms unfolding newNetwork_def
  by (auto simp: Let_def split: option.splits)

lemma newNetwork_other:
  assumes "newNetwork E execPath root ws lvl s = (r, s')" and "\<And>n. r \<noteq> Ret n"
  shows "s' = s"
  using assms unfolding newNetwork_def by (auto simp: Let_def split: option.splits)

lemma newNetwork_not_Block: "fst (newNetwork E execPath root ws lvl s) \<noteq> Block"
  unfolding newNetwork_def by (auto simp: Let_def split: option.splits)

lemma newNetwork_Panic_iff:
  assumes "x_DefaultConfig E = None" and "x_MakeLogger E root = None"
  shows "fst (newNetwork E execPath root ws lvl s) = Panic \<longleftrightarrow>
         length colors < length (x_NewDefaultConfig E execPath)"
proof -
  let ?cfgs = "x_NewDefaultConfig E execPath"
  have "(\<exists>k < length ?cfgs. length colors \<le> (0 + k) mod length ?cfgs) \<longleftrightarrow>
        length colors < length ?cfgs"
    by (auto intro: exI [of _ "length colors"])
  moreover define lv where "lv = (if lvl = [] then ''INFO'' else lvl)"
  ultimately have "newNetwork_loop execPath root ws (strings_ToUpper (x_ToUpper E) lv)
        (length ?cfgs) 0 ?cfgs [] = None \<longleftrightarrow> length colors < length ?cfgs"
    by (simp only: newNetwork_loop_None_iff)
  then show ?thesis
    using assms unfolding newNetwork_def Let_def lv_def [symmetric] by (auto split: option.splits)
qed

end
