(* ===== verification/Server.thy ===== *)
theory Server
  imports Local_Network
begin

text \<open>
  The handlers of the two services, \<open>src/server/server.go\<close>.  A handler is the composition of its
  segments, cut where the code takes a lock or waits: the segment before the lock, the segment
  under the lock, the wait for health, the segment after it.  The theories on concurrency run the
  same segments interleaved.  A returned \<open>*rpcpb.ClusterInfo\<close> is a reference (or nil).
\<close>

section \<open>\<open>getClusterInfo\<close>, \<open>Ping\<close>, \<open>Status\<close>, \<open>URIs\<close>\<close>

definition getClusterInfo :: "'nw server \<Rightarrow> nat option" where
  "getClusterInfo s = sv_clusterInfo s"

definition Ping :: "'nw ext \<Rightarrow> PingResponse" where
  "Ping E = \<lparr>pr_Pid = word_of_int (x_Getpid E)\<rparr>"

definition Status :: "'nw server \<Rightarrow> nat outcome" where
  "Status s = (case getClusterInfo s of None \<Rightarrow> Fail ErrNotBootstrapped | Some c \<Rightarrow> Ret c)"

text \<open>
  \<open>URIs\<close> collects the addresses in the order of the map visit and sorts them; the lock that
  \<open>getClusterInfo\<close> takes is free again by then.
\<close>

definition map_at :: "'nw server \<Rightarrow> nat option \<Rightarrow> (string, NodeInfo) gomap" where
  "map_at s m = (case m of None \<Rightarrow> [] | Some k \<Rightarrow> sv_maps s ! k)"

definition URIs_collect :: "call_env \<Rightarrow> nat \<Rightarrow> 'nw server \<Rightarrow> URIsResponse outcome" where
  "URIs_collect c i s =
     (let uris = map (\<lambda>(name, ni). ni_Uri ni) (ce_infos c (map_at s (ci_NodeInfos (info_at s i))))
      in Ret \<lparr>ur_Uris = sort uris\<rparr>)"

definition URIs :: "call_env \<Rightarrow> 'nw server \<Rightarrow> URIsResponse outcome" where
  "URIs c s =
     (case getClusterInfo s of
        None \<Rightarrow> Fail ErrNotBootstrapped
      | Some i \<Rightarrow> URIs_collect c i s)"

section \<open>\<open>Start\<close>\<close>

text \<open>Before the lock: the first check, the data directory, the existence of the binary.\<close>

definition start_prepare ::
  "'nw ext \<Rightarrow> call_env \<Rightarrow> StartRequest \<Rightarrow> 'nw server \<Rightarrow> string outcome \<times> 'nw server" where
  "start_prepare E c req s =
     (if getClusterInfo s \<noteq> None then (Fail ErrAlreadyBootstrapped, s)
      else
        (case ce_tempdir c of
           Inl e \<Rightarrow> (Fail e, s)
         | Inr rootDataDir \<Rightarrow>
             (let s1 = s\<lparr>sv_dirs := sv_dirs s @ [rootDataDir]\<rparr>
              in if x_Stat E (sr_ExecPath req) then (Ret rootDataDir, s1)
                 else (Fail ErrNotExists, s1))))"

text \<open>
  Under the lock: the second check, the new network, the cluster information.  The result is the
  reference the response carries, and the network whose goroutines (\<open>start\<close> and the watcher of
  \<open>readyc\<close>) now run.
\<close>

definition start_locked ::
  "'nw ext \<Rightarrow> string \<Rightarrow> StartRequest \<Rightarrow> 'nw server \<Rightarrow> (nat \<times> nat) outcome \<times> 'nw server" where
  "start_locked E rootDataDir req s =
     (case sv_network s of
        Some _ \<Rightarrow> (Fail ErrAlreadyBootstrapped, s)
      | None \<Rightarrow>
          (case newNetwork E (StartRequest_GetExecPath (Some req)) rootDataDir
                  (StartRequest_GetWhitelistedSubnets (Some req))
                  (StartRequest_GetLogLevel (Some req)) s of
             (Panic, s1) \<Rightarrow> (Panic, s1)
           | (Block, s1) \<Rightarrow> (Block, s1)
           | (Fail e, s1) \<Rightarrow> (Fail e, s1\<lparr>sv_network := None\<rparr>)
           | (Ret n, s1) \<Rightarrow>
               (let info = \<lparr>ci_NodeNames = [], ci_NodeInfos = None,
                            ci_Pid = word_of_int (x_Getpid E), ci_RootDataDir = rootDataDir,
                            ci_Healthy = False\<rparr>;
                    i = length (sv_infos s1)
                in (Ret (i, n),
                    s1\<lparr>sv_network := Some n, sv_infos := sv_infos s1 @ [info],
                       sv_clusterInfo := Some i\<rparr>))))"

definition Start ::
  "'nw ext \<Rightarrow> call_env \<Rightarrow> StartRequest \<Rightarrow> 'nw server \<Rightarrow> (nat \<times> nat) outcome \<times> 'nw server" where
  "Start E c req s =
     and_then (start_prepare E c req s) (\<lambda>rootDataDir s1. start_locked E rootDataDir req s1)"

text \<open>
  The goroutine that waits for \<open>readyc\<close>: when it is closed, it takes the lock and copies the names
  and the map of the network the server holds then into the cluster information the server holds
  then; both are dereferenced without a check.
\<close>

definition watch_ready :: "'nw server \<Rightarrow> unit outcome \<times> 'nw server" where
  "watch_ready s =
     (case (sv_clusterInfo s, sv_network s) of
        (Some i, Some n) \<Rightarrow>
          (Ret (), upd_info i (\<lambda>x. x\<lparr>ci_NodeNames := ln_nodeNames (net s n),
                                     ci_NodeInfos := Some (ln_nodeInfos (net s n)),
                                     ci_Healthy := True\<rparr>) s)
      | _ \<Rightarrow> (Panic, s))"

section \<open>\<open>Health\<close>\<close>

text \<open>The check and the dereference of \<open>s.network\<close> for the call of \<open>waitForHealthy\<close>.\<close>

definition health_enter :: "'nw server \<Rightarrow> nat outcome" where
  "health_enter s =
     (case getClusterInfo s of
        None \<Rightarrow> Fail ErrNotBootstrapped
      | Some _ \<Rightarrow> (case sv_network s of None \<Rightarrow> Panic | Some n \<Rightarrow> Ret n))"

text \<open>Collecting the names of the map \<open>s.network.nodeInfos\<close> into \<open>s.network.nodeNames\<close>, and publishing.\<close>

definition refresh_names :: "call_env \<Rightarrow> nat \<Rightarrow> 'nw server \<Rightarrow> 'nw server" where
  "refresh_names c n s = upd_net n (\<lambda>l. l\<lparr>ln_nodeNames := map fst (ce_infos c (net_map s n))\<rparr>) s"

definition publish_nodes :: "nat \<Rightarrow> nat \<Rightarrow> 'nw server \<Rightarrow> 'nw server" where
  "publish_nodes i n s =
     upd_info i (\<lambda>x. x\<lparr>ci_NodeNames := ln_nodeNames (net s n),
                       ci_NodeInfos := Some (ln_nodeInfos (net s n))\<rparr>) s"

definition health_locked :: "call_env \<Rightarrow> 'nw server \<Rightarrow> nat option outcome \<times> 'nw server" where
  "health_locked c s =
     (case sv_network s of
        None \<Rightarrow> (Panic, s)
      | Some n \<Rightarrow>
          (let s1 = refresh_names c n s
           in (case sv_clusterInfo s1 of
                 None \<Rightarrow> (Panic, s1)
               | Some i \<Rightarrow>
                   (let s2 = publish_nodes i n s1 in (Ret (sv_clusterInfo s2), s2)))))"

definition Health :: "'nw ext \<Rightarrow> call_env \<Rightarrow> 'nw server \<Rightarrow> nat option outcome \<times> 'nw server" where
  "Health E c s =
     and_then (health_enter s, s) (\<lambda>n s0.
     and_then (waitForHealthy E c n s0) (\<lambda>_ s1.
     health_locked c s1))"

section \<open>\<open>RemoveNode\<close>\<close>

text \<open>
  Under the lock, up to the wait; the result is the network to wait for.  The call
  \<open>s.network.nw.RemoveNode\<close> on a nil interface panics, and so does a nil \<open>s.clusterInfo\<close>.
\<close>

definition remove_locked ::
  "'nw ext \<Rightarrow> call_env \<Rightarrow> string \<Rightarrow> 'nw server \<Rightarrow> nat outcome \<times> 'nw server" where
  "remove_locked E c name s =
     (case sv_network s of
        None \<Rightarrow> (Panic, s)
      | Some n \<Rightarrow>
          (case map_of (net_map s n) name of
             None \<Rightarrow> (Fail ErrNodeNotFound, s)
           | Some _ \<Rightarrow>
               (case ln_nw (net s n) of
                  None \<Rightarrow> (Panic, s)
                | Some nw \<Rightarrow>
                    (case x_RemoveNode E name nw of
                       (Some e, nw') \<Rightarrow> (Fail e, upd_net n (\<lambda>l. l\<lparr>ln_nw := Some nw'\<rparr>) s)
                     | (None, nw') \<Rightarrow>
                         (let s1 = upd_net n (\<lambda>l. l\<lparr>ln_nw := Some nw'\<rparr>) s;
                              s2 = upd_map (ln_nodeInfos (net s1 n)) (AList.delete name) s1;
                              s3 = refresh_names c n s2
                          in (case sv_clusterInfo s3 of
                                None \<Rightarrow> (Panic, s3)
                              | Some i \<Rightarrow> (Ret n, publish_nodes i n s3)))))))"

definition RemoveNode ::
  "'nw ext \<Rightarrow> call_env \<Rightarrow> RemoveNodeRequest \<Rightarrow> 'nw server \<Rightarrow> nat option outcome \<times> 'nw server" where
  "RemoveNode E c req s =
     (case getClusterInfo s of
        None \<Rightarrow> (Fail ErrNotBootstrapped, s)
      | Some _ \<Rightarrow>
          and_then (remove_locked E c (rm_Name req) s) (\<lambda>n s1.
          and_then (waitForHealthy E c n s1) (\<lambda>_ s2.
          (Ret (sv_clusterInfo s2), s2))))"

section \<open>\<open>RestartNode\<close>\<close>

text \<open>The loop that looks for the configuration of the node: the first index with that name.\<close>

fun find_config :: "string \<Rightarrow> nat \<Rightarrow> NodeConfig list \<Rightarrow> (nat \<times> NodeConfig) option" where
  "find_config name i [] = None"
| "find_config name i (cfg # cfgs) =
     (if nc_Name cfg = name then Some (i, cfg) else find_config name (i + 1) cfgs)"

text \<open>The lookups: the entry of the node in the map and its configuration, or \<open>ErrNodeNotFound\<close>.\<close>

definition restart_find :: "string \<Rightarrow> 'nw server \<Rightarrow> (nat \<times> nat \<times> NodeConfig) outcome" where
  "restart_find name s =
     (case sv_network s of
        None \<Rightarrow> Panic
      | Some n \<Rightarrow>
          (case map_of (net_map s n) name of
             None \<Rightarrow> Fail ErrNodeNotFound
           | Some _ \<Rightarrow>
               (case find_config name 0 (ln_cfg (net s n)) of
                  None \<Rightarrow> Fail ErrNodeNotFound
                | Some (idx, oldNodeConfig) \<Rightarrow> Ret (n, idx, oldNodeConfig))))"

text \<open>
  The entry is changed in place, through the pointer \<open>nodeInfo\<close>, before the type assertion, the
  removal and the addition, each of which can still fail.  A request without a \<open>StartRequest\<close> or
  without \<open>WhitelistedSubnets\<close> is a nil dereference.
\<close>

definition set_entry ::
  "string \<Rightarrow> (NodeInfo \<Rightarrow> NodeInfo) \<Rightarrow> (string, NodeInfo) gomap \<Rightarrow> (string, NodeInfo) gomap" where
  "set_entry name f m = (case map_of m name of None \<Rightarrow> m | Some ni \<Rightarrow> AList.update name (f ni) m)"

definition restart_update ::
  "RestartNodeRequest \<Rightarrow> nat \<Rightarrow> 'nw server \<Rightarrow> NodeInfo outcome \<times> 'nw server" where
  "restart_update req n s =
     (case rr_StartRequest req of
        None \<Rightarrow> (Panic, s)
      | Some sr \<Rightarrow>
          (let m = ln_nodeInfos (net s n);
               s1 = upd_map m (set_entry (rr_Name req) (\<lambda>ni. ni\<lparr>ni_ExecPath := sr_ExecPath sr\<rparr>)) s
           in (case sr_WhitelistedSubnets sr of
                 None \<Rightarrow> (Panic, s1)
               | Some ws \<Rightarrow>
                   (let s2 = upd_map m (set_entry (rr_Name req)
                               (\<lambda>ni. ni\<lparr>ni_WhitelistedSubnets := ws\<rparr>)) s1
                    in (case map_of (net_map s2 n) (rr_Name req) of
                          None \<Rightarrow> (Panic, s2)
                        | Some nodeInfo \<Rightarrow> (Ret nodeInfo, s2))))))"

text \<open>The new configuration: the configuration file, the type assertion, the binary.\<close>

definition restart_config :: "NodeInfo \<Rightarrow> NodeConfig \<Rightarrow> NodeConfig outcome" where
  "restart_config nodeInfo oldNodeConfig =
     (let nodeConfig = oldNodeConfig\<lparr>nc_ConfigFile :=
            restart_config_file (ni_LogDir nodeInfo) (ni_DbDir nodeInfo)
              (ni_WhitelistedSubnets nodeInfo)\<rparr>
      in (case nc_Impl nodeConfig of
            ImplLocal lcfg \<Rightarrow>
              Ret (nodeConfig\<lparr>nc_Impl := ImplLocal (lcfg\<lparr>lnc_BinaryPath := ni_ExecPath nodeInfo\<rparr>)\<rparr>)
          | ImplNil \<Rightarrow> Fail ErrUnexpectedType
          | ImplOther _ \<Rightarrow> Fail ErrUnexpectedType))"

text \<open>The node is removed from the running network and added with the new configuration.\<close>

definition restart_swap ::
  "'nw ext \<Rightarrow> string \<Rightarrow> nat \<Rightarrow> NodeConfig \<Rightarrow> 'nw server \<Rightarrow> unit outcome \<times> 'nw server" where
  "restart_swap E name n nodeConfig s =
     (case ln_nw (net s n) of
        None \<Rightarrow> (Panic, s)
      | Some nw \<Rightarrow>
          (case x_RemoveNode E name nw of
             (Some e, nw1) \<Rightarrow> (Fail e, upd_net n (\<lambda>l. l\<lparr>ln_nw := Some nw1\<rparr>) s)
           | (None, nw1) \<Rightarrow>
               (case x_AddNode E nodeConfig nw1 of
                  (Some e, nw2) \<Rightarrow> (Fail e, upd_net n (\<lambda>l. l\<lparr>ln_nw := Some nw2\<rparr>) s)
                | (None, nw2) \<Rightarrow> (Ret (), upd_net n (\<lambda>l. l\<lparr>ln_nw := Some nw2\<rparr>) s))))"

text \<open>Everything under the lock up to the wait.\<close>

definition restart_locked ::
  "'nw ext \<Rightarrow> RestartNodeRequest \<Rightarrow> 'nw server \<Rightarrow> (nat \<times> nat \<times> NodeConfig) outcome \<times> 'nw server" where
  "restart_locked E req s =
     and_then (restart_find (rr_Name req) s, s) (\<lambda>(n, idx, oldNodeConfig) s0.
     and_then (restart_update req n s0) (\<lambda>nodeInfo s1.
     and_then (restart_config nodeInfo oldNodeConfig, s1) (\<lambda>nodeConfig s2.
     and_then (restart_swap E (rr_Name req) n nodeConfig s2) (\<lambda>_ s3.
     (Ret (n, idx, nodeConfig), s3)))))"

text \<open>After the wait: the new configuration replaces the old one.\<close>

definition restart_finish ::
  "nat \<Rightarrow> NodeConfig \<Rightarrow> 'nw server \<Rightarrow> nat option outcome \<times> 'nw server" where
  "restart_finish idx nodeConfig s =
     (case sv_network s of
        None \<Rightarrow> (Panic, s)
      | Some n \<Rightarrow>
          (let s1 = upd_net n (\<lambda>l. l\<lparr>ln_cfg := (ln_cfg l)[idx := nodeConfig]\<rparr>) s
           in (case sv_clusterInfo s1 of
                 None \<Rightarrow> (Panic, s1)
               | Some i \<Rightarrow>
                   (let s2 = upd_info i (\<lambda>x. x\<lparr>ci_NodeInfos := Some (ln_nodeInfos (net s1 n))\<rparr>) s1
                    in (Ret (sv_clusterInfo s2), s2)))))"

definition RestartNode ::
  "'nw ext \<Rightarrow> call_env \<Rightarrow> RestartNodeRequest \<Rightarrow> 'nw server \<Rightarrow> nat option outcome \<times> 'nw server" where
  "RestartNode E c req s =
     (case getClusterInfo s of
        None \<Rightarrow> (Fail ErrNotBootstrapped, s)
      | Some _ \<Rightarrow>
          and_then (restart_locked E req s) (\<lambda>(n, idx, nodeConfig) s1.
          and_then (waitForHealthy E c n s1) (\<lambda>_ s2.
          restart_finish idx nodeConfig s2)))"

section \<open>\<open>Stop\<close>\<close>

text \<open>Under the lock: stop the network, and when its goroutine has ended, forget it.\<close>

definition stop_locked :: "'nw ext \<Rightarrow> 'nw server \<Rightarrow> nat outcome \<times> 'nw server" where
  "stop_locked E s =
     (case sv_network s of
        None \<Rightarrow> (Panic, s)
      | Some n \<Rightarrow> and_then (stop_begin E n s) (\<lambda>_ s1. (Ret n, s1)))"

definition stop_finish :: "nat \<Rightarrow> 'nw server \<Rightarrow> nat outcome \<times> 'nw server" where
  "stop_finish i s =
     (Ret i, (upd_info i (\<lambda>x. x\<lparr>ci_Healthy := False\<rparr>) (s\<lparr>sv_network := None\<rparr>))\<lparr>sv_clusterInfo := None\<rparr>)"

definition Stop :: "'nw ext \<Rightarrow> 'nw server \<Rightarrow> nat outcome \<times> 'nw server" where
  "Stop E s =
     (case getClusterInfo s of
        None \<Rightarrow> (Fail ErrNotBootstrapped, s)
      | Some i \<Rightarrow>
          and_then (stop_locked E s) (\<lambda>n s1.
          if ln_donec (net s1 n) then stop_finish i s1 else (Block, s1)))"

end
