(* ===== verification/Cluster_Inv.thy ===== *)
theory Cluster_Inv
  imports Local_Network_Props Server
begin

text \<open>
  The invariant of the server between two requests, and its preservation by every handler:
  references point into the store, the map of a network belongs to it alone, the server has a
  network exactly when it has cluster information, the running network knows no node the map of
  the server does not know, and what the cluster information publishes is what the network holds.
\<close>

section \<open>What the server relies on\<close>

text \<open>
  The documented behaviour of \<open>network.Network\<close>, over the names of the nodes a network holds:
  \<open>GetAllNodes\<close> returns exactly these, with distinct names; a node removed is gone, a node added
  is there; a call that fails may have taken effect or not.
\<close>

definition network_laws :: "'nw ext \<Rightarrow> ('nw \<Rightarrow> string set) \<Rightarrow> bool" where
  "network_laws E nms \<longleftrightarrow>
     (\<forall>cfgs nw. x_NewNetwork E cfgs = Inr nw \<longrightarrow> nms nw = nc_Name ` set cfgs) \<and>
     (\<forall>nw nodes. x_GetAllNodes E nw = Inr nodes \<longrightarrow> gomap_ok nodes \<and> keys nodes = nms nw) \<and>
     (\<forall>x nw nw'. x_RemoveNode E x nw = (None, nw') \<longrightarrow> nms nw' = nms nw - {x}) \<and>
     (\<forall>x nw e nw'. x_RemoveNode E x nw = (Some e, nw') \<longrightarrow> nms nw' \<subseteq> nms nw) \<and>
     (\<forall>c nw nw'. x_AddNode E c nw = (None, nw') \<longrightarrow> nms nw' = insert (nc_Name c) (nms nw)) \<and>
     (\<forall>c nw e nw'. x_AddNode E c nw = (Some e, nw') \<longrightarrow> nms nw' \<subseteq> insert (nc_Name c) (nms nw))"

lemma network_lawsD:
  assumes "network_laws E nms"
  shows "x_NewNetwork E cfgs = Inr nw \<Longrightarrow> nms nw = nc_Name ` set cfgs"
    and "x_GetAllNodes E nw = Inr nodes \<Longrightarrow> gomap_ok nodes \<and> keys nodes = nms nw"
    and "x_RemoveNode E x nw = (None, nw') \<Longrightarrow> nms nw' = nms nw - {x}"
    and "x_RemoveNode E x nw = (Some e, nw') \<Longrightarrow> nms nw' \<subseteq> nms nw"
    and "x_AddNode E c nw = (None, nw') \<Longrightarrow> nms nw' = insert (nc_Name c) (nms nw)"
    and "x_AddNode E c nw = (Some e, nw') \<Longrightarrow> nms nw' \<subseteq> insert (nc_Name c) (nms nw)"
proof -
  note laws = assms [unfolded network_laws_def]
  show "x_NewNetwork E cfgs = Inr nw \<Longrightarrow> nms nw = nc_Name ` set cfgs"
    using laws by metis
  show "x_GetAllNodes E nw = Inr nodes \<Longrightarrow> gomap_ok nodes \<and> keys nodes = nms nw"
    using laws by metis
  show "x_RemoveNode E x nw = (None, nw') \<Longrightarrow> nms nw' = nms nw - {x}"
    using laws by metis
  show "x_RemoveNode E x nw = (Some e, nw') \<Longrightarrow> nms nw' \<subseteq> nms nw"
    using laws by metis
  show "x_AddNode E c nw = (None, nw') \<Longrightarrow> nms nw' = insert (nc_Name c) (nms nw)"
    using laws by metis
  show "x_AddNode E c nw = (Some e, nw') \<Longrightarrow> nms nw' \<subseteq> insert (nc_Name c) (nms nw)"
    using laws by metis
qed

definition env_ok :: "call_env \<Rightarrow> bool" where
  "env_ok c \<longleftrightarrow> visit_ok (ce_nodes c) \<and> visit_ok (ce_infos c)"

section \<open>The invariant\<close>

definition store_ok :: "'nw server \<Rightarrow> bool" where
  "store_ok s \<longleftrightarrow>
     (\<forall>n. sv_network s = Some n \<longrightarrow> n < length (sv_nets s)) \<and>
     (\<forall>i. sv_clusterInfo s = Some i \<longrightarrow> i < length (sv_infos s)) \<and>
     (sv_network s = None \<longleftrightarrow> sv_clusterInfo s = None) \<and>
     (\<forall>k < length (sv_nets s). valid_net k s) \<and>
     (\<forall>j < length (sv_nets s). \<forall>k < length (sv_nets s).
        ln_nodeInfos (net s j) = ln_nodeInfos (net s k) \<longrightarrow> j = k) \<and>
     (\<forall>m < length (sv_maps s). gomap_ok (sv_maps s ! m)) \<and>
     (\<forall>x \<in> set (sv_infos s). \<forall>m. ci_NodeInfos x = Some m \<longrightarrow> m < length (sv_maps s))"

text \<open>The network \<open>n\<close> has been created, knows only nodes of the map, and is not being stopped.\<close>

definition running :: "('nw \<Rightarrow> string set) \<Rightarrow> nat \<Rightarrow> 'nw server \<Rightarrow> bool" where
  "running nms n s \<longleftrightarrow>
     (\<exists>nw. ln_nw (net s n) = Some nw \<and> nms nw \<subseteq> keys (net_map s n)) \<and>
     keys (net_map s n) \<subseteq> nc_Name ` set (ln_cfg (net s n)) \<and>
     (\<forall>cfg \<in> set (ln_cfg (net s n)). \<exists>l. nc_Impl cfg = ImplLocal l) \<and>
     ln_donec (net s n) \<and> \<not> ln_stopc (net s n) \<and> \<not> ln_stopOnce (net s n)"

text \<open>
  What the server publishes: the list of names of the network is an enumeration of the keys of its
  map; the cluster information has no map yet or this very map, and no names yet or an enumeration
  of its keys; when it says healthy, the ready channel is closed and both are there.
\<close>

definition published_ok :: "nat \<Rightarrow> nat \<Rightarrow> 'nw server \<Rightarrow> bool" where
  "published_ok i n s \<longleftrightarrow>
     mset (ln_nodeNames (net s n)) = mset (map fst (net_map s n)) \<and>
     (ci_NodeInfos (info_at s i) = None \<or> ci_NodeInfos (info_at s i) = Some (ln_nodeInfos (net s n))) \<and>
     (ci_NodeNames (info_at s i) = [] \<or>
      mset (ci_NodeNames (info_at s i)) = mset (map fst (net_map s n))) \<and>
     (ci_Healthy (info_at s i) \<longrightarrow>
        oc_closed (ln_ready (net s n)) \<and>
        ci_NodeInfos (info_at s i) = Some (ln_nodeInfos (net s n)) \<and>
        mset (ci_NodeNames (info_at s i)) = mset (map fst (net_map s n)))"

definition cluster_ok :: "('nw \<Rightarrow> string set) \<Rightarrow> 'nw server \<Rightarrow> bool" where
  "cluster_ok nms s \<longleftrightarrow>
     store_ok s \<and>
     (\<forall>i n. sv_clusterInfo s = Some i \<longrightarrow> sv_network s = Some n \<longrightarrow>
        running nms n s \<and> published_ok i n s)"

definition init_server :: "'nw server" where
  "init_server = \<lparr>sv_clusterInfo = None, sv_network = None, sv_closed = False, sv_infos = [],
                  sv_maps = [], sv_nets = [], sv_dirs = []\<rparr>"

lemma cluster_ok_init: "cluster_ok nms init_server"
  by (simp add: cluster_ok_def store_ok_def init_server_def)

lemma store_okD:
  assumes "store_ok s"
  shows "sv_network s = Some n \<Longrightarrow> n < length (sv_nets s)"
    and "sv_network s = Some n \<Longrightarrow> valid_net n s"
    and "sv_clusterInfo s = Some i \<Longrightarrow> i < length (sv_infos s)"
    and "sv_network s = None \<longleftrightarrow> sv_clusterInfo s = None"
    and "k < length (sv_nets s) \<Longrightarrow> valid_net k s"
    and "m < length (sv_maps s) \<Longrightarrow> gomap_ok (sv_maps s ! m)"
  using assms by (auto simp: store_ok_def)

text \<open>A live server: the cluster information, the network, and the facts about them.\<close>

lemma cluster_ok_live:
  assumes "cluster_ok nms s" and "sv_clusterInfo s = Some i"
  obtains n nw where "sv_network s = Some n" and "store_ok s" and "valid_net n s"
    and "running nms n s" and "published_ok i n s" and "i < length (sv_infos s)"
    and "ln_nw (net s n) = Some nw" and "nms nw \<subseteq> keys (net_map s n)"
proof -
  have st: "store_ok s" using assms(1) by (simp add: cluster_ok_def)
  then obtain n where n: "sv_network s = Some n"
    using assms(2) store_okD(4) by fastforce
  have r: "running nms n s" and p: "published_ok i n s"
    using assms n by (auto simp: cluster_ok_def)
  then obtain nw where "ln_nw (net s n) = Some nw" "nms nw \<subseteq> keys (net_map s n)"
    by (auto simp: running_def)
  then show thesis
    using that [OF n st store_okD(2) [OF st n] r p store_okD(3) [OF st assms(2)]] by blast
qed

section \<open>Waiting keeps the invariant\<close>

lemma store_ok_wait_frame:
  assumes "store_ok s" and "wait_frame n s s'" and "n < length (sv_nets s)"
  shows "store_ok s'"
proof -
  have sh: "same_shell s s'" and nf: "net_frame (net s n) (net s' n)"
    and mf: "map_frame (net_map s n) (net_map s' n)"
    and others: "\<And>k. k \<noteq> n \<Longrightarrow> net s' k = net s k"
    and maps: "\<And>m. m \<noteq> ln_nodeInfos (net s n) \<Longrightarrow> sv_maps s' ! m = sv_maps s ! m"
    using assms(2) by (auto simp: wait_frame_def)
  have valid: "valid_net k s \<Longrightarrow> valid_net k s'" for k
    using nf others [of k] sh by (cases "k = n") (auto simp: valid_net_def net_frame_def same_shell_def)
  have ref: "ln_nodeInfos (net s' k) = ln_nodeInfos (net s k)" for k
    using nf others [of k] by (cases "k = n") (auto simp: net_frame_def)
  have map: "gomap_ok (sv_maps s ! m) \<Longrightarrow> gomap_ok (sv_maps s' ! m)" for m
    using mf maps [of m] ref [of n]
    by (cases "m = ln_nodeInfos (net s n)") (auto simp: map_frame_def net_map_def)
  show ?thesis
    using assms(1) valid ref map sh unfolding store_ok_def same_shell_def by auto
qed

lemma map_frame_keys: "map_frame m m' \<Longrightarrow> keys m' = keys m"
  by (simp add: map_frame_def)

lemma gomap_same_keys:
  assumes "gomap_ok m" and "gomap_ok m'" and "keys m' = keys m"
  shows "mset (map fst m') = mset (map fst m)"
  using assms unfolding gomap_ok_def by (metis set_eq_iff_mset_eq_distinct set_map)

lemma running_wait_frame:
  assumes "running nms n s" and "wait_frame n s s'"
  shows "running nms n s'"
proof -
  have "keys (net_map s' n) = keys (net_map s n)"
    using assms(2) by (simp add: wait_frame_def map_frame_keys)
  then show ?thesis
    using assms by (simp add: running_def wait_frame_def net_frame_def)
qed

lemma published_wait_frame:
  assumes "published_ok i n s" and "wait_frame n s s'" and "store_ok s" and "valid_net n s"
  shows "published_ok i n s'"
proof -
  have ok: "gomap_ok (net_map s n)"
    using assms(3,4) by (simp add: store_ok_def valid_net_def net_map_def)
  have mf: "map_frame (net_map s n) (net_map s' n)"
    using assms(2) by (simp add: wait_frame_def)
  have "mset (map fst (net_map s' n)) = mset (map fst (net_map s n))"
    using ok mf by (intro gomap_same_keys) (auto simp: map_frame_def)
  then show ?thesis
    using assms(1,2) by (auto simp: published_ok_def wait_frame_def same_shell_def net_frame_def)
qed

lemma cluster_ok_wait_frame:
  assumes "cluster_ok nms s" and "sv_network s = Some n" and "wait_frame n s s'"
  shows "cluster_ok nms s'"
proof -
  have st: "store_ok s" using assms(1) by (simp add: cluster_ok_def)
  have valid: "valid_net n s" using store_okD(2) [OF st assms(2)] .
  have "store_ok s'"
    using st assms(3) valid_netD(1) [OF valid] by (rule store_ok_wait_frame)
  moreover have "sv_network s' = sv_network s" "sv_clusterInfo s' = sv_clusterInfo s"
    using assms(3) by (simp_all add: wait_frame_def same_shell_def)
  ultimately show ?thesis
    using assms running_wait_frame published_wait_frame [OF _ assms(3) st valid]
    by (auto simp: cluster_ok_def)
qed

section \<open>Changes of the network behind a reference\<close>

lemma store_ok_upd_net:
  assumes "store_ok s" and "\<And>l. ln_nodeInfos (f l) = ln_nodeInfos l"
    and "\<And>l. ln_ready (f l) = ln_ready l"
  shows "store_ok (upd_net n f s)"
proof -
  have "ln_nodeInfos (net (upd_net n f s) k) = ln_nodeInfos (net s k) \<and>
        ln_ready (net (upd_net n f s) k) = ln_ready (net s k)" for k
    using assms(2,3)
    by (cases "k = n"; cases "n < length (sv_nets s)") (auto simp: upd_net_def list_update_beyond)
  then show ?thesis
    using assms(1) by (auto simp: store_ok_def valid_net_def)
qed

lemma store_ok_upd_info:
  assumes "store_ok s" and "\<And>m. ci_NodeInfos (h (info_at s i)) = Some m \<Longrightarrow> m < length (sv_maps s)"
  shows "store_ok (upd_info i h s)"
proof -
  have "\<forall>x \<in> set (sv_infos (upd_info i h s)). \<forall>m. ci_NodeInfos x = Some m \<longrightarrow> m < length (sv_maps s)"
  proof
    fix x
    assume "x \<in> set (sv_infos (upd_info i h s))"
    then have "x = h (info_at s i) \<or> x \<in> set (sv_infos s)"
      unfolding upd_info_def using set_update_subset_insert by fastforce
    then show "\<forall>m. ci_NodeInfos x = Some m \<longrightarrow> m < length (sv_maps s)"
      using assms by (auto simp: store_ok_def)
  qed
  then show ?thesis
    using assms(1) by (simp add: store_ok_def valid_net_def)
qed

lemma store_ok_upd_map:
  assumes "store_ok s" and "\<And>m. gomap_ok m \<Longrightarrow> gomap_ok (g m)"
  shows "store_ok (upd_map k g s)"
proof -
  have "gomap_ok (sv_maps (upd_map k g s) ! m)" if "m < length (sv_maps s)" for m
    using assms that by (cases "m = k") (auto simp: store_ok_def)
  then show ?thesis
    using assms(1) by (simp add: store_ok_def valid_net_def)
qed

lemma net_map_upd_net:
  assumes "\<And>l. ln_nodeInfos (f l) = ln_nodeInfos l"
  shows "net_map (upd_net n f s) k = net_map s k"
  using assms
  by (cases "k = n"; cases "n < length (sv_nets s)")
     (auto simp: net_map_def upd_net_def list_update_beyond)

lemma net_map_upd_info [simp]: "net_map (upd_info i h s) k = net_map s k"
  by (simp add: net_map_def)

lemma net_map_upd_map:
  "valid_net n s \<Longrightarrow> net_map (upd_map (ln_nodeInfos (net s n)) g s) n = g (net_map s n)"
  by (simp add: net_map_def valid_net_def)

lemma valid_net_upd [simp]:
  "valid_net n (upd_info i h s) = valid_net n s"
  "valid_net n (upd_map m g s) = valid_net n s"
  by (simp_all add: valid_net_def)

lemma valid_net_upd_net:
  "valid_net n s \<Longrightarrow> (\<And>l. ln_nodeInfos (f l) = ln_nodeInfos l) \<Longrightarrow>
   (\<And>l. ln_ready (f l) = ln_ready l) \<Longrightarrow> valid_net n (upd_net k f s)"
  by (cases "k = n") (auto simp: valid_net_def)

end
