(* ===== verification/Cluster_Steps.thy ===== *)
theory Cluster_Steps
  imports Cluster_Inv
begin

text \<open>
  One lemma per handler: from a state that satisfies the invariant it is answered (it neither
  panics nor waits for ever), keeps the invariant, and changes the cluster as the abstract machine
  of a cluster does, which is down or up with a set of node names.
\<close>

section \<open>The abstract cluster\<close>

datatype cluster = Down | Up "string set"

definition abs_cluster :: "'nw server \<Rightarrow> cluster" where
  "abs_cluster s = (case sv_network s of None \<Rightarrow> Down | Some n \<Rightarrow> Up (keys (net_map s n)))"

lemma abs_cluster_live [simp]: "sv_network s = Some n \<Longrightarrow> abs_cluster s = Up (keys (net_map s n))"
  by (simp add: abs_cluster_def)

lemma abs_cluster_Down_iff: "abs_cluster s = Down \<longleftrightarrow> sv_network s = None"
  by (simp add: abs_cluster_def split: option.splits)

lemma abs_cluster_wait_frame:
  assumes "wait_frame n s s'" and "sv_network s = Some n"
  shows "abs_cluster s' = abs_cluster s"
proof -
  have "sv_network s' = Some n" and "keys (net_map s' n) = keys (net_map s n)"
    using assms by (simp_all add: wait_frame_def same_shell_def map_frame_keys)
  then show ?thesis using assms(2) by simp
qed

section \<open>Publishing\<close>

lemma refresh_names_simps [simp]:
  "sv_network (refresh_names c n s) = sv_network s"
  "sv_clusterInfo (refresh_names c n s) = sv_clusterInfo s"
  "sv_infos (refresh_names c n s) = sv_infos s"
  "sv_maps (refresh_names c n s) = sv_maps s"
  "length (sv_nets (refresh_names c n s)) = length (sv_nets s)"
  "net_map (refresh_names c n s) k = net_map s k"
  "valid_net n s \<Longrightarrow> net (refresh_names c n s) n =
     (net s n)\<lparr>ln_nodeNames := map fst (ce_infos c (net_map s n))\<rparr>"
  by (simp_all add: refresh_names_def net_map_upd_net valid_net_def)

lemma publish_nodes_simps [simp]:
  "sv_network (publish_nodes i n s) = sv_network s"
  "sv_clusterInfo (publish_nodes i n s) = sv_clusterInfo s"
  "sv_nets (publish_nodes i n s) = sv_nets s"
  "net_map (publish_nodes i n s) k = net_map s k"
  "i < length (sv_infos s) \<Longrightarrow> info_at (publish_nodes i n s) i =
     (info_at s i)\<lparr>ci_NodeNames := ln_nodeNames (net s n),
                   ci_NodeInfos := Some (ln_nodeInfos (net s n))\<rparr>"
  by (simp_all add: publish_nodes_def)

lemma store_ok_publish:
  assumes "store_ok s" and "valid_net n s"
  shows "store_ok (publish_nodes i n (refresh_names c n s))"
proof -
  have r: "store_ok (refresh_names c n s)"
    unfolding refresh_names_def using assms(1) by (rule store_ok_upd_net) simp_all
  have "ln_nodeInfos (net (refresh_names c n s) n) < length (sv_maps s)"
    using assms(2) by (simp add: valid_net_def)
  with r show ?thesis
    unfolding publish_nodes_def by (intro store_ok_upd_info) simp_all
qed

lemma publish_ok:
  assumes "store_ok s" and "sv_network s = Some n" and "sv_clusterInfo s = Some i"
    and "running nms n s" and "env_ok c"
    and "ci_Healthy (info_at s i) \<Longrightarrow> oc_closed (ln_ready (net s n))"
  shows "cluster_ok nms (publish_nodes i n (refresh_names c n s))"
proof -
  have valid: "valid_net n s" and i: "i < length (sv_infos s)"
    using assms(1-3) by (auto dest: store_okD)
  let ?s = "publish_nodes i n (refresh_names c n s)"
  have "mset (map fst (ce_infos c (net_map s n))) = mset (map fst (net_map s n))"
    using assms(5) by (simp add: env_ok_def visit_mset)
  then have "published_ok i n ?s"
    using assms(6) valid i by (simp add: published_ok_def)
  moreover have "running nms n ?s"
    using assms(4) valid by (simp add: running_def)
  ultimately show ?thesis
    using assms(2,3) store_ok_publish [OF assms(1) valid] by (simp add: cluster_ok_def)
qed

section \<open>Waiting\<close>

text \<open>Waiting is answered and keeps everything that holds before it.\<close>

lemma wait_ok:
  assumes "cluster_ok nms s" and "network_laws E nms" and "env_ok c" and "sv_network s = Some n"
    and "waitForHealthy E c n s = (r, s')"
  shows "answered r" and "cluster_ok nms s'" and "sv_network s' = Some n"
    and "sv_clusterInfo s' = sv_clusterInfo s" and "abs_cluster s' = abs_cluster s"
    and "wait_frame n s s'"
proof -
  obtain i where "sv_clusterInfo s = Some i"
    using assms(1,4) by (cases "sv_clusterInfo s") (auto simp: cluster_ok_def store_ok_def)
  then obtain nw where n: "valid_net n s" "ln_nw (net s n) = Some nw" "nms nw \<subseteq> keys (net_map s n)"
    using cluster_ok_live [OF assms(1)] assms(4) by (metis option.inject)
  show fr: "wait_frame n s s'" using n(1) assms(5) by (rule waitForHealthy_frame)
  show "answered r"
    using waitForHealthy_answered [OF n(1) _ n(2), of c E] n(3) network_lawsD(2) [OF assms(2)] assms(3,5)
    by (auto simp: env_ok_def)
  show "cluster_ok nms s'" using assms(1,4) fr by (rule cluster_ok_wait_frame)
  show "sv_network s' = Some n" and "sv_clusterInfo s' = sv_clusterInfo s"
    using fr assms(4) by (simp_all add: wait_frame_def same_shell_def)
  show "abs_cluster s' = abs_cluster s" using fr assms(4) by (rule abs_cluster_wait_frame)
qed

section \<open>\<open>Health\<close>\<close>

lemma health_locked_ok:
  assumes "cluster_ok nms s" and "sv_network s = Some n" and "env_ok c"
  shows "\<exists>i s'. health_locked c s = (Ret (Some i), s') \<and> cluster_ok nms s' \<and>
           abs_cluster s' = abs_cluster s \<and> sv_clusterInfo s = Some i \<and>
           ci_NodeNames (info_at s' i) = map fst (ce_infos c (net_map s n)) \<and>
           ci_NodeInfos (info_at s' i) = Some (ln_nodeInfos (net s n)) \<and>
           ci_Healthy (info_at s' i) = ci_Healthy (info_at s i) \<and>
           sv_maps s' = sv_maps s"
proof -
  obtain i where i: "sv_clusterInfo s = Some i"
    using assms(1,2) by (cases "sv_clusterInfo s") (auto simp: cluster_ok_def store_ok_def)
  then obtain n' where n': "sv_network s = Some n'" "store_ok s" "valid_net n' s"
      "running nms n' s" "published_ok i n' s" "i < length (sv_infos s)"
    using cluster_ok_live [OF assms(1) i] by metis
  with assms(2) have [simp]: "n' = n" by simp
  have healthy: "ci_Healthy (info_at s i) \<Longrightarrow> oc_closed (ln_ready (net s n))"
    using n'(5) by (simp add: published_ok_def)
  show ?thesis
    using publish_ok [OF n'(2) assms(2) i _ assms(3) healthy] n' i
    by (simp add: health_locked_def abs_cluster_def publish_nodes_def)
qed

lemma Health_ok:
  assumes "cluster_ok nms s" and "network_laws E nms" and "env_ok c"
    and "abs_cluster s = Up S" and "Health E c s = (r, s')"
  shows "answered r" and "cluster_ok nms s'" and "abs_cluster s' = Up S"
    and "r = Ret j \<Longrightarrow> \<exists>i. j = Some i \<and> sv_clusterInfo s' = Some i \<and>
           set (ci_NodeNames (info_at s' i)) = S"
proof -
  obtain n where n: "sv_network s = Some n" and S: "S = keys (net_map s n)"
    using assms(4) by (auto simp: abs_cluster_def split: option.splits)
  then obtain i where i: "sv_clusterInfo s = Some i"
    using assms(1) by (cases "sv_clusterInfo s") (auto simp: cluster_ok_def store_ok_def)
  obtain r1 s1 where w: "waitForHealthy E c n s = (r1, s1)" by (cases "waitForHealthy E c n s")
  note wait = wait_ok [OF assms(1-3) n w]
  obtain k s2 where h: "health_locked c s1 = (Ret (Some k), s2)" "cluster_ok nms s2"
      "abs_cluster s2 = abs_cluster s1" "sv_clusterInfo s1 = Some k"
      "ci_NodeNames (info_at s2 k) = map fst (ce_infos c (net_map s1 n))"
    using health_locked_ok [OF wait(2) wait(3) assms(3)] by blast
  have k: "sv_clusterInfo s2 = Some k"
    using h(1) by (auto simp: health_locked_def Let_def split: option.splits)
  have S1: "keys (net_map s1 n) = S"
    using wait(3,5) assms(4) by simp
  have eq: "(r, s') = and_then (r1, s1) (\<lambda>_ s1. health_locked c s1)"
    using assms(5) i n w by (simp add: Health_def health_enter_def getClusterInfo_def)
  then show "answered r" and "cluster_ok nms s'" and "abs_cluster s' = Up S"
    using wait h assms(4) by (cases r1; simp)+
  show "\<exists>i. j = Some i \<and> sv_clusterInfo s' = Some i \<and> set (ci_NodeNames (info_at s' i)) = S"
    if "r = Ret j"
    using eq that h(1,5) k S1 assms(3) by (cases r1) (simp_all add: env_ok_def)
qed

section \<open>\<open>RemoveNode\<close>\<close>

abbreviation set_nw :: "nat \<Rightarrow> 'nw \<Rightarrow> 'nw server \<Rightarrow> 'nw server" where
  "set_nw n nw \<equiv> upd_net n (\<lambda>l. l\<lparr>ln_nw := Some nw\<rparr>)"

lemma set_nw_simps [simp]:
  "net_map (set_nw n nw s) k = net_map s k"
  "valid_net n s \<Longrightarrow> net (set_nw n nw s) n = (net s n)\<lparr>ln_nw := Some nw\<rparr>"
  "valid_net n s \<Longrightarrow> valid_net n (set_nw n nw s)"
  "abs_cluster (set_nw n nw s) = abs_cluster s"
  by (simp_all add: net_map_upd_net valid_net_def abs_cluster_def split: option.splits)

lemma set_nw_ok:
  assumes "cluster_ok nms s" and "sv_network s = Some n" and "nms nw \<subseteq> keys (net_map s n)"
  shows "cluster_ok nms (set_nw n nw s)"
proof -
  have st: "store_ok s" using assms(1) by (simp add: cluster_ok_def)
  then have valid: "valid_net n s" using assms(2) by (rule store_okD(2))
  have "store_ok (set_nw n nw s)" using st by (rule store_ok_upd_net) simp_all
  then show ?thesis
    using assms valid by (simp add: cluster_ok_def running_def published_ok_def)
qed

lemma remove_locked_ok:
  assumes "cluster_ok nms s" and "network_laws E nms" and "env_ok c"
    and "sv_clusterInfo s = Some i" and "sv_network s = Some n"
    and "remove_locked E c name s = (r, s')"
  shows "answered r" and "cluster_ok nms s'" and "sv_network s' = Some n"
    and "sv_clusterInfo s' = Some i"
    and "name \<notin> keys (net_map s n) \<Longrightarrow> r = Fail ErrNodeNotFound \<and> s' = s"
    and "r = Ret k \<Longrightarrow> k = n \<and> abs_cluster s' = Up (keys (net_map s n) - {name})"
    and "\<And>e. r = Fail e \<Longrightarrow> abs_cluster s' = abs_cluster s"
    and "r = Ret k \<Longrightarrow> set (ci_NodeNames (info_at s' i)) = keys (net_map s n) - {name}"
proof -
  obtain nw where live: "store_ok s" "valid_net n s" "running nms n s" "published_ok i n s"
      "ln_nw (net s n) = Some nw" "nms nw \<subseteq> keys (net_map s n)"
    using cluster_ok_live [OF assms(1,4)] assms(5) by (metis option.inject)
  show unknown: "r = Fail ErrNodeNotFound \<and> s' = s" if "name \<notin> keys (net_map s n)"
    using that assms(5,6) by (simp add: remove_locked_def map_of_eq_None_iff [THEN iffD2])
  have "answered r \<and> cluster_ok nms s' \<and> sv_network s' = Some n \<and> sv_clusterInfo s' = Some i \<and>
        (r = Ret k \<longrightarrow> k = n \<and> abs_cluster s' = Up (keys (net_map s n) - {name})) \<and>
        (\<forall>e. r = Fail e \<longrightarrow> abs_cluster s' = abs_cluster s) \<and>
        (r = Ret k \<longrightarrow> set (ci_NodeNames (info_at s' i)) = keys (net_map s n) - {name})"
  proof (cases "name \<in> keys (net_map s n)")
    case False
    then show ?thesis using unknown assms(1,4,5) by simp
  next
    case True
    then obtain ni where ni: "map_of (net_map s n) name = Some ni"
      using map_of_keys_Some by fastforce
    obtain err nw' where rem: "x_RemoveNode E name nw = (err, nw')" by (cases "x_RemoveNode E name nw")
    show ?thesis
    proof (cases err)
      case (Some e)
      then have "nms nw' \<subseteq> keys (net_map s n)"
        using network_lawsD(4) [OF assms(2)] rem live(6) by blast
      moreover have "r = Fail e" "s' = set_nw n nw' s"
        using assms(5,6) ni live(5) rem Some by (auto simp: remove_locked_def)
      ultimately show ?thesis using set_nw_ok [OF assms(1,5)] assms(4,5) by simp
    next
      case None
      define s2 where "s2 = upd_map (ln_nodeInfos (net s n)) (AList.delete name) (set_nw n nw' s)"
      have res: "r = Ret n" "s' = publish_nodes i n (refresh_names c n s2)"
        using assms(4,5,6) ni live(2,5) rem None by (auto simp: remove_locked_def s2_def Let_def)
      have nw': "nms nw' = nms nw - {name}"
        using network_lawsD(3) [OF assms(2)] rem None by simp
      have map2: "net_map s2 n = AList.delete name (net_map s n)"
        using live(2) net_map_upd_map [of n "set_nw n nw' s"] by (simp add: s2_def)
      have valid2: "valid_net n s2" and net2: "net s2 n = (net s n)\<lparr>ln_nw := Some nw'\<rparr>"
        using live(2) by (simp_all add: s2_def)
      have "store_ok (set_nw n nw' s)" using live(1) by (rule store_ok_upd_net) simp_all
      then have st2: "store_ok s2" unfolding s2_def by (rule store_ok_upd_map) simp
      have run2: "running nms n s2"
        using live(3,6) nw' map2 net2 unfolding running_def by auto
      have i2: "info_at s2 i = info_at s i" by (simp add: s2_def)
      have "cluster_ok nms s'"
        unfolding res(2)
        using st2 _ _ run2 assms(3)
        by (rule publish_ok) (use assms(4,5) live(4) net2 i2 in \<open>auto simp: s2_def published_ok_def\<close>)
      moreover have "abs_cluster s' = Up (keys (net_map s n) - {name})"
        using assms(5) map2 by (simp add: res(2) s2_def)
      moreover have "sv_network s' = Some n" "sv_clusterInfo s' = Some i"
        using assms(4,5) by (simp_all add: res(2) s2_def)
      moreover have "set (ci_NodeNames (info_at s' i)) = keys (net_map s n) - {name}"
        using map2 valid2 store_okD(3) [OF st2] assms(3,4) by (simp add: res(2) s2_def env_ok_def)
      ultimately show ?thesis using res(1) by auto
    qed
  qed
  then show "answered r" and "cluster_ok nms s'" and "sv_network s' = Some n"
    and "sv_clusterInfo s' = Some i"
    and "r = Ret k \<Longrightarrow> k = n \<and> abs_cluster s' = Up (keys (net_map s n) - {name})"
    and "\<And>e. r = Fail e \<Longrightarrow> abs_cluster s' = abs_cluster s"
    and "r = Ret k \<Longrightarrow> set (ci_NodeNames (info_at s' i)) = keys (net_map s n) - {name}"
    by blast+
qed

lemma RemoveNode_ok:
  assumes "cluster_ok nms s" and "network_laws E nms" and "env_ok c"
    and "abs_cluster s = Up S" and "RemoveNode E c req s = (r, s')"
  shows "answered r" and "cluster_ok nms s'"
    and "rm_Name req \<notin> S \<Longrightarrow> r = Fail ErrNodeNotFound \<and> s' = s"
    and "r = Ret j \<Longrightarrow> abs_cluster s' = Up (S - {rm_Name req})"
    and "abs_cluster s' = Up S \<or> abs_cluster s' = Up (S - {rm_Name req})"
    and "r = Ret j \<Longrightarrow> \<exists>i. j = Some i \<and> sv_clusterInfo s' = Some i \<and>
           set (ci_NodeNames (info_at s' i)) = S - {rm_Name req}"
proof -
  obtain n where n: "sv_network s = Some n" and S: "S = keys (net_map s n)"
    using assms(4) by (auto simp: abs_cluster_def split: option.splits)
  then obtain i where i: "sv_clusterInfo s = Some i"
    using assms(1) by (cases "sv_clusterInfo s") (auto simp: cluster_ok_def store_ok_def)
  obtain r1 s1 where l: "remove_locked E c (rm_Name req) s = (r1, s1)"
    by (cases "remove_locked E c (rm_Name req) s")
  note locked = remove_locked_ok [OF assms(1-3) i n l]
  have eq: "(r, s') = and_then (r1, s1) (\<lambda>n s1. and_then (waitForHealthy E c n s1)
              (\<lambda>_ s2. (Ret (sv_clusterInfo s2), s2)))"
    using assms(5) i l by (simp add: RemoveNode_def getClusterInfo_def)
  show "r = Fail ErrNodeNotFound \<and> s' = s" if "rm_Name req \<notin> S"
    using locked(5) eq that S by simp
  have "answered r \<and> cluster_ok nms s' \<and> (r = Ret j \<longrightarrow> abs_cluster s' = Up (S - {rm_Name req})) \<and>
        (abs_cluster s' = Up S \<or> abs_cluster s' = Up (S - {rm_Name req})) \<and>
        (r = Ret j \<longrightarrow> (\<exists>i. j = Some i \<and> sv_clusterInfo s' = Some i \<and>
           set (ci_NodeNames (info_at s' i)) = S - {rm_Name req}))"
  proof (cases r1)
    case (Ret k)
    then have k: "k = n" and abs1: "abs_cluster s1 = Up (S - {rm_Name req})"
      using locked(6) S by auto
    obtain r2 s2 where w: "waitForHealthy E c n s1 = (r2, s2)" by (cases "waitForHealthy E c n s1")
    note wait = wait_ok [OF locked(2) assms(2,3) locked(3) w]
    have "set (ci_NodeNames (info_at s2 i)) = S - {rm_Name req}"
      using locked(8) [OF Ret] wait(6) S by (simp add: wait_frame_def same_shell_def)
    then show ?thesis using eq Ret k w wait abs1 locked(4) by (cases r2) auto
  next
    case (Fail e)
    then show ?thesis using locked(2) locked(7) eq assms(4) by simp
  qed (use locked(1) in auto)
  then show "answered r" and "cluster_ok nms s'"
    and "r = Ret j \<Longrightarrow> abs_cluster s' = Up (S - {rm_Name req})"
    and "abs_cluster s' = Up S \<or> abs_cluster s' = Up (S - {rm_Name req})"
    and "r = Ret j \<Longrightarrow> \<exists>i. j = Some i \<and> sv_clusterInfo s' = Some i \<and>
           set (ci_NodeNames (info_at s' i)) = S - {rm_Name req}" by blast+
qed

section \<open>\<open>RestartNode\<close>\<close>

lemma set_entry_map_of:
  "map_of (set_entry x f m) y = (if y = x then map_option f (map_of m y) else map_of m y)"
  by (auto simp: set_entry_def update_conv' split: option.splits)

lemma set_entry_keys [simp]: "keys (set_entry x f m) = keys m"
  by (auto simp: set_entry_def insert_absorb dest: map_of_in_keys split: option.splits)

lemma set_entry_ok [simp]: "gomap_ok m \<Longrightarrow> gomap_ok (set_entry x f m)"
  by (simp add: set_entry_def split: option.splits)

lemma find_config_Some:
  "find_config x k cfgs = Some (idx, cfg) \<Longrightarrow>
   k \<le> idx \<and> idx < k + length cfgs \<and> cfgs ! (idx - k) = cfg \<and> nc_Name cfg = x"
proof (induction cfgs arbitrary: k)
  case Nil
  then show ?case by simp
next
  case (Cons a cfgs)
  show ?case
  proof (cases "nc_Name a = x")
    case True
    with Cons.prems show ?thesis by simp
  next
    case False
    with Cons.prems have "find_config x (k + 1) cfgs = Some (idx, cfg)" by simp
    from Cons.IH [OF this] show ?thesis by (auto simp: nth_Cons')
  qed
qed

lemma find_config_None_iff: "find_config x k cfgs = None \<longleftrightarrow> x \<notin> nc_Name ` set cfgs"
  by (induction cfgs arbitrary: k) auto

lemma upd_map_ok:
  assumes "cluster_ok nms s" and "sv_network s = Some n"
    and "\<And>m. keys (g m) = keys m" and "\<And>m. gomap_ok m \<Longrightarrow> gomap_ok (g m)"
  shows "cluster_ok nms (upd_map (ln_nodeInfos (net s n)) g s)"
    and "abs_cluster (upd_map (ln_nodeInfos (net s n)) g s) = abs_cluster s"
proof -
  let ?s = "upd_map (ln_nodeInfos (net s n)) g s"
  have st: "store_ok s" using assms(1) by (simp add: cluster_ok_def)
  then have valid: "valid_net n s" using assms(2) by (rule store_okD(2))
  have map: "net_map ?s n = g (net_map s n)" using valid by (rule net_map_upd_map)
  have ok: "gomap_ok (net_map s n)" using st valid by (simp add: store_ok_def valid_net_def net_map_def)
  have "mset (map fst (g (net_map s n))) = mset (map fst (net_map s n))"
    using ok assms(3,4) by (intro gomap_same_keys) auto
  moreover have "store_ok ?s" using st assms(4) by (rule store_ok_upd_map)
  ultimately show "cluster_ok nms ?s"
    using assms(1,2,3) map by (auto simp: cluster_ok_def running_def published_ok_def)
  show "abs_cluster ?s = abs_cluster s" using assms(2,3) map by simp
qed

text \<open>The in-place change of the entry: it stays a cluster with the same nodes, whatever the result.\<close>

lemma restart_update_ok:
  assumes "cluster_ok nms s" and "sv_network s = Some n" and "rr_Name req \<in> keys (net_map s n)"
    and "rr_StartRequest req = Some sr" and "sr_WhitelistedSubnets sr = Some ws"
  shows "\<exists>ni s'. restart_update req n s = (Ret ni, s') \<and> cluster_ok nms s' \<and>
           abs_cluster s' = abs_cluster s \<and> sv_network s' = Some n \<and>
           sv_clusterInfo s' = sv_clusterInfo s \<and> sv_nets s' = sv_nets s \<and>
           keys (net_map s' n) = keys (net_map s n)"
proof -
  let ?m = "ln_nodeInfos (net s n)"
  let ?s1 = "upd_map ?m (set_entry (rr_Name req) (\<lambda>ni. ni\<lparr>ni_ExecPath := sr_ExecPath sr\<rparr>)) s"
  let ?s2 = "upd_map ?m (set_entry (rr_Name req) (\<lambda>ni. ni\<lparr>ni_WhitelistedSubnets := ws\<rparr>)) ?s1"
  have valid: "valid_net n s" using assms(1,2) by (auto simp: cluster_ok_def dest: store_okD(2))
  have s1: "cluster_ok nms ?s1" "abs_cluster ?s1 = abs_cluster s"
    by (rule upd_map_ok [OF assms(1,2)]; simp)+
  have net1: "sv_network ?s1 = Some n" "net ?s1 n = net s n" using assms(2) by simp_all
  have s2: "cluster_ok nms ?s2" "abs_cluster ?s2 = abs_cluster s"
    using upd_map_ok [OF s1(1) net1(1),
        where g = "set_entry (rr_Name req) (\<lambda>ni. ni\<lparr>ni_WhitelistedSubnets := ws\<rparr>)"] s1(2) net1(2)
    by (simp_all only: set_entry_keys set_entry_ok simp_thms)
  have map2: "net_map ?s2 n = set_entry (rr_Name req) (\<lambda>ni. ni\<lparr>ni_WhitelistedSubnets := ws\<rparr>)
      (set_entry (rr_Name req) (\<lambda>ni. ni\<lparr>ni_ExecPath := sr_ExecPath sr\<rparr>) (net_map s n))"
    using valid net_map_upd_map [of n ?s1] net_map_upd_map [of n s] by simp
  obtain ni where "map_of (net_map s n) (rr_Name req) = Some ni"
    using assms(3) map_of_keys_Some by fastforce
  then obtain ni' where "map_of (net_map ?s2 n) (rr_Name req) = Some ni'"
    by (simp add: map2 set_entry_map_of)
  then have "restart_update req n s = (Ret ni', ?s2)"
    using assms(4,5) by (simp add: restart_update_def Let_def)
  then show ?thesis using s2 assms(2) map2 by auto
qed

lemma restart_swap_ok:
  assumes "cluster_ok nms s" and "network_laws E nms" and "sv_network s = Some n"
    and "nc_Name cfg = name" and "name \<in> keys (net_map s n)"
    and "restart_swap E name n cfg s = (r, s')"
  shows "answered r \<and> (\<exists>nw. s' = set_nw n nw s \<and> cluster_ok nms s')"
proof -
  obtain i where "sv_clusterInfo s = Some i"
    using assms(1,3) by (cases "sv_clusterInfo s") (auto simp: cluster_ok_def store_ok_def)
  then obtain nw where nw: "ln_nw (net s n) = Some nw" "nms nw \<subseteq> keys (net_map s n)"
    using cluster_ok_live [OF assms(1)] assms(3) by (metis option.inject)
  obtain e1 nw1 where rem: "x_RemoveNode E name nw = (e1, nw1)" by (cases "x_RemoveNode E name nw")
  obtain e2 nw2 where add: "x_AddNode E cfg nw1 = (e2, nw2)" by (cases "x_AddNode E cfg nw1")
  have "nms nw1 \<subseteq> nms nw"
    using rem network_lawsD(3) [OF assms(2), of name nw nw1] network_lawsD(4) [OF assms(2), of name nw _ nw1]
    by (cases e1) auto
  then have sub1: "nms nw1 \<subseteq> keys (net_map s n)" using nw(2) by (rule order_trans)
  have "nms nw2 \<subseteq> insert name (nms nw1)"
    using add assms(4) network_lawsD(5) [OF assms(2), of cfg nw1 nw2]
      network_lawsD(6) [OF assms(2), of cfg nw1 _ nw2]
    by (cases e2) auto
  then have sub2: "nms nw2 \<subseteq> keys (net_map s n)" using sub1 assms(5) by blast
  show ?thesis
    using assms(6) nw(1) rem add set_nw_ok [OF assms(1,3) sub1] set_nw_ok [OF assms(1,3) sub2]
    by (auto simp: restart_swap_def split: option.splits)
qed

end
