(* ===== verification/Cluster_Life.thy ===== *)
theory Cluster_Life
  imports Cluster_Steps
begin

text \<open>
  The remaining handlers from a state that satisfies the invariant: \<open>RestartNode\<close>, \<open>Stop\<close>, and
  \<open>Start\<close> with the goroutine it begins.
\<close>

section \<open>\<open>RestartNode\<close>\<close>

lemma restart_finish_ok:
  assumes "cluster_ok nms s" and "sv_network s = Some n" and "idx < length (ln_cfg (net s n))"
    and "nc_Name cfg = nc_Name (ln_cfg (net s n) ! idx)" and "nc_Impl cfg = ImplLocal l"
  shows "\<exists>i s'. restart_finish idx cfg s = (Ret (Some i), s') \<and> cluster_ok nms s' \<and>
           abs_cluster s' = abs_cluster s \<and> sv_clusterInfo s = Some i \<and>
           ln_cfg (net s' n) = (ln_cfg (net s n))[idx := cfg]"
proof -
  obtain i where i: "sv_clusterInfo s = Some i"
    using assms(1,2) by (cases "sv_clusterInfo s") (auto simp: cluster_ok_def store_ok_def)
  then have live: "store_ok s" "valid_net n s" "running nms n s" "published_ok i n s"
      "i < length (sv_infos s)"
    using cluster_ok_live [OF assms(1) i] assms(2) by (metis option.inject)+
  let ?f = "\<lambda>l. l\<lparr>ln_cfg := (ln_cfg l)[idx := cfg]\<rparr>"
  let ?s1 = "upd_net n ?f s"
  let ?s2 = "upd_info i (\<lambda>x. x\<lparr>ci_NodeInfos := Some (ln_nodeInfos (net s n))\<rparr>) ?s1"
  have net1: "net ?s1 n = ?f (net s n)" using live(2) by (simp add: valid_net_def)
  have "map nc_Name ((ln_cfg (net s n))[idx := cfg]) = map nc_Name (ln_cfg (net s n))"
    using assms(3,4) by (simp add: map_update list_update_same_conv)
  then have names: "nc_Name ` set ((ln_cfg (net s n))[idx := cfg]) = nc_Name ` set (ln_cfg (net s n))"
    by (metis list.set_map)
  have impl: "\<exists>l. nc_Impl c = ImplLocal l" if "c \<in> set ((ln_cfg (net s n))[idx := cfg])" for c
    using that live(3) assms(5) set_update_subset_insert [of "ln_cfg (net s n)" idx cfg]
    by (auto simp: running_def)
  have "store_ok ?s1" using live(1) by (rule store_ok_upd_net) simp_all
  then have "store_ok ?s2"
    by (rule store_ok_upd_info) (use live(2) in \<open>simp add: valid_net_def\<close>)
  moreover have "running nms n ?s2"
    using live(3) impl by (simp add: running_def net1 names net_map_upd_net)
  moreover have "published_ok i n ?s2"
    using live(4,5) by (auto simp: published_ok_def net1 net_map_upd_net)
  ultimately have "cluster_ok nms ?s2"
    using i assms(2) by (simp add: cluster_ok_def)
  moreover have "restart_finish idx cfg s = (Ret (Some i), ?s2)"
    using i assms(2) net1 by (simp add: restart_finish_def Let_def)
  ultimately show ?thesis
    using i assms(2) net1 by (simp add: net_map_upd_net)
qed

lemma restart_find_cases:
  assumes "sv_network s = Some n" and "restart_find x s = r"
    and "keys (net_map s n) \<subseteq> nc_Name ` set (ln_cfg (net s n))"
  obtains (unknown) "x \<notin> keys (net_map s n)" "r = Fail ErrNodeNotFound"
    | (found) idx old where "x \<in> keys (net_map s n)" "r = Ret (n, idx, old)"
        "idx < length (ln_cfg (net s n))" "ln_cfg (net s n) ! idx = old" "nc_Name old = x"
proof (cases "x \<in> keys (net_map s n)")
  case False
  then show thesis
    using unknown assms(1,2) by (simp add: restart_find_def map_of_eq_None_iff [THEN iffD2])
next
  case True
  then obtain ni where ni: "map_of (net_map s n) x = Some ni"
    using map_of_keys_Some by fastforce
  from True assms(3) have "find_config x 0 (ln_cfg (net s n)) \<noteq> None"
    by (auto simp: find_config_None_iff)
  then obtain idx old where f: "find_config x 0 (ln_cfg (net s n)) = Some (idx, old)" by auto
  then show thesis
    using found [of idx old] True find_config_Some [OF f] assms(1,2) ni
    by (simp add: restart_find_def)
qed

lemma RestartNode_ok:
  assumes "cluster_ok nms s" and "network_laws E nms" and "env_ok c"
    and "abs_cluster s = Up S" and "RestartNode E c req s = (r, s')"
    and "rr_StartRequest req = Some sr" and "sr_WhitelistedSubnets sr = Some ws"
  shows "answered r" and "cluster_ok nms s'" and "abs_cluster s' = Up S"
    and "rr_Name req \<notin> S \<Longrightarrow> r = Fail ErrNodeNotFound \<and> s' = s"
proof -
  obtain n where n: "sv_network s = Some n" and S: "S = keys (net_map s n)"
    using assms(4) by (auto simp: abs_cluster_def split: option.splits)
  then obtain i where i: "sv_clusterInfo s = Some i"
    using assms(1) by (cases "sv_clusterInfo s") (auto simp: cluster_ok_def store_ok_def)
  have live: "valid_net n s" "running nms n s"
    using cluster_ok_live [OF assms(1) i] n by (metis option.inject)+
  then have cfg: "keys (net_map s n) \<subseteq> nc_Name ` set (ln_cfg (net s n))"
    and impls: "\<And>c. c \<in> set (ln_cfg (net s n)) \<Longrightarrow> \<exists>l. nc_Impl c = ImplLocal l"
    by (auto simp: running_def)
  have eq: "(r, s') = and_then (restart_locked E req s) (\<lambda>(n, idx, nodeConfig) s1.
       and_then (waitForHealthy E c n s1) (\<lambda>_ s2. restart_finish idx nodeConfig s2))"
    using assms(5) i by (simp add: RestartNode_def getClusterInfo_def)
  from n refl cfg
  have "answered r \<and> cluster_ok nms s' \<and> abs_cluster s' = Up S \<and>
        (rr_Name req \<notin> S \<longrightarrow> r = Fail ErrNodeNotFound \<and> s' = s)"
  proof (cases rule: restart_find_cases [where x = "rr_Name req"])
    case unknown
    then show ?thesis using eq assms(1,4) S by (simp add: restart_locked_def)
  next
    case (found idx old)
    obtain ni s1 where u: "restart_update req n s = (Ret ni, s1)" "cluster_ok nms s1"
        "abs_cluster s1 = abs_cluster s" "sv_network s1 = Some n" "sv_nets s1 = sv_nets s"
        "keys (net_map s1 n) = keys (net_map s n)"
      using restart_update_ok [OF assms(1) n found(1) assms(6,7)] by auto
    have "old \<in> set (ln_cfg (net s n))" using found(3,4) nth_mem by blast
    then obtain l where l: "nc_Impl old = ImplLocal l" using impls by blast
    then obtain new l' where new: "restart_config ni old = Ret new" "nc_Name new = nc_Name old"
        "nc_Impl new = ImplLocal l'"
      by (simp add: restart_config_def Let_def)
    obtain r2 s2 where sw: "restart_swap E (rr_Name req) n new s1 = (r2, s2)"
      by (cases "restart_swap E (rr_Name req) n new s1")
    have swap: "answered r2 \<and> (\<exists>nw. s2 = set_nw n nw s1 \<and> cluster_ok nms s2)"
      using restart_swap_ok [OF u(2) assms(2) u(4) _ _ sw] new(2) found(1,5) u(6) by simp
    have valid1: "valid_net n s1" using u(2,4) by (auto simp: cluster_ok_def dest: store_okD(2))
    have s2: "sv_network s2 = Some n" "abs_cluster s2 = Up S" "ln_cfg (net s2 n) = ln_cfg (net s n)"
      using swap u(3,4,5) assms(4) valid1 by auto
    show ?thesis
    proof (cases r2)
      case (Ret u2)
      obtain r3 s3 where w: "waitForHealthy E c n s2 = (r3, s3)" by (cases "waitForHealthy E c n s2")
      have ok2: "cluster_ok nms s2" using swap by blast
      note wait = wait_ok [OF ok2 assms(2,3) s2(1) w]
      have cfg3: "ln_cfg (net s3 n) = ln_cfg (net s n)"
        using wait(6) s2(3) by (simp add: wait_frame_def net_frame_def)
      obtain j s4 where fin: "restart_finish idx new s3 = (Ret (Some j), s4)" "cluster_ok nms s4"
          "abs_cluster s4 = abs_cluster s3"
        using restart_finish_ok [OF wait(2,3), of idx new l'] cfg3 found(3,4) new(2,3) by auto
      show ?thesis
        using eq found(1,2) u(1) new(1) sw Ret w wait(1,2,5) fin s2(2) S
        by (cases r3) (auto simp: restart_locked_def)
    next
      case (Fail e)
      then show ?thesis
        using eq found(1,2) u(1) new(1) sw swap s2(2) S by (auto simp: restart_locked_def)
    qed (use swap in auto)
  qed
  then show "answered r" and "cluster_ok nms s'" and "abs_cluster s' = Up S"
    and "rr_Name req \<notin> S \<Longrightarrow> r = Fail ErrNodeNotFound \<and> s' = s" by blast+
qed

section \<open>\<open>Stop\<close>\<close>

lemma stop_begin_running:
  assumes "valid_net n s" and "running nms n s"
  shows "\<exists>nw. stop_begin E n s =
    (Ret (), upd_net n (\<lambda>l. l\<lparr>ln_nw := Some nw, ln_stopOnce := True\<rparr>)
               (upd_net n (\<lambda>l. l\<lparr>ln_stopc := True\<rparr>) s))"
  using assms by (auto simp: stop_begin_def running_def valid_net_def Let_def)

lemma Stop_ok:
  assumes "cluster_ok nms s" and "abs_cluster s = Up S" and "Stop E s = (r, s')"
  shows "\<exists>i n. r = Ret i \<and> sv_clusterInfo s = Some i \<and> sv_network s = Some n \<and>
           cluster_ok nms s' \<and> abs_cluster s' = Down \<and> sv_closed s' = sv_closed s \<and>
           info_at s' i = (info_at s i)\<lparr>ci_Healthy := False\<rparr> \<and> ln_stopc (net s' n)"
proof -
  obtain n where n: "sv_network s = Some n"
    using assms(2) by (auto simp: abs_cluster_def split: option.splits)
  then obtain i where i: "sv_clusterInfo s = Some i"
    using assms(1) by (cases "sv_clusterInfo s") (auto simp: cluster_ok_def store_ok_def)
  have live: "store_ok s" "valid_net n s" "running nms n s" "i < length (sv_infos s)"
    using cluster_ok_live [OF assms(1) i] n by (metis option.inject)+
  obtain nw where b: "stop_begin E n s =
      (Ret (), upd_net n (\<lambda>l. l\<lparr>ln_nw := Some nw, ln_stopOnce := True\<rparr>)
               (upd_net n (\<lambda>l. l\<lparr>ln_stopc := True\<rparr>) s))" (is "_ = (Ret (), ?s1)")
    using stop_begin_running [OF live(2,3)] by blast
  have donec: "ln_donec (net ?s1 n)"
    using live(2,3) by (simp add: running_def valid_net_def)
  have "store_ok (upd_net n (\<lambda>l. l\<lparr>ln_stopc := True\<rparr>) s)"
    using live(1) by (rule store_ok_upd_net) simp_all
  then have "store_ok ?s1" by (rule store_ok_upd_net) simp_all
  then have "store_ok (upd_info i (\<lambda>x. x\<lparr>ci_Healthy := False\<rparr>) ?s1)"
    by (rule store_ok_upd_info) (use live(1,4) nth_mem in \<open>force simp: store_ok_def\<close>)
  then have "cluster_ok nms (snd (stop_finish i ?s1))"
    by (auto simp: stop_finish_def cluster_ok_def store_ok_def valid_net_def upd_info_def)
  moreover have "(r, s') = stop_finish i ?s1"
    using assms(3) i n b donec by (simp add: Stop_def getClusterInfo_def stop_locked_def)
  moreover have "ln_stopc (net ?s1 n)" using live(2) by (simp add: valid_net_def)
  ultimately show ?thesis
    using i n live(4) by (auto simp: stop_finish_def abs_cluster_def upd_info_def)
qed

section \<open>\<open>Start\<close> and its goroutine\<close>

text \<open>A network as \<open>newNetwork\<close> leaves it: nothing runs yet.\<close>

definition fresh :: "nat \<Rightarrow> 'nw server \<Rightarrow> bool" where
  "fresh n s \<longleftrightarrow>
     valid_net n s \<and> ln_nw (net s n) = None \<and>
     keys (net_map s n) = nc_Name ` set (ln_cfg (net s n)) \<and>
     (\<forall>cfg \<in> set (ln_cfg (net s n)). \<exists>l. nc_Impl cfg = ImplLocal l) \<and>
     mset (ln_nodeNames (net s n)) = mset (map fst (net_map s n)) \<and>
     \<not> ln_donec (net s n) \<and> \<not> ln_stopc (net s n) \<and> \<not> ln_stopOnce (net s n) \<and>
     \<not> oc_closed (ln_ready (net s n)) \<and> ln_errc (net s n) = []"

definition new_info :: "'nw ext \<Rightarrow> string \<Rightarrow> nat option ClusterInfo" where
  "new_info E dir = \<lparr>ci_NodeNames = [], ci_NodeInfos = None, ci_Pid = word_of_int (x_Getpid E),
                     ci_RootDataDir = dir, ci_Healthy = False\<rparr>"

lemma store_ok_add_net:
  assumes "store_ok s" and "gomap_ok m" and "ln_nodeInfos l = length (sv_maps s)"
    and "once_ok (ln_ready l)"
  shows "store_ok (s\<lparr>sv_maps := sv_maps s @ [m], sv_nets := sv_nets s @ [l]\<rparr>)" (is "store_ok ?s")
proof -
  let ?N = "length (sv_nets s)" and ?M = "length (sv_maps s)"
  have old: "net ?s k = net s k" if "k < ?N" for k using that by (simp add: nth_append)
  have new: "net ?s ?N = l" by simp
  have bound: "ln_nodeInfos (net s k) < ?M" if "k < ?N" for k
    using store_okD(5) [OF assms(1) that] by (rule valid_netD(2))
  have valid: "valid_net k ?s" if "k < Suc ?N" for k
    using that store_okD(5) [OF assms(1), of k] assms(3,4) old [of k] new
    by (cases "k = ?N") (auto simp: valid_net_def)
  have inj: "j = k" if "j < Suc ?N" "k < Suc ?N" "ln_nodeInfos (net ?s j) = ln_nodeInfos (net ?s k)" for j k
  proof -
    have "j = ?N \<longleftrightarrow> k = ?N"
      using that old new bound [of j] bound [of k] assms(3) by (metis less_antisym less_irrefl)
    then show ?thesis
      using that old [of j] old [of k] assms(1) by (cases "j = ?N") (auto simp: store_ok_def)
  qed
  have maps: "gomap_ok (sv_maps ?s ! k)" if "k < Suc ?M" for k
    using that assms(1,2) by (cases "k = ?M") (auto simp: nth_append store_ok_def)
  have "\<forall>x \<in> set (sv_infos ?s). \<forall>k. ci_NodeInfos x = Some k \<longrightarrow> k < Suc ?M"
    using assms(1) by (auto simp: store_ok_def less_Suc_eq)
  with valid inj maps show ?thesis
    using assms(1) by (auto simp: store_ok_def simp del: nth_append_length)
qed

lemma newNetwork_fresh:
  assumes "store_ok s" and "newNetwork E path root ws lvl s = (Ret n, s')"
  shows "store_ok (s'\<lparr>sv_network := sv_network s\<rparr>)" and "fresh n s'"
    and "keys (net_map s' n) = node_name ` {..< length (x_NewDefaultConfig E path)}"
    and "sv_network s' = sv_network s" and "sv_clusterInfo s' = sv_clusterInfo s"
    and "sv_infos s' = sv_infos s" and "n < length (sv_nets s')" and "sv_closed s' = sv_closed s"
proof -
  obtain cfgs' names infos where
    loop: "newNetwork_loop path root ws
       (strings_ToUpper (x_ToUpper E) (if lvl = [] then ''INFO'' else lvl))
       (length (x_NewDefaultConfig E path)) 0 (x_NewDefaultConfig E path) [] = Some (cfgs', names, infos)"
    and n: "n = length (sv_nets s)"
    and s': "s' = s\<lparr>sv_maps := sv_maps s @ [infos],
              sv_nets := sv_nets s @
                [\<lparr>ln_binPath = path, ln_cfg = cfgs', ln_nw = None, ln_nodeNames = names,
                  ln_nodes = None, ln_nodeInfos = length (sv_maps s), ln_apiClis = [],
                  ln_ready = new_once_chan, ln_stopc = False, ln_stopOnce = False,
                  ln_donec = False, ln_errc = []\<rparr>]\<rparr>"
    using assms(2) by (rule newNetwork_Ret)
  have names: "names = map node_name [0 ..< length (x_NewDefaultConfig E path)]"
    and cfgs: "map nc_Name cfgs' = names"
    using newNetwork_loop_names [OF loop] by simp_all
  have kn: "keys infos = set names" and ok: "gomap_ok infos"
    using newNetwork_loop_keys [OF loop] by simp_all
  have dist: "distinct names" by (simp add: names distinct_map inj_on_def)
  have "mset (map fst infos) = mset names"
    using kn ok dist unfolding gomap_ok_def by (metis set_eq_iff_mset_eq_distinct set_map)
  moreover have "nc_Name ` set cfgs' = set names" using cfgs by (metis list.set_map)
  moreover have "\<exists>l. nc_Impl cfg = ImplLocal l" if "cfg \<in> set cfgs'" for cfg
    using newNetwork_loop_impl [OF loop that] by blast
  ultimately show "fresh n s'"
    using kn
    by (auto simp: fresh_def n s' valid_net_def net_map_def new_once_chan_def once_ok_def)
  show "store_ok (s'\<lparr>sv_network := sv_network s\<rparr>)"
    using store_ok_add_net [OF assms(1) ok] by (simp add: s' new_once_chan_def once_ok_def)
  show "keys (net_map s' n) = node_name ` {..< length (x_NewDefaultConfig E path)}"
    using kn by (auto simp: net_map_def n s' names)
  show "sv_network s' = sv_network s" and "sv_clusterInfo s' = sv_clusterInfo s"
    and "sv_infos s' = sv_infos s" and "n < length (sv_nets s')" and "sv_closed s' = sv_closed s"
    by (simp_all add: n s')
qed

lemma start_prepare_state:
  assumes "start_prepare E c req s = (r, s')"
  shows "s' = s \<or> (\<exists>dir. ce_tempdir c = Inr dir \<and> s' = s\<lparr>sv_dirs := sv_dirs s @ [dir]\<rparr>)"
    and "answered r" and "r = Ret dir \<Longrightarrow> sv_clusterInfo s = None"
  using assms by (auto simp: start_prepare_def getClusterInfo_def Let_def split: sum.splits if_splits)

lemma store_ok_dirs [simp]: "store_ok (s\<lparr>sv_dirs := d\<rparr>) = store_ok s"
  by (simp add: store_ok_def valid_net_def)

lemma cluster_ok_dirs [simp]: "cluster_ok nms (s\<lparr>sv_dirs := d\<rparr>) = cluster_ok nms s"
  by (simp add: cluster_ok_def running_def published_ok_def net_map_def)

lemma abs_cluster_dirs [simp]: "abs_cluster (s\<lparr>sv_dirs := d\<rparr>) = abs_cluster s"
  by (simp add: abs_cluster_def net_map_def split: option.splits)

text \<open>
  \<open>Start\<close> on a server that is up is refused before anything happens; on a server that is down it
  either fails and leaves the server down, or produces a fresh network and new information.
\<close>

lemma Start_up:
  assumes "store_ok s" and "abs_cluster s = Up S"
  shows "Start E c req s = (Fail ErrAlreadyBootstrapped, s)"
proof -
  have "sv_network s \<noteq> None" using assms(2) by (auto simp: abs_cluster_Down_iff [symmetric])
  then have "sv_clusterInfo s \<noteq> None" using store_okD(4) [OF assms(1)] by simp
  then show ?thesis by (auto simp: Start_def start_prepare_def getClusterInfo_def)
qed

lemma Start_down:
  assumes "store_ok s" and "abs_cluster s = Down" and "Start E c req s = (r, s')"
    and "length (x_NewDefaultConfig E (sr_ExecPath req)) \<le> length colors"
  obtains (failed) e where "r = Fail e" "store_ok s'" "abs_cluster s' = Down" "sv_closed s' = sv_closed s"
    | (started) i n dir where "r = Ret (i, n)" "ce_tempdir c = Inr dir" "store_ok s'" "fresh n s'"
        "sv_network s' = Some n" "sv_clusterInfo s' = Some i" "info_at s' i = new_info E dir"
        "keys (net_map s' n) = node_name ` {..< length (x_NewDefaultConfig E (sr_ExecPath req))}"
        "sv_closed s' = sv_closed s"
proof -
  have down: "sv_network s = None" "sv_clusterInfo s = None"
    using assms(2) store_okD(4) [OF assms(1)] by (simp_all add: abs_cluster_Down_iff)
  obtain r0 s0 where prep: "start_prepare E c req s = (r0, s0)" by (cases "start_prepare E c req s")
  have s0: "store_ok s0" "sv_network s0 = None" "sv_clusterInfo s0 = None" "sv_closed s0 = sv_closed s"
    using start_prepare_state(1) [OF prep] assms(1) down by auto
  have eq: "(r, s') = and_then (r0, s0) (\<lambda>dir s1. start_locked E dir req s1)"
    using assms(3) prep by (simp add: Start_def)
  show thesis
  proof (cases r0)
    case (Fail e)
    then show thesis using failed eq s0 by (simp add: abs_cluster_def)
  next
    case (Ret dir)
    have dir: "ce_tempdir c = Inr dir"
      using prep Ret by (auto simp: start_prepare_def Let_def split: sum.splits if_splits)
    let ?args = "newNetwork E (sr_ExecPath req) dir
       (StartRequest_GetWhitelistedSubnets (Some req)) (StartRequest_GetLogLevel (Some req)) s0"
    obtain rn sn where nn: "?args = (rn, sn)" by (cases ?args)
    show thesis
    proof (cases rn)
      case (Ret n)
      note fr = newNetwork_fresh [OF s0(1) nn [unfolded Ret]]
      let ?s' = "sn\<lparr>sv_network := Some n, sv_infos := sv_infos sn @ [new_info E dir],
                  sv_clusterInfo := Some (length (sv_infos sn))\<rparr>"
      have res: "r = Ret (length (sv_infos sn), n)" "s' = ?s'"
        using eq \<open>r0 = Ret dir\<close> s0(2) nn Ret by (simp_all add: start_locked_def Let_def new_info_def)
      have "store_ok ?s'"
        using fr(1,4,7) by (auto simp: store_ok_def valid_net_def new_info_def)
      moreover have "fresh n ?s'" using fr(2) by (simp add: fresh_def valid_net_def net_map_def)
      ultimately show thesis
        using started [OF res(1) dir] res(2) fr(3,8) s0(4) by (simp add: net_map_def)
    next
      case (Fail e)
      have "sn = s0" using nn Fail by (intro newNetwork_other) auto
      moreover have "s0\<lparr>sv_network := None\<rparr> = s0" using s0(2) by (cases s0) simp
      ultimately have "r = Fail e" "s' = s0"
        using eq \<open>r0 = Ret dir\<close> s0(2) nn Fail by (simp_all add: start_locked_def)
      then show thesis using failed [of e] s0 by (simp add: abs_cluster_def)
    next
      case Panic
      then have "fst ?args = Panic" using nn by simp
      then have False
        using newNetwork_Panic_iff [of E dir "sr_ExecPath req"] assms(4)
        by (cases "x_DefaultConfig E"; cases "x_MakeLogger E dir")
           (fastforce simp: newNetwork_def)+
      then show thesis by simp
    next
      case Block
      then show thesis using nn newNetwork_not_Block by (metis fst_conv)
    qed
  next
    case Panic
    then show thesis using start_prepare_state(2) [OF prep] by simp
  next
    case Block
    then show thesis using start_prepare_state(2) [OF prep] by simp
  qed
qed

end
