(* ===== verification/Keeps.thy ===== *)
theory Keeps
  imports Cluster_Life
begin

text \<open>
  What no request but \<open>Start\<close> and \<open>Stop\<close> changes, in any state at all: which network and which
  cluster information the server has, and whether the information says healthy; a ready channel
  that is closed stays closed.  Then the goroutine of \<open>Start\<close> on a fresh network.
\<close>

section \<open>The frame of the handlers\<close>

definition keeps :: "'nw server \<Rightarrow> 'nw server \<Rightarrow> bool" where
  "keeps s s' \<longleftrightarrow>
     sv_network s' = sv_network s \<and> sv_clusterInfo s' = sv_clusterInfo s \<and>
     sv_closed s' = sv_closed s \<and> length (sv_infos s') = length (sv_infos s) \<and>
     (\<forall>i. ci_Healthy (info_at s' i) = ci_Healthy (info_at s i)) \<and>
     (\<forall>n. oc_closed (ln_ready (net s n)) \<longrightarrow> oc_closed (ln_ready (net s' n)))"

lemma keeps_refl [simp]: "keeps s s"
  by (simp add: keeps_def)

lemma keeps_trans [trans]: "keeps s s' \<Longrightarrow> keeps s' s'' \<Longrightarrow> keeps s s''"
  by (simp add: keeps_def)

lemma keeps_upd_net:
  assumes "oc_closed (ln_ready (net s n)) \<Longrightarrow> oc_closed (ln_ready (f (net s n)))"
  shows "keeps s (upd_net n f s)"
proof -
  have "oc_closed (ln_ready (net (upd_net n f s) k))" if "oc_closed (ln_ready (net s k))" for k
    using that assms
    by (cases "k = n"; cases "n < length (sv_nets s)") (auto simp: upd_net_def list_update_beyond)
  then show ?thesis by (simp add: keeps_def)
qed

lemma keeps_upd_map: "keeps s (upd_map m g s)"
  by (simp add: keeps_def)

lemma keeps_upd_info:
  assumes "\<And>x. ci_Healthy (h x) = ci_Healthy x"
  shows "keeps s (upd_info i h s)"
proof -
  have "ci_Healthy (info_at (upd_info i h s) k) = ci_Healthy (info_at s k)" for k
    using assms
    by (cases "k = i"; cases "i < length (sv_infos s)") (auto simp: upd_info_def list_update_beyond)
  then show ?thesis by (simp add: keeps_def)
qed

lemma close_ready_mono:
  "close_ready l = Ret l' \<Longrightarrow> oc_closed (ln_ready l) \<Longrightarrow> oc_closed (ln_ready l')"
  by (cases "oc_closed (ln_ready l)")
     (auto simp: close_ready_def once_close_def split: outcome.splits if_splits)

lemma wfh_publish_keeps:
  assumes "wfh_publish c n nodes s = (r, s')"
  shows "keeps s s' \<and> sv_infos s' = sv_infos s"
proof (cases "wfh_loop (ce_nodes c nodes) (net_map s n, ln_apiClis (net s n))")
  case None
  then show ?thesis using assms by (simp add: wfh_publish_def)
next
  case (Some res)
  obtain infos clis where res: "res = (infos, clis)" by (cases res)
  let ?s1 = "upd_map (ln_nodeInfos (net s n)) (\<lambda>_. infos) s"
  let ?s2 = "upd_net n (\<lambda>l. l\<lparr>ln_apiClis := clis\<rparr>) ?s1"
  have "keeps s ?s1" by (rule keeps_upd_map)
  also have "keeps ?s1 ?s2" by (rule keeps_upd_net) simp
  finally have k2: "keeps s ?s2" .
  have "keeps ?s2 s'"
    using assms Some res
    by (auto simp: wfh_publish_def Let_def intro!: keeps_upd_net dest: close_ready_mono split: outcome.splits)
  moreover have "sv_infos s' = sv_infos s"
    using assms Some res by (auto simp: wfh_publish_def Let_def split: outcome.splits)
  ultimately show ?thesis using keeps_trans [OF k2] by simp
qed

lemma wfh_nodes_keeps:
  assumes "wfh_nodes E n s = (r, s')"
  shows "keeps s s' \<and> sv_infos s' = sv_infos s"
  using assms
  by (auto simp: wfh_nodes_def intro!: keeps_upd_net split: option.splits sum.splits)

lemma waitForHealthy_keeps:
  assumes "waitForHealthy E c n s = (r, s')"
  shows "keeps s s'" and "sv_infos s' = sv_infos s"
proof -
  have "keeps s s' \<and> sv_infos s' = sv_infos s"
  proof (cases "wfh_nodes E n s")
    case (Pair r1 s1)
    note k1 = wfh_nodes_keeps [OF Pair]
    show ?thesis
    proof (cases "wfh_publish c n (case r1 of Ret nodes \<Rightarrow> nodes | _ \<Rightarrow> []) s1")
      case publish: (Pair r2 s2)
      show ?thesis
        using assms Pair k1 publish wfh_publish_keeps [OF publish] keeps_trans
        by (cases r1; cases "wfh_enter n s"; cases "wfh_select (ce_event c)")
           (auto simp: waitForHealthy_def)
    qed
  qed
  then show "keeps s s'" and "sv_infos s' = sv_infos s" by simp_all
qed

section \<open>\<open>Health\<close>, \<open>RemoveNode\<close>, \<open>RestartNode\<close>\<close>

lemma publish_keeps: "keeps s (publish_nodes i n (refresh_names c n s))"
proof -
  have "keeps s (refresh_names c n s)"
    unfolding refresh_names_def by (rule keeps_upd_net) simp
  also have "keeps (refresh_names c n s) (publish_nodes i n (refresh_names c n s))"
    unfolding publish_nodes_def by (rule keeps_upd_info) simp
  finally show ?thesis .
qed

lemma health_locked_keeps: "health_locked c s = (r, s') \<Longrightarrow> keeps s s'"
  by (auto simp: health_locked_def Let_def refresh_names_def keeps_upd_net publish_keeps [unfolded refresh_names_def]
           split: option.splits)

lemma Health_keeps:
  assumes "Health E c s = (r, s')"
  shows "keeps s s'"
  using assms waitForHealthy_keeps(1) health_locked_keeps keeps_trans
  unfolding Health_def by (fastforce split: and_then_split_asm)

lemma Health_published:
  assumes "Health E c s = (Ret j, s')" and "sv_clusterInfo s = Some i" and "i < length (sv_infos s)"
  shows "ci_NodeInfos (info_at s' i) \<noteq> None"
proof -
  obtain n s1 where w: "waitForHealthy E c n s = (Ret (), s1)" and h: "health_locked c s1 = (Ret j, s')"
    using assms(1) by (auto simp: Health_def split: and_then_split_asm)
  have "sv_clusterInfo s1 = Some i" "i < length (sv_infos s1)"
    using waitForHealthy_keeps [OF w] assms(2,3) by (simp_all add: keeps_def)
  with h show ?thesis by (auto simp: health_locked_def Let_def split: option.splits)
qed

lemma remove_locked_keeps:
  assumes "remove_locked E c x s = (r, s')"
  shows "keeps s s'"
    and "r = Ret k \<Longrightarrow> sv_clusterInfo s = Some i \<Longrightarrow> i < length (sv_infos s) \<Longrightarrow>
           ci_NodeInfos (info_at s' i) \<noteq> None"
proof -
  have nw: "keeps s (set_nw n nw s)" for n nw by (rule keeps_upd_net) simp
  have mid: "keeps s (upd_map m g (set_nw n nw s))" for n nw m g
    using nw keeps_upd_map by (rule keeps_trans)
  have pub: "keeps s (publish_nodes i n (refresh_names c n (upd_map m g (set_nw n nw s))))" for i n nw m g
    using mid publish_keeps by (rule keeps_trans)
  have ref: "keeps s (refresh_names c n (upd_map m g (set_nw n nw s)))" for n nw m g
    using mid unfolding refresh_names_def by (rule keeps_trans) (rule keeps_upd_net, simp)
  show "keeps s s'"
    using assms nw pub ref by (auto simp: remove_locked_def Let_def split: option.splits prod.splits)
  show "ci_NodeInfos (info_at s' i) \<noteq> None"
    if "r = Ret k" "sv_clusterInfo s = Some i" "i < length (sv_infos s)"
    using assms that by (auto simp: remove_locked_def Let_def split: option.splits prod.splits)
qed

lemma RemoveNode_keeps:
  assumes "RemoveNode E c req s = (r, s')"
  shows "keeps s s'"
    and "r = Ret j \<Longrightarrow> sv_clusterInfo s = Some i \<Longrightarrow> i < length (sv_infos s) \<Longrightarrow>
           ci_NodeInfos (info_at s' i) \<noteq> None"
proof -
  obtain r1 s1 where l: "remove_locked E c (rm_Name req) s = (r1, s1)"
    by (cases "remove_locked E c (rm_Name req) s")
  note k1 = remove_locked_keeps [OF l]
  obtain r2 s2 where w: "waitForHealthy E c (case r1 of Ret n \<Rightarrow> n | _ \<Rightarrow> 0) s1 = (r2, s2)"
    by (cases "waitForHealthy E c (case r1 of Ret n \<Rightarrow> n | _ \<Rightarrow> 0) s1")
  note k2 = waitForHealthy_keeps [OF w]
  have eq: "(r, s') = (case sv_clusterInfo s of None \<Rightarrow> (Fail ErrNotBootstrapped, s)
     | Some _ \<Rightarrow> and_then (r1, s1) (\<lambda>_ _. and_then (r2, s2) (\<lambda>_ s2. (Ret (sv_clusterInfo s2), s2))))"
    using assms l w by (cases r1) (auto simp: RemoveNode_def getClusterInfo_def split: option.splits)
  show "keeps s s'"
    using eq k1(1) keeps_trans [OF k1(1) k2(1)]
    by (cases r1; cases r2) (auto split: option.splits)
  show "ci_NodeInfos (info_at s' i) \<noteq> None"
    if "r = Ret j" "sv_clusterInfo s = Some i" "i < length (sv_infos s)"
    using eq that k1(2) [OF _ that(2,3)] k2(2) by (cases r1; cases r2) auto
qed

lemma restart_locked_keeps:
  assumes "restart_locked E req s = (r, s')"
  shows "keeps s s'"
proof -
  have upd: "keeps s s'" if "restart_update req n s = (r, s')" for n s s' and r :: "NodeInfo outcome"
    using that keeps_upd_map keeps_trans [OF keeps_upd_map keeps_upd_map]
    by (auto simp: restart_update_def Let_def split: option.splits)
  have swap: "keeps s s'" if "restart_swap E x n cfg s = (r, s')" for x n cfg s s' and r :: "unit outcome"
    using that
    by (auto simp: restart_swap_def intro!: keeps_upd_net split: option.splits prod.splits)
  show ?thesis
    using assms upd swap keeps_trans unfolding restart_locked_def
    by (fastforce split: and_then_split_asm)
qed

lemma restart_finish_keeps:
  assumes "restart_finish idx cfg s = (r, s')"
  shows "keeps s s'"
    and "r = Ret j \<Longrightarrow> sv_clusterInfo s = Some i \<Longrightarrow> i < length (sv_infos s) \<Longrightarrow>
           j = Some i \<and> ci_NodeInfos (info_at s' i) \<noteq> None"
proof -
  have a: "keeps s (upd_net n (\<lambda>l. l\<lparr>ln_cfg := (ln_cfg l)[idx := cfg]\<rparr>) s)" for n
    by (rule keeps_upd_net) simp
  have b: "keeps s (upd_info k (\<lambda>x. x\<lparr>ci_NodeInfos := v\<rparr>)
             (upd_net n (\<lambda>l. l\<lparr>ln_cfg := (ln_cfg l)[idx := cfg]\<rparr>) s))" for n k v
    using a by (rule keeps_trans) (rule keeps_upd_info, simp)
  show "keeps s s'"
    using assms a b by (auto simp: restart_finish_def Let_def split: option.splits)
  show "j = Some i \<and> ci_NodeInfos (info_at s' i) \<noteq> None"
    if "r = Ret j" "sv_clusterInfo s = Some i" "i < length (sv_infos s)"
    using assms that by (auto simp: restart_finish_def Let_def split: option.splits)
qed

lemma RestartNode_keeps:
  assumes "RestartNode E c req s = (r, s')"
  shows "keeps s s'"
    and "r = Ret j \<Longrightarrow> sv_clusterInfo s = Some i \<Longrightarrow> i < length (sv_infos s) \<Longrightarrow>
           j = Some i \<and> ci_NodeInfos (info_at s' i) \<noteq> None"
proof -
  obtain r1 s1 where l: "restart_locked E req s = (r1, s1)" by (cases "restart_locked E req s")
  note k1 = restart_locked_keeps [OF l]
  let ?n = "case r1 of Ret (n, _) \<Rightarrow> n | _ \<Rightarrow> 0"
  obtain r2 s2 where w: "waitForHealthy E c ?n s1 = (r2, s2)" by (cases "waitForHealthy E c ?n s1")
  note k2 = keeps_trans [OF k1 waitForHealthy_keeps(1) [OF w]]
  let ?idx = "case r1 of Ret (_, idx, _) \<Rightarrow> idx | _ \<Rightarrow> 0"
  let ?cfg = "case r1 of Ret (_, _, cfg) \<Rightarrow> cfg | _ \<Rightarrow> undefined"
  obtain r3 s3 where f: "restart_finish ?idx ?cfg s2 = (r3, s3)" by (cases "restart_finish ?idx ?cfg s2")
  note k3 = keeps_trans [OF k2 restart_finish_keeps(1) [OF f]]
  have eq: "(r, s') = (case sv_clusterInfo s of None \<Rightarrow> (Fail ErrNotBootstrapped, s)
     | Some _ \<Rightarrow> and_then (r1, s1) (\<lambda>_ _. and_then (r2, s2) (\<lambda>_ _. (r3, s3))))"
    using assms l w f by (cases r1; cases r2) (auto simp: RestartNode_def getClusterInfo_def split: option.splits)
  show "keeps s s'"
    using eq k1 k2 k3 by (cases r1; cases r2) (auto split: option.splits)
  show "j = Some i \<and> ci_NodeInfos (info_at s' i) \<noteq> None"
    if "r = Ret j" "sv_clusterInfo s = Some i" "i < length (sv_infos s)"
  proof -
    have "sv_clusterInfo s2 = Some i" "i < length (sv_infos s2)"
      using k2 that(2,3) by (simp_all add: keeps_def)
    moreover have "r3 = Ret j \<and> s3 = s'" using eq that(1,2) by (cases r1; cases r2) auto
    ultimately show ?thesis using restart_finish_keeps(2) [OF f] by simp
  qed
qed

end
