(* ===== verification/Session.thy ===== *)
theory Session
  imports Keeps
begin

text \<open>
  The server as its clients see it, one request at a time: a request runs its handler to the end,
  the reply is marshalled, and then the goroutines the handler began or woke run until they wait.
  The goroutine \<open>start\<close> runs to its end; the watcher of the ready channel publishes the names and
  the map as soon as the channel is closed, or ends when the network is stopped.
\<close>

section \<open>The goroutine \<open>start\<close> on a fresh network\<close>

lemma localNetwork_start_fresh:
  assumes "store_ok s" and "fresh n s" and "sv_network s = Some n" and "sv_clusterInfo s = Some i"
    and "info_at s i = new_info E dir" and "network_laws E nms" and "env_ok c"
    and "x_NewNetwork E (ln_cfg (net s n)) = Inr nw"
  obtains s' where "localNetwork_start E c n s = (Ret (), s')" and "cluster_ok nms s'"
    and "sv_network s' = Some n" and "sv_clusterInfo s' = Some i" and "sv_closed s' = sv_closed s"
    and "info_at s' i = info_at s i" and "keys (net_map s' n) = keys (net_map s n)"
    and "\<not> ln_stopc (net s' n)"
proof -
  have fr: "valid_net n s" "keys (net_map s n) = nc_Name ` set (ln_cfg (net s n))"
      "\<forall>cfg \<in> set (ln_cfg (net s n)). \<exists>l. nc_Impl cfg = ImplLocal l"
      "mset (ln_nodeNames (net s n)) = mset (map fst (net_map s n))"
      "\<not> ln_stopc (net s n)" "\<not> ln_stopOnce (net s n)"
    using assms(2) by (simp_all add: fresh_def)
  let ?s1 = "set_nw n nw s"
  have valid1: "valid_net n ?s1" and net1: "net ?s1 n = (net s n)\<lparr>ln_nw := Some nw\<rparr>"
    using fr(1) by simp_all
  have st1: "store_ok ?s1" using assms(1) by (rule store_ok_upd_net) simp_all
  have nms: "nms nw = keys (net_map s n)"
    using network_lawsD(1) [OF assms(6,8)] fr(2) by simp
  obtain r2 s2 where w: "waitForHealthy E c n ?s1 = (r2, s2)" by (cases "waitForHealthy E c n ?s1")
  have frame: "wait_frame n ?s1 s2" using valid1 w by (rule waitForHealthy_frame)
  have ans: "answered r2"
    using waitForHealthy_answered [OF valid1, of c nw E] network_lawsD(2) [OF assms(6), of nw] w
      assms(7) net1 nms by (auto simp: env_ok_def)
  have st2: "store_ok s2"
    using st1 frame valid_netD(1) [OF valid1] by (rule store_ok_wait_frame)
  have valid2: "valid_net n s2" using frame valid1 by (rule wait_frame_valid)
  define errs where "errs = (case r2 of Fail e \<Rightarrow> [e] | _ \<Rightarrow> [])"
  let ?s3 = "upd_net n (start_done errs) s2"
  have net3: "net ?s3 n = start_done errs (net s2 n)" using valid2 by (simp add: valid_net_def)
  have map3: "keys (net_map ?s3 n) = keys (net_map s n)"
    using frame by (simp add: net_map_upd_net start_done_def wait_frame_def map_frame_keys)
  have mset3: "mset (map fst (net_map ?s3 n)) = mset (map fst (net_map s n))"
  proof (rule gomap_same_keys)
    show "gomap_ok (net_map s n)"
      using assms(1) fr(1) by (simp add: store_ok_def valid_net_def net_map_def)
    show "gomap_ok (net_map ?s3 n)"
      using st2 valid2 by (simp add: net_map_upd_net start_done_def store_ok_def valid_net_def net_map_def)
  qed (rule map3)
  have same: "sv_network ?s3 = Some n" "sv_clusterInfo ?s3 = Some i" "sv_closed ?s3 = sv_closed s"
      "info_at ?s3 i = info_at s i"
    using frame assms(3,4) by (simp_all add: wait_frame_def same_shell_def)
  have eqs: "ln_nw (net s2 n) = Some nw" "ln_cfg (net s2 n) = ln_cfg (net s n)"
      "ln_stopc (net s2 n) = ln_stopc (net s n)" "ln_stopOnce (net s2 n) = ln_stopOnce (net s n)"
      "ln_nodeNames (net s2 n) = ln_nodeNames (net s n)"
    using frame net1 by (simp_all add: wait_frame_def net_frame_def)
  have "running nms n ?s3"
    unfolding running_def map3 net3 using fr eqs nms by (simp add: start_done_def)
  moreover have "published_ok i n ?s3"
    unfolding published_ok_def mset3 net3 same(4) using fr(4) eqs assms(5)
    by (simp add: start_done_def new_info_def)
  moreover have "store_ok ?s3" using st2 by (rule store_ok_upd_net) (simp_all add: start_done_def)
  ultimately have "cluster_ok nms ?s3" using same by (simp add: cluster_ok_def)
  moreover have "localNetwork_start E c n s = (Ret (), ?s3)"
    using w ans assms(8) by (cases r2) (simp_all add: localNetwork_start_def start_create_def errs_def)
  moreover have "\<not> ln_stopc (net ?s3 n)" using net3 eqs fr(5) by (simp add: start_done_def)
  ultimately show thesis using that same map3 by blast
qed

section \<open>Requests, replies, sessions\<close>

datatype request =
    RqPing
  | RqStart StartRequest
  | RqHealth
  | RqURIs
  | RqStatus
  | RqRemove RemoveNodeRequest
  | RqRestart RestartNodeRequest
  | RqStop

text \<open>A cluster information on the wire holds the map itself, not a reference.\<close>

type_synonym wire_info = "(string, NodeInfo) gomap ClusterInfo"

datatype reply =
    RpPid int32
  | RpInfo "wire_info option"
  | RpUris "string list"

definition wire :: "'nw server \<Rightarrow> nat \<Rightarrow> wire_info" where
  "wire s i =
     (let x = info_at s i
      in \<lparr>ci_NodeNames = ci_NodeNames x, ci_NodeInfos = map_at s (ci_NodeInfos x),
          ci_Pid = ci_Pid x, ci_RootDataDir = ci_RootDataDir x, ci_Healthy = ci_Healthy x\<rparr>)"

definition marshal :: "nat option \<Rightarrow> 'nw server \<Rightarrow> reply" where
  "marshal i s = RpInfo (map_option (wire s) i)"

text \<open>The server and the watcher of the ready channel, with the network whose channels it reads.\<close>

record 'nw session =
  se_srv :: "'nw server"
  se_watch :: "nat option"

text \<open>
  The \<open>select\<close> of the watcher: the server is closed, the network is stopped, or it is ready.
\<close>

definition settle :: "'nw session \<Rightarrow> unit outcome \<times> 'nw session" where
  "settle ss =
     (case se_watch ss of
        None \<Rightarrow> (Ret (), ss)
      | Some n \<Rightarrow>
          (if sv_closed (se_srv ss) \<or> ln_stopc (net (se_srv ss) n) then (Ret (), ss\<lparr>se_watch := None\<rparr>)
           else if oc_closed (ln_ready (net (se_srv ss) n)) then
             (let (r, s1) = watch_ready (se_srv ss) in (r, ss\<lparr>se_srv := s1, se_watch := None\<rparr>))
           else (Ret (), ss)))"

definition reply_of ::
  "('a \<Rightarrow> 'nw server \<Rightarrow> reply) \<Rightarrow> 'a outcome \<times> 'nw server \<Rightarrow> 'nw session \<Rightarrow> reply outcome \<times> 'nw session" where
  "reply_of f res ss = (map_outcome (\<lambda>x. f x (snd res)) (fst res), ss\<lparr>se_srv := snd res\<rparr>)"

text \<open>
  A sequential idealisation of \<open>Start\<close>: its goroutine \<open>start\<close> runs to the end before the next request
  is looked at, and the reply is marshalled before that.  In the program \<open>Start\<close> answers first, so a
  request can arrive while the network is still nil; that window is in the interleaved process of
  \<open>Concurrent\<close>, where the goroutine is a thread of its own.
\<close>

definition serve_start ::
  "'nw ext \<Rightarrow> call_env \<Rightarrow> StartRequest \<Rightarrow> 'nw session \<Rightarrow> reply outcome \<times> 'nw session" where
  "serve_start E c req ss =
     (case Start E c req (se_srv ss) of
        (Ret (i, n), s1) \<Rightarrow>
          (case localNetwork_start E c n s1 of
             (r, s2) \<Rightarrow> (map_outcome (\<lambda>_. marshal (Some i) s1) r,
                         ss\<lparr>se_srv := s2, se_watch := Some n\<rparr>))
      | (Fail e, s1) \<Rightarrow> (Fail e, ss\<lparr>se_srv := s1\<rparr>)
      | (Panic, s1) \<Rightarrow> (Panic, ss\<lparr>se_srv := s1\<rparr>)
      | (Block, s1) \<Rightarrow> (Block, ss\<lparr>se_srv := s1\<rparr>))"

fun handle ::
  "'nw ext \<Rightarrow> call_env \<Rightarrow> request \<Rightarrow> 'nw session \<Rightarrow> reply outcome \<times> 'nw session" where
  "handle E c RqPing ss = (Ret (RpPid (pr_Pid (Ping E))), ss)"
| "handle E c (RqStart req) ss = serve_start E c req ss"
| "handle E c RqHealth ss = reply_of marshal (Health E c (se_srv ss)) ss"
| "handle E c RqURIs ss = reply_of (\<lambda>u s. RpUris (ur_Uris u)) (URIs c (se_srv ss), se_srv ss) ss"
| "handle E c RqStatus ss = reply_of (\<lambda>i. marshal (Some i)) (Status (se_srv ss), se_srv ss) ss"
| "handle E c (RqRemove req) ss = reply_of marshal (RemoveNode E c req (se_srv ss)) ss"
| "handle E c (RqRestart req) ss = reply_of marshal (RestartNode E c req (se_srv ss)) ss"
| "handle E c RqStop ss = reply_of (\<lambda>i. marshal (Some i)) (Stop E (se_srv ss)) ss"

text \<open>A panic of the watcher ends the process like a panic of the handler.\<close>

definition serve ::
  "'nw ext \<Rightarrow> call_env \<Rightarrow> request \<Rightarrow> 'nw session \<Rightarrow> reply outcome \<times> 'nw session" where
  "serve E c rq ss =
     (let (r, ss1) = handle E c rq ss
      in if answered r then
           (case settle ss1 of
              (Ret _, ss2) \<Rightarrow> (r, ss2) | (Fail _, ss2) \<Rightarrow> (r, ss2)
            | (Panic, ss2) \<Rightarrow> (Panic, ss2) | (Block, ss2) \<Rightarrow> (Block, ss2))
         else (r, ss1))"

definition new_session :: "'nw session" where
  "new_session = \<lparr>se_srv = init_server, se_watch = None\<rparr>"

text \<open>A conversation: requests with what the scheduler decides for each, up to the first panic.\<close>

fun conversation ::
  "'nw ext \<Rightarrow> (call_env \<times> request) list \<Rightarrow> 'nw session \<Rightarrow> reply outcome list \<times> 'nw session" where
  "conversation E [] ss = ([], ss)"
| "conversation E ((c, rq) # rest) ss =
     (let (r, ss1) = serve E c rq ss
      in if answered r then (let (rs, ss2) = conversation E rest ss1 in (r # rs, ss2)) else ([r], ss1))"

section \<open>The abstract machine of a cluster\<close>

definition info_complete :: "string set \<Rightarrow> wire_info \<Rightarrow> bool" where
  "info_complete S x \<longleftrightarrow>
     set (ci_NodeNames x) = S \<and> distinct (ci_NodeNames x) \<and> keys (ci_NodeInfos x) = S"

definition info_partial :: "string set \<Rightarrow> wire_info \<Rightarrow> bool" where
  "info_partial S x \<longleftrightarrow>
     (ci_NodeNames x = [] \<or> set (ci_NodeNames x) = S) \<and>
     (ci_NodeInfos x = [] \<or> keys (ci_NodeInfos x) = S) \<and>
     (ci_Healthy x \<longrightarrow> info_complete S x)"

text \<open>
  \<open>spec_step d A rq r A'\<close>: in the cluster \<open>A\<close> the request \<open>rq\<close> may be answered \<open>r\<close> and leave the
  cluster \<open>A'\<close>; \<open>d path\<close> is the number of nodes of the default configuration.
\<close>

fun spec_step ::
  "(string \<Rightarrow> nat) \<Rightarrow> cluster \<Rightarrow> request \<Rightarrow> reply outcome \<Rightarrow> cluster \<Rightarrow> bool" where
  "spec_step d A RqPing r A' = (A' = A \<and> (case r of Ret (RpPid _) \<Rightarrow> True | _ \<Rightarrow> False))"
| "spec_step d Down (RqStart req) r A' =
     (case r of
        Ret (RpInfo (Some x)) \<Rightarrow>
          A' = Up (node_name ` {..<d (sr_ExecPath req)}) \<and> ci_NodeNames x = [] \<and> \<not> ci_Healthy x
      | Fail _ \<Rightarrow> A' = Down
      | _ \<Rightarrow> False)"
| "spec_step d Down rq r A' = (A' = Down \<and> r = Fail ErrNotBootstrapped)"
| "spec_step d (Up S) (RqStart req) r A' = (A' = Up S \<and> r = Fail ErrAlreadyBootstrapped)"
| "spec_step d (Up S) RqHealth r A' =
     (A' = Up S \<and>
      (case r of Ret (RpInfo (Some x)) \<Rightarrow> info_complete S x | Fail _ \<Rightarrow> True | _ \<Rightarrow> False))"
| "spec_step d (Up S) RqURIs r A' =
     (A' = Up S \<and>
      (case r of Ret (RpUris us) \<Rightarrow> sorted us \<and> (us = [] \<or> length us = card S) | _ \<Rightarrow> False))"
| "spec_step d (Up S) RqStatus r A' =
     (A' = Up S \<and> (case r of Ret (RpInfo (Some x)) \<Rightarrow> info_partial S x | _ \<Rightarrow> False))"
| "spec_step d (Up S) (RqRemove req) r A' =
     (if rm_Name req \<notin> S then A' = Up S \<and> r = Fail ErrNodeNotFound
      else (case r of
              Ret (RpInfo (Some x)) \<Rightarrow>
                A' = Up (S - {rm_Name req}) \<and> info_complete (S - {rm_Name req}) x
            | Fail _ \<Rightarrow> A' = Up S \<or> A' = Up (S - {rm_Name req})
            | _ \<Rightarrow> False))"
| "spec_step d (Up S) (RqRestart req) r A' =
     (if rr_Name req \<notin> S then A' = Up S \<and> r = Fail ErrNodeNotFound
      else A' = Up S \<and>
           (case r of
              Ret (RpInfo (Some x)) \<Rightarrow> keys (ci_NodeInfos x) = S
            | Fail _ \<Rightarrow> True
            | _ \<Rightarrow> False))"
| "spec_step d (Up S) RqStop r A' =
     (A' = Down \<and> (case r of Ret (RpInfo (Some x)) \<Rightarrow> \<not> ci_Healthy x | _ \<Rightarrow> False))"

text \<open>A sequence of requests and replies that the abstract machine allows.\<close>

fun spec_run ::
  "(string \<Rightarrow> nat) \<Rightarrow> cluster \<Rightarrow> request list \<Rightarrow> reply outcome list \<Rightarrow> cluster \<Rightarrow> bool" where
  "spec_run d A [] [] A' = (A' = A)"
| "spec_run d A (rq # rqs) (r # rs) A' = (\<exists>B. spec_step d A rq r B \<and> spec_run d B rqs rs A')"
| "spec_run d A _ _ A' = False"

end
