(* ===== verification/Session_Ok.thy ===== *)
theory Session_Ok
  imports Session
begin

text \<open>
  The server implements the abstract machine of a cluster, one request at a time: the invariant of
  a session, its preservation by the watcher and by every handler, and the simulation.
\<close>

section \<open>The invariant of a session\<close>

definition boots :: "'nw ext \<Rightarrow> bool" where
  "boots E \<longleftrightarrow> (\<forall>cfgs. \<exists>nw. x_NewNetwork E cfgs = Inr nw)"

fun request_ok :: "'nw ext \<Rightarrow> request \<Rightarrow> bool" where
  "request_ok E (RqStart req) = (length (x_NewDefaultConfig E (sr_ExecPath req)) \<le> length colors)"
| "request_ok E (RqRestart req) =
     (case rr_StartRequest req of None \<Rightarrow> False | Some sr \<Rightarrow> sr_WhitelistedSubnets sr \<noteq> None)"
| "request_ok E _ = True"

definition watch_ok :: "'nw session \<Rightarrow> bool" where
  "watch_ok ss \<longleftrightarrow>
     (case (sv_clusterInfo (se_srv ss), sv_network (se_srv ss)) of
        (Some i, Some n) \<Rightarrow>
          se_watch ss = (if ci_Healthy (info_at (se_srv ss) i) then None else Some n)
      | _ \<Rightarrow> se_watch ss = None)"

text \<open>Before the watcher has looked, it may still wait for a network that was stopped.\<close>

definition watch_due :: "'nw session \<Rightarrow> bool" where
  "watch_due ss \<longleftrightarrow>
     watch_ok ss \<or>
     sv_clusterInfo (se_srv ss) = None \<and>
     (\<forall>n. se_watch ss = Some n \<longrightarrow> ln_stopc (net (se_srv ss) n))"

lemma watch_ok_due: "watch_ok ss \<Longrightarrow> watch_due ss"
  by (simp add: watch_due_def)

definition settled :: "'nw server \<Rightarrow> bool" where
  "settled s \<longleftrightarrow>
     (\<forall>i n. sv_clusterInfo s = Some i \<longrightarrow> sv_network s = Some n \<longrightarrow>
        oc_closed (ln_ready (net s n)) \<longrightarrow> ci_Healthy (info_at s i))"

definition session_ok :: "('nw \<Rightarrow> string set) \<Rightarrow> 'nw session \<Rightarrow> bool" where
  "session_ok nms ss \<longleftrightarrow>
     cluster_ok nms (se_srv ss) \<and> \<not> sv_closed (se_srv ss) \<and> watch_ok ss \<and> settled (se_srv ss)"

lemma session_ok_new: "session_ok nms new_session"
  by (simp add: session_ok_def new_session_def cluster_ok_init watch_ok_def settled_def)
     (simp add: init_server_def)

section \<open>The watcher\<close>

lemma watch_ready_ok:
  assumes "cluster_ok nms s" and "sv_network s = Some n" and "sv_clusterInfo s = Some i"
    and "oc_closed (ln_ready (net s n))"
  shows "\<exists>s'. watch_ready s = (Ret (), s') \<and> cluster_ok nms s' \<and> sv_network s' = Some n \<and>
           sv_clusterInfo s' = Some i \<and> sv_closed s' = sv_closed s \<and> ci_Healthy (info_at s' i) \<and>
           abs_cluster s' = abs_cluster s"
proof -
  obtain "store_ok s" "valid_net n s" "running nms n s" "published_ok i n s" "i < length (sv_infos s)"
    using cluster_ok_live [OF assms(1,3)] assms(2) by (metis option.inject)
  note live = this
  let ?s = "upd_info i (\<lambda>x. x\<lparr>ci_NodeNames := ln_nodeNames (net s n),
                             ci_NodeInfos := Some (ln_nodeInfos (net s n)), ci_Healthy := True\<rparr>) s"
  have "store_ok ?s"
    using live(1) by (rule store_ok_upd_info) (use live(2) in \<open>simp add: valid_net_def\<close>)
  moreover have "running nms n ?s" using live(3) by (simp add: running_def)
  moreover have "published_ok i n ?s" using live(4,5) assms(4) by (simp add: published_ok_def)
  ultimately have "cluster_ok nms ?s" using assms(2,3) by (simp add: cluster_ok_def)
  then show ?thesis using assms(2,3) live(5) by (simp add: watch_ready_def)
qed

text \<open>After any handler that kept the invariant, the watcher restores the agreement.\<close>

lemma settle_ok:
  assumes "cluster_ok nms (se_srv ss)" and "\<not> sv_closed (se_srv ss)" and "watch_due ss"
  shows "\<exists>ss'. settle ss = (Ret (), ss') \<and> session_ok nms ss' \<and>
           abs_cluster (se_srv ss') = abs_cluster (se_srv ss)"
proof (cases "sv_clusterInfo (se_srv ss)")
  case None
  have "settle ss = (Ret (), ss\<lparr>se_watch := None\<rparr>)"
    using None assms(3) by (cases "se_watch ss") (auto simp: watch_due_def watch_ok_def settle_def)
  then show ?thesis
    using None assms by (auto simp: session_ok_def settled_def watch_ok_def)
next
  case (Some i)
  then obtain n where n: "sv_network (se_srv ss) = Some n" "running nms n (se_srv ss)"
      "published_ok i n (se_srv ss)"
    using cluster_ok_live [OF assms(1) Some] by metis
  have wok: "watch_ok ss" using assms(3) Some by (simp add: watch_due_def)
  then have w: "se_watch ss = (if ci_Healthy (info_at (se_srv ss) i) then None else Some n)"
    using Some n(1) by (simp add: watch_ok_def)
  show ?thesis
  proof (cases "oc_closed (ln_ready (net (se_srv ss) n)) \<and> \<not> ci_Healthy (info_at (se_srv ss) i)")
    case True
    then obtain s' where s': "watch_ready (se_srv ss) = (Ret (), s')" "cluster_ok nms s'"
        "sv_network s' = Some n" "sv_clusterInfo s' = Some i" "sv_closed s' = sv_closed (se_srv ss)"
        "ci_Healthy (info_at s' i)" "abs_cluster s' = abs_cluster (se_srv ss)"
      using watch_ready_ok [OF assms(1) n(1) Some] by auto
    have "settle ss = (Ret (), ss\<lparr>se_srv := s', se_watch := None\<rparr>)"
      using True w assms(2) n(2) s'(1) by (simp add: settle_def running_def)
    then show ?thesis
      using s' assms(2) by (simp add: session_ok_def watch_ok_def settled_def)
  next
    case False
    then have "settle ss = (Ret (), ss)"
      using w assms(2) n(2) by (auto simp: settle_def running_def)
    moreover have "settled (se_srv ss)" using False Some n(1) by (simp add: settled_def)
    ultimately show ?thesis using assms wok by (simp add: session_ok_def)
  qed
qed

lemma watch_ok_keeps:
  assumes "watch_ok ss" and "keeps (se_srv ss) s'"
  shows "watch_ok (ss\<lparr>se_srv := s'\<rparr>)"
  using assms by (auto simp: watch_ok_def keeps_def split: option.splits)

section \<open>What a reply carries\<close>

lemma wire_partial:
  assumes "cluster_ok nms s" and "abs_cluster s = Up S" and "sv_clusterInfo s = Some i"
  shows "info_partial S (wire s i)"
    and "ci_NodeInfos (info_at s i) \<noteq> None \<Longrightarrow> keys (ci_NodeInfos (wire s i)) = S"
    and "ci_NodeInfos (info_at s i) \<noteq> None \<Longrightarrow> set (ci_NodeNames (info_at s i)) = S \<Longrightarrow>
           info_complete S (wire s i)"
proof -
  obtain n where n: "sv_network s = Some n" "store_ok s" "valid_net n s" "published_ok i n s"
    using cluster_ok_live [OF assms(1,3)] by metis
  have S: "S = keys (net_map s n)" using assms(2) n(1) by simp
  have ok: "gomap_ok (net_map s n)"
    using n(2,3) by (simp add: store_ok_def valid_net_def net_map_def)
  have some: "map_at s (ci_NodeInfos (info_at s i)) = net_map s n"
    if "ci_NodeInfos (info_at s i) \<noteq> None"
    using that n(4) by (auto simp: published_ok_def map_at_def net_map_def)
  have names: "set ns = S \<and> distinct ns" if "mset ns = mset (map fst (net_map s n))" for ns
    using that ok unfolding gomap_ok_def S
    by (metis list.set_map mset_eq_imp_distinct_iff mset_eq_setD)
  show k: "keys (ci_NodeInfos (wire s i)) = S" if "ci_NodeInfos (info_at s i) \<noteq> None"
    using some [OF that] S by (simp add: wire_def Let_def)
  have pub: "ci_NodeNames (info_at s i) = [] \<or>
       mset (ci_NodeNames (info_at s i)) = mset (map fst (net_map s n))"
    using n(4) by (simp add: published_ok_def)
  show "info_complete S (wire s i)"
    if "ci_NodeInfos (info_at s i) \<noteq> None" "set (ci_NodeNames (info_at s i)) = S"
    using that pub k names [of "ci_NodeNames (info_at s i)"]
    by (auto simp: info_complete_def wire_def Let_def)
  have "ci_NodeInfos (wire s i) = [] \<or> keys (ci_NodeInfos (wire s i)) = S"
    using k by (cases "ci_NodeInfos (info_at s i)") (auto simp: wire_def map_at_def Let_def)
  moreover have "info_complete S (wire s i)" if "ci_Healthy (wire s i)"
  proof -
    have h: "ci_NodeInfos (info_at s i) \<noteq> None"
        "mset (ci_NodeNames (info_at s i)) = mset (map fst (net_map s n))"
      using that n(4) by (auto simp: published_ok_def wire_def Let_def)
    then show ?thesis
      using k [OF h(1)] names [OF h(2)] by (simp add: info_complete_def wire_def Let_def)
  qed
  ultimately show "info_partial S (wire s i)"
    using pub names by (auto simp: info_partial_def wire_def Let_def)
qed

lemma URIs_reply:
  assumes "cluster_ok nms s" and "abs_cluster s = Up S" and "env_ok c"
  shows "\<exists>us. URIs c s = Ret \<lparr>ur_Uris = us\<rparr> \<and> sorted us \<and> (us = [] \<or> length us = card S)"
proof -
  obtain i where i: "sv_clusterInfo s = Some i"
    using assms(1,2) by (cases "sv_clusterInfo s") (auto simp: cluster_ok_def store_ok_def abs_cluster_def)
  then obtain n where n: "sv_network s = Some n" "store_ok s" "valid_net n s" "published_ok i n s"
    using cluster_ok_live [OF assms(1) i] by metis
  let ?m = "map_at s (ci_NodeInfos (info_at s i))"
  have "gomap_ok (net_map s n)"
    using n(2,3) by (simp add: store_ok_def valid_net_def net_map_def)
  then have card: "length (net_map s n) = card S"
    using assms(2) n(1) distinct_card [of "map fst (net_map s n)"] by (simp add: gomap_ok_def)
  have "?m = [] \<or> length ?m = card S"
    using n(4) card by (auto simp: published_ok_def map_at_def net_map_def)
  moreover have "length (ce_infos c ?m) = length ?m"
    using assms(3) by (metis env_ok_def visit_mset size_mset)
  ultimately show ?thesis
    using i by (auto simp: URIs_def URIs_collect_def getClusterInfo_def Let_def)
qed

section \<open>The handlers\<close>

abbreviation defaults :: "'nw ext \<Rightarrow> string \<Rightarrow> nat" where
  "defaults E \<equiv> \<lambda>path. length (x_NewDefaultConfig E path)"

text \<open>What a handler does to a session, before the watcher looks.\<close>

definition handled ::
  "('nw \<Rightarrow> string set) \<Rightarrow> 'nw ext \<Rightarrow> 'nw session \<Rightarrow> request \<Rightarrow> reply outcome \<Rightarrow> 'nw session \<Rightarrow> bool" where
  "handled nms E ss rq r ss' \<longleftrightarrow>
     answered r \<and> cluster_ok nms (se_srv ss') \<and> \<not> sv_closed (se_srv ss') \<and> watch_due ss' \<and>
     spec_step (defaults E) (abs_cluster (se_srv ss)) rq r (abs_cluster (se_srv ss'))"

lemma session_okD:
  assumes "session_ok nms ss"
  shows "cluster_ok nms (se_srv ss)" and "\<not> sv_closed (se_srv ss)" and "watch_ok ss"
    and "settled (se_srv ss)" and "store_ok (se_srv ss)"
    and "abs_cluster (se_srv ss) = Down \<longleftrightarrow> sv_clusterInfo (se_srv ss) = None"
proof -
  show c: "cluster_ok nms (se_srv ss)" and "\<not> sv_closed (se_srv ss)" and "watch_ok ss"
    and "settled (se_srv ss)"
    using assms by (simp_all add: session_ok_def)
  from c show st: "store_ok (se_srv ss)" by (simp add: cluster_ok_def)
  show "abs_cluster (se_srv ss) = Down \<longleftrightarrow> sv_clusterInfo (se_srv ss) = None"
    using store_okD(4) [OF st] by (simp add: abs_cluster_Down_iff)
qed

lemma handled_down:
  assumes "session_ok nms ss" and "abs_cluster (se_srv ss) = Down" and "handle E c rq ss = (r, ss')"
    and "\<forall>req. rq \<noteq> RqStart req"
  shows "handled nms E ss rq r ss'"
proof -
  have none: "sv_clusterInfo (se_srv ss) = None" using session_okD(6) [OF assms(1)] assms(2) by simp
  have same: "ss\<lparr>se_srv := se_srv ss\<rparr> = ss" by (cases ss) simp
  have "ss' = ss \<and> (if rq = RqPing then \<exists>p. r = Ret (RpPid p) else r = Fail ErrNotBootstrapped)"
    using assms(3,4) none same
    by (cases rq)
       (auto simp: reply_of_def Health_def health_enter_def URIs_def URIs_collect_def Status_def RemoveNode_def
                   RestartNode_def Stop_def getClusterInfo_def)
  moreover from this have "spec_step (defaults E) Down rq r Down"
    using assms(4) by (cases rq) auto
  ultimately show ?thesis
    using session_okD(1,2,3) [OF assms(1)] assms(2)
    by (auto simp: handled_def watch_ok_due split: if_splits)
qed

lemma handled_start_down:
  assumes "session_ok nms ss" and "network_laws E nms" and "env_ok c" and "boots E"
    and "request_ok E (RqStart req)" and "abs_cluster (se_srv ss) = Down"
    and "handle E c (RqStart req) ss = (r, ss')"
  shows "handled nms E ss (RqStart req) r ss'"
proof -
  obtain r1 s1 where st: "Start E c req (se_srv ss) = (r1, s1)" by (cases "Start E c req (se_srv ss)")
  have bound: "length (x_NewDefaultConfig E (sr_ExecPath req)) \<le> length colors"
    using assms(5) by simp
  from session_okD(5) [OF assms(1)] assms(6) st bound show ?thesis
  proof (cases rule: Start_down)
    case (failed e)
    have "sv_network s1 = None" using failed(3) by (simp add: abs_cluster_Down_iff)
    then have "sv_clusterInfo s1 = None" "cluster_ok nms s1"
      using failed(2) store_okD(4) [OF failed(2)] by (simp_all add: cluster_ok_def)
    moreover have "se_watch ss = None"
      using session_okD(3,6) [OF assms(1)] assms(6) by (simp add: watch_ok_def)
    ultimately show ?thesis
      using assms(6,7) st failed session_okD(2) [OF assms(1)]
      by (auto simp: handled_def serve_start_def watch_due_def watch_ok_def)
  next
    case (started i n dir)
    obtain nw where nw: "x_NewNetwork E (ln_cfg (net s1 n)) = Inr nw"
      using assms(4) by (auto simp: boots_def)
    obtain s2 where s2: "localNetwork_start E c n s1 = (Ret (), s2)" "cluster_ok nms s2"
        "sv_network s2 = Some n" "sv_clusterInfo s2 = Some i" "sv_closed s2 = sv_closed s1"
        "info_at s2 i = info_at s1 i" "keys (net_map s2 n) = keys (net_map s1 n)"
      using localNetwork_start_fresh
        [OF started(3,4,5,6,7) assms(2,3) nw] by metis
    have res: "r = Ret (marshal (Some i) s1)" "ss' = ss\<lparr>se_srv := s2, se_watch := Some n\<rparr>"
      using assms(7) st started(1) s2(1) by (simp_all add: serve_start_def)
    show ?thesis
      using assms(6) session_okD(2) [OF assms(1)] s2 started
      by (simp add: handled_def res marshal_def wire_def watch_due_def watch_ok_def new_info_def Let_def)
  qed
qed

lemma reply_of_eq:
  assumes "reply_of f res ss = (r, ss')" and "res = (r1, s1)"
  shows "r = map_outcome (\<lambda>x. f x s1) r1" and "ss' = ss\<lparr>se_srv := s1\<rparr>"
  using assms by (simp_all add: reply_of_def)

lemma answered_map_outcome [simp]: "answered (map_outcome f r) = answered r"
  by (cases r) auto

text \<open>A handler that keeps the frame keeps the watcher's view.\<close>

lemma handled_keeps:
  assumes "session_ok nms ss" and "keeps (se_srv ss) s1" and "answered r1" and "cluster_ok nms s1"
    and "spec_step (defaults E) (abs_cluster (se_srv ss)) rq (map_outcome f r1) (abs_cluster s1)"
  shows "handled nms E ss rq (map_outcome f r1) (ss\<lparr>se_srv := s1\<rparr>)"
  using assms session_okD(2,3) [OF assms(1)] watch_ok_keeps [of ss s1]
  by (simp add: handled_def keeps_def watch_ok_due)

lemma handled_up:
  assumes "session_ok nms ss" and "network_laws E nms" and "env_ok c"
    and "request_ok E rq" and "abs_cluster (se_srv ss) = Up S" and "handle E c rq ss = (r, ss')"
  shows "handled nms E ss rq r ss'"
proof -
  note ok = session_okD [OF assms(1)]
  obtain i where i: "sv_clusterInfo (se_srv ss) = Some i" "i < length (sv_infos (se_srv ss))"
    using ok(6) assms(5) store_okD(3) [OF ok(5)] by (cases "sv_clusterInfo (se_srv ss)") auto
  have same: "ss\<lparr>se_srv := se_srv ss\<rparr> = ss" by (cases ss) simp
  have info: "sv_clusterInfo s1 = Some i" if "keeps (se_srv ss) s1" for s1
    using that i(1) by (simp add: keeps_def)
  show ?thesis
  proof (cases rq)
    case RqPing
    then show ?thesis using assms(6) ok by (auto simp: handled_def watch_ok_due)
  next
    case (RqStart req)
    then show ?thesis
      using assms(5,6) ok Start_up [OF ok(5) assms(5)] same by (auto simp: handled_def watch_ok_due serve_start_def)
  next
    case RqHealth
    obtain r1 s1 where h: "Health E c (se_srv ss) = (r1, s1)" by (cases "Health E c (se_srv ss)")
    note hk = Health_keeps [OF h] and ho = Health_ok [OF ok(1) assms(2,3,5) h]
    have "spec_step (defaults E) (Up S) RqHealth (map_outcome (\<lambda>x. marshal x s1) r1) (Up S)"
    proof (cases r1)
      case (Ret j)
      have "j = Some i" "set (ci_NodeNames (info_at s1 i)) = S"
        using ho(4) [OF Ret] info [OF hk] by auto
      moreover have "ci_NodeInfos (info_at s1 i) \<noteq> None"
        using Health_published h Ret i by blast
      ultimately show ?thesis
        using wire_partial(3) [OF ho(2,3) info [OF hk]] Ret by (simp add: marshal_def)
    qed (use ho(1) in simp_all)
    then have "handled nms E ss RqHealth (map_outcome (\<lambda>x. marshal x s1) r1) (ss\<lparr>se_srv := s1\<rparr>)"
      using handled_keeps [OF assms(1) hk ho(1,2)] assms(5) ho(3) by simp
    then show ?thesis using assms(6) RqHealth h by (auto simp: reply_of_def)
  next
    case RqURIs
    obtain us where "URIs c (se_srv ss) = Ret \<lparr>ur_Uris = us\<rparr>" "sorted us" "us = [] \<or> length us = card S"
      using URIs_reply [OF ok(1) assms(5,3)] by blast
    then show ?thesis
      using assms(5,6) RqURIs ok same by (auto simp: handled_def watch_ok_due reply_of_def)
  next
    case RqStatus
    then show ?thesis
      using assms(5,6) ok same i wire_partial(1) [OF ok(1) assms(5) i(1)]
      by (auto simp: handled_def watch_ok_due reply_of_def Status_def getClusterInfo_def marshal_def)
  next
    case (RqRemove req)
    obtain r1 s1 where h: "RemoveNode E c req (se_srv ss) = (r1, s1)"
      by (cases "RemoveNode E c req (se_srv ss)")
    note hk = RemoveNode_keeps [OF h] and ho = RemoveNode_ok [OF ok(1) assms(2,3,5) h]
    have "spec_step (defaults E) (Up S) (RqRemove req) (map_outcome (\<lambda>x. marshal x s1) r1) (abs_cluster s1)"
    proof (cases "rm_Name req \<in> S")
      case False
      then show ?thesis using ho(3) assms(5) by simp
    next
      case True
      then show ?thesis
      proof (cases r1)
        case (Ret j)
        have "j = Some i" "set (ci_NodeNames (info_at s1 i)) = S - {rm_Name req}"
          using ho(6) [OF Ret] info [OF hk(1)] by auto
        moreover have "abs_cluster s1 = Up (S - {rm_Name req})" using ho(4) [OF Ret] .
        ultimately show ?thesis
          using True Ret wire_partial(3) [OF ho(2) _ info [OF hk(1)]] hk(2) [OF Ret i]
          by (simp add: marshal_def)
      qed (use ho(1,5) in auto)
    qed
    then have "handled nms E ss rq (map_outcome (\<lambda>x. marshal x s1) r1) (ss\<lparr>se_srv := s1\<rparr>)"
      using handled_keeps [OF assms(1) hk(1) ho(1,2)] assms(5) RqRemove by simp
    then show ?thesis using assms(6) RqRemove h by (auto simp: reply_of_def)
  next
    case (RqRestart req)
    obtain sr ws where req: "rr_StartRequest req = Some sr" "sr_WhitelistedSubnets sr = Some ws"
      using assms(4) RqRestart by (auto split: option.splits)
    obtain r1 s1 where h: "RestartNode E c req (se_srv ss) = (r1, s1)"
      by (cases "RestartNode E c req (se_srv ss)")
    note hk = RestartNode_keeps [OF h] and ho = RestartNode_ok [OF ok(1) assms(2,3,5) h req]
    have "spec_step (defaults E) (Up S) (RqRestart req) (map_outcome (\<lambda>x. marshal x s1) r1) (Up S)"
    proof (cases "rr_Name req \<in> S")
      case False
      then show ?thesis using ho(4) by simp
    next
      case True
      then show ?thesis
        using hk(2) [OF _ i] wire_partial(2) [OF ho(2,3) info [OF hk(1)]] ho(1)
        by (cases r1) (auto simp: marshal_def)
    qed
    then have "handled nms E ss rq (map_outcome (\<lambda>x. marshal x s1) r1) (ss\<lparr>se_srv := s1\<rparr>)"
      using handled_keeps [OF assms(1) hk(1) ho(1,2)] assms(5) ho(3) RqRestart by simp
    then show ?thesis using assms(6) RqRestart h by (auto simp: reply_of_def)
  next
    case RqStop
    obtain r1 s1 where h: "Stop E (se_srv ss) = (r1, s1)" by (cases "Stop E (se_srv ss)")
    obtain n where st: "r1 = Ret i" "cluster_ok nms s1" "abs_cluster s1 = Down"
        "sv_closed s1 = sv_closed (se_srv ss)" "ci_Healthy (info_at s1 i) = False"
        "sv_network (se_srv ss) = Some n" "ln_stopc (net s1 n)"
      using Stop_ok [OF ok(1) assms(5) h] i(1) by auto
    have "sv_clusterInfo s1 = None"
      using st(2,3) store_okD(4) [of s1] by (simp add: cluster_ok_def abs_cluster_Down_iff)
    moreover have "ln_stopc (net s1 k)" if "se_watch ss = Some k" for k
      using that ok(3) i(1) st(6,7) by (auto simp: watch_ok_def split: if_splits)
    ultimately have "watch_due (ss\<lparr>se_srv := s1\<rparr>)" by (simp add: watch_due_def)
    then show ?thesis
      using assms(5,6) RqStop h st ok(2) by (auto simp: handled_def reply_of_def marshal_def wire_def Let_def)
  qed
qed

section \<open>The simulation\<close>

lemma handle_handled:
  assumes "session_ok nms ss" and "network_laws E nms" and "env_ok c" and "boots E"
    and "request_ok E rq" and "handle E c rq ss = (r, ss')"
  shows "handled nms E ss rq r ss'"
proof (cases "abs_cluster (se_srv ss)")
  case Down
  then show ?thesis
    using handled_down [OF assms(1) _ assms(6)] handled_start_down [OF assms(1-4)] assms(5,6)
    by (cases rq) auto
next
  case (Up S)
  show ?thesis using assms(1,2,3,5) Up assms(6) by (rule handled_up)
qed

lemma serve_ok:
  assumes "session_ok nms ss" and "network_laws E nms" and "env_ok c" and "boots E"
    and "request_ok E rq" and "serve E c rq ss = (r, ss')"
  shows "answered r" and "session_ok nms ss'"
    and "spec_step (defaults E) (abs_cluster (se_srv ss)) rq r (abs_cluster (se_srv ss'))"
proof -
  obtain r1 ss1 where h: "handle E c rq ss = (r1, ss1)" by (cases "handle E c rq ss")
  have hd: "handled nms E ss rq r1 ss1" using handle_handled [OF assms(1-5) h] .
  then obtain ss2 where "settle ss1 = (Ret (), ss2)" "session_ok nms ss2"
      "abs_cluster (se_srv ss2) = abs_cluster (se_srv ss1)"
    using settle_ok [of nms ss1] by (auto simp: handled_def)
  then show "answered r" and "session_ok nms ss'"
    and "spec_step (defaults E) (abs_cluster (se_srv ss)) rq r (abs_cluster (se_srv ss'))"
    using assms(6) h hd by (auto simp: serve_def handled_def)
qed

lemma conversation_ok:
  assumes "session_ok nms ss" and "network_laws E nms" and "boots E"
    and "\<forall>(c, rq) \<in> set script. env_ok c \<and> request_ok E rq"
    and "conversation E script ss = (rs, ss')"
  shows "session_ok nms ss' \<and> list_all answered rs \<and>
    spec_run (defaults E) (abs_cluster (se_srv ss)) (map snd script) rs (abs_cluster (se_srv ss'))"
  using assms(1,4,5)
proof (induction script arbitrary: ss rs ss')
  case Nil
  then show ?case by simp
next
  case (Cons a script)
  obtain c rq where a: "a = (c, rq)" by (cases a)
  obtain r ss1 where s1: "serve E c rq ss = (r, ss1)" by (cases "serve E c rq ss")
  obtain rs2 ss2 where s2: "conversation E script ss1 = (rs2, ss2)" by (cases "conversation E script ss1")
  have env: "env_ok c" "request_ok E rq" using Cons.prems(2) a by auto
  note ok = serve_ok [OF Cons.prems(1) assms(2) env(1) assms(3) env(2) s1]
  have "session_ok nms ss2 \<and> list_all answered rs2 \<and>
      spec_run (defaults E) (abs_cluster (se_srv ss1)) (map snd script) rs2 (abs_cluster (se_srv ss2))"
    using Cons.IH [OF ok(2) _ s2] Cons.prems(2) by simp
  then show ?case using Cons.prems(3) a s1 s2 ok(1,3) by auto
qed

end
