(* ===== verification/Sample.thy ===== *)
theory Sample
  imports Server
begin

text \<open>
  A concrete instance of the libraries, small enough to evaluate: the network is the list of the
  names of its nodes, every call succeeds, a node has a fixed address made of its name.  The
  theorems about the server are applied to it, which shows that their hypotheses on the libraries
  can hold.  It is an example, not a model of avalanche-network-runner.
\<close>

definition sample_config :: NodeConfig where
  "sample_config = \<lparr>nc_Name = [], nc_ConfigFile = [], nc_Impl = ImplNil\<rparr>"

definition sample_node :: "string \<Rightarrow> Node" where
  "sample_node x = \<lparr>nd_URL = ''127.0.0.1'', nd_APIPort = 9650, nd_NodeID = ''NodeID-'' @ x,
                    nd_APIClient = length x\<rparr>"

definition sample_ext :: "string list ext" where
  "sample_ext =
     \<lparr>x_DefaultConfig = None, x_MakeLogger = (\<lambda>_. None),
      x_NewDefaultConfig = (\<lambda>_. [sample_config, sample_config]),
      x_ToUpper = (\<lambda>s. s),
      x_NewNetwork = (\<lambda>cfgs. Inr (remdups (map nc_Name cfgs))),
      x_GetAllNodes = (\<lambda>nw. Inr (map (\<lambda>x. (x, sample_node x)) (remdups nw))),
      x_RemoveNode = (\<lambda>x nw. if x \<in> set nw then (None, removeAll x nw)
                            else (Some (ExtError ''unknown node''), nw)),
      x_AddNode = (\<lambda>c nw. (None, nw @ [nc_Name c])),
      x_Stop = (\<lambda>nw. (None, [])), x_Getpid = 42, x_Stat = (\<lambda>path. path \<noteq> [])\<rparr>"

definition sample_env :: call_env where
  "sample_env = \<lparr>ce_event = HReport None, ce_nodes = (\<lambda>m. m), ce_infos = (\<lambda>m. m),
                 ce_tempdir = Inr ''/tmp/root''\<rparr>"

definition sample_start :: StartRequest where
  "sample_start = \<lparr>sr_ExecPath = ''/bin/avalanchego'', sr_WhitelistedSubnets = Some ''s1'',
                   sr_LogLevel = None\<rparr>"

text \<open>A server that is up with two nodes, both healthy and published.\<close>

definition sample_entry :: "string \<Rightarrow> NodeInfo" where
  "sample_entry x =
     \<lparr>ni_Name = x, ni_ExecPath = ''/bin/avalanchego'', ni_Uri = node_uri (sample_node x),
      ni_Id = nd_NodeID (sample_node x), ni_LogDir = ''/tmp/root/'' @ x @ ''/log'',
      ni_DbDir = ''/tmp/root/'' @ x @ ''/db-dir'', ni_WhitelistedSubnets = ''s1'', ni_Config = []\<rparr>"

definition sample_local :: "string \<Rightarrow> NodeConfig" where
  "sample_local x =
     \<lparr>nc_Name = x, nc_ConfigFile = [],
      nc_Impl = ImplLocal \<lparr>lnc_BinaryPath = ''/bin/avalanchego'', lnc_Stdout = None, lnc_Stderr = None\<rparr>\<rparr>"

definition sample_net :: "string list localNetwork" where
  "sample_net =
     \<lparr>ln_binPath = ''/bin/avalanchego'', ln_cfg = [sample_local ''node1'', sample_local ''node2''],
      ln_nw = Some [''node1'', ''node2''], ln_nodeNames = [''node1'', ''node2''], ln_nodes = None,
      ln_nodeInfos = 0, ln_apiClis = [], ln_ready = \<lparr>oc_closed = True, oc_done = True\<rparr>,
      ln_stopc = False, ln_stopOnce = False, ln_donec = True, ln_errc = []\<rparr>"

definition sample_up :: "string list server" where
  "sample_up =
     \<lparr>sv_clusterInfo = Some 0, sv_network = Some 0, sv_closed = False,
      sv_infos = [\<lparr>ci_NodeNames = [''node1'', ''node2''], ci_NodeInfos = Some 0, ci_Pid = 42,
                   ci_RootDataDir = ''/tmp/root'', ci_Healthy = True\<rparr>],
      sv_maps = [[(''node1'', sample_entry ''node1''), (''node2'', sample_entry ''node2'')]],
      sv_nets = [sample_net], sv_dirs = [''/tmp/root'']\<rparr>"

lemma sample_up_simps [simp]:
  "sv_clusterInfo sample_up = Some 0" "sv_network sample_up = Some 0" "\<not> sv_closed sample_up"
  "net sample_up 0 = sample_net" "length (sv_nets sample_up) = 1" "length (sv_infos sample_up) = 1"
  "net sample_up (Suc 0 - Suc 0) = sample_net"
  "net_map sample_up 0 = [(''node1'', sample_entry ''node1''), (''node2'', sample_entry ''node2'')]"
  by (simp_all add: sample_up_def net_map_def sample_net_def)

end
