(* ===== verification/Server_Props.thy ===== *)
theory Server_Props
  imports Session_Ok Sample
begin

text \<open>
  The properties of the server between requests: it implements the abstract cluster, keeps its
  fields in agreement, and what the error paths leave behind.
\<close>

lemma sample_laws: "network_laws sample_ext set"
  by (auto simp: network_laws_def sample_ext_def gomap_ok_def comp_def image_image split: if_splits)

lemma sample_env_ok: "env_ok sample_env"
  by (simp add: env_ok_def sample_env_def visit_ok_id)

lemma sample_boots: "boots sample_ext"
  by (simp add: boots_def sample_ext_def)

lemma sample_valid: "valid_net 0 sample_up"
  by (simp add: valid_net_def sample_up_def sample_net_def once_ok_def)

lemma sample_up_ok: "cluster_ok set sample_up"
proof -
  have "store_ok sample_up"
    using sample_valid
    by (simp add: store_ok_def sample_up_def sample_net_def gomap_ok_def valid_net_def)
  moreover have "running set 0 sample_up"
    by (simp add: running_def sample_net_def sample_local_def)
  moreover have "published_ok 0 0 sample_up"
    by (simp add: published_ok_def sample_net_def) (simp add: sample_up_def)
  ultimately show ?thesis by (simp add: cluster_ok_def)
qed

section \<open>The server implements the abstract cluster\<close>

text \<open>C1: One request at a time: from the initial state, whatever the sequence of requests, and whatever
  the scheduler, the health checks and the orders of map visits decide, every request is answered
  without a panic and without waiting for ever, and the replies and the set of nodes follow the
  abstract machine of a cluster.  This is under the documented behaviour of the network library and
  when \<open>local.NewNetwork\<close> succeeds, a start has at most five default nodes, restart requests carry
  their optional fields, and the goroutines a request has begun run until they wait before the next
  request arrives; each of these is needed, as the properties of the interleaved process and of
  \<open>newNetwork\<close> show.\<close>

theorem server_implements_cluster:
  assumes "network_laws E nms" and "boots E"
    and "\<forall>(c, rq) \<in> set script. env_ok c \<and> request_ok E rq"
    and "conversation E script new_session = (rs, ss)"
  shows "length rs = length script \<and> list_all answered rs \<and>
    spec_run (defaults E) Down (map snd script) rs (abs_cluster (se_srv ss))"
proof -
  have down: "abs_cluster (se_srv (new_session :: 'a session)) = Down"
    by (simp add: new_session_def init_server_def abs_cluster_def)
  have run: "list_all answered rs \<and>
      spec_run (defaults E) Down (map snd script) rs (abs_cluster (se_srv ss))"
    using conversation_ok [OF session_ok_new assms] down by simp
  moreover have "spec_run d A rqs rs A' \<Longrightarrow> length rs = length rqs" for d A rqs rs A'
    by (induction d A rqs rs A' rule: spec_run.induct) auto
  ultimately show ?thesis by fastforce
qed

definition sample_script :: "(call_env \<times> request) list" where
  "sample_script =
     map (Pair sample_env)
       [RqStatus, RqStart sample_start, RqHealth, RqRemove \<lparr>rm_Name = ''node1''\<rparr>,
        RqRestart \<lparr>rr_Name = ''node2'', rr_StartRequest = Some sample_start\<rparr>, RqURIs, RqStop]"

lemma server_implements_cluster_witness:
  "let (rs, ss) = conversation sample_ext sample_script new_session
   in length rs = 7 \<and> list_all answered rs \<and>
      spec_run (defaults sample_ext) Down (map snd sample_script) rs (abs_cluster (se_srv ss))"
proof -
  obtain rs ss where c: "conversation sample_ext sample_script new_session = (rs, ss)"
    by (cases "conversation sample_ext sample_script (new_session :: string list session)")
  have ok: "\<forall>(c, rq) \<in> set sample_script. env_ok c \<and> request_ok sample_ext rq"
    by (simp add: sample_script_def sample_env_ok sample_start_def)
       (simp add: sample_ext_def colors_def)
  show ?thesis
    using server_implements_cluster [OF sample_laws sample_boots ok c] c
    by (simp add: sample_script_def)
qed

text \<open>C9: After any conversation the fields of the server agree: there is a network exactly when
  there is cluster information; the information says healthy exactly when the ready channel of the
  network is closed, and then it publishes the map of the network and an enumeration of its keys.\<close>

theorem server_fields_agree:
  assumes "network_laws E nms" and "boots E"
    and "\<forall>(c, rq) \<in> set script. env_ok c \<and> request_ok E rq"
    and "conversation E script new_session = (rs, ss)" and "s = se_srv ss"
  shows "(sv_network s = None \<longleftrightarrow> sv_clusterInfo s = None) \<and>
    (\<forall>i n. sv_clusterInfo s = Some i \<and> sv_network s = Some n \<longrightarrow>
       ci_Healthy (info_at s i) = oc_closed (ln_ready (net s n)) \<and>
       (ci_Healthy (info_at s i) \<longrightarrow>
          ci_NodeInfos (info_at s i) = Some (ln_nodeInfos (net s n)) \<and>
          mset (ci_NodeNames (info_at s i)) = mset (map fst (net_map s n))))"
proof -
  have ok: "session_ok nms ss"
    using conversation_ok [OF session_ok_new assms(1-4)] by simp
  have "sv_network s = None \<longleftrightarrow> sv_clusterInfo s = None"
    using store_okD(4) [OF session_okD(5) [OF ok]] assms(5) by simp
  moreover have "running nms n s \<and> published_ok i n s" if "sv_clusterInfo s = Some i" "sv_network s = Some n" for i n
    using session_okD(1) [OF ok] that assms(5) by (simp add: cluster_ok_def)
  ultimately show ?thesis
    using session_okD(4) [OF ok] assms(5) by (auto simp: settled_def published_ok_def)
qed

text \<open>C14: A wait that succeeds has closed the ready channel and stored, for every node the network
  reported, its address, its identity and its API client; all other fields of all entries and the
  entries of other nodes are as before.\<close>

theorem waitForHealthy_publishes:
  assumes "valid_net n s" and "visit_ok (ce_nodes c)" and "ln_nw (net s n) = Some nw"
    and "x_GetAllNodes E nw = Inr nodes" and "gomap_ok nodes"
    and "waitForHealthy E c n s = (Ret (), s')"
  shows "oc_closed (ln_ready (net s' n)) \<and> ln_nodes (net s' n) = Some nodes \<and>
    map_of (net_map s' n) x =
      (case map_of nodes x of
         None \<Rightarrow> map_of (net_map s n) x
       | Some nd \<Rightarrow> map_option (\<lambda>ni. ni\<lparr>ni_Uri := node_uri nd, ni_Id := nd_NodeID nd\<rparr>)
                       (map_of (net_map s n) x)) \<and>
    map_of (ln_apiClis (net s' n)) x =
      (case map_of nodes x of
         None \<Rightarrow> map_of (ln_apiClis (net s n)) x
       | Some nd \<Rightarrow> Some (nd_APIClient nd))"
proof -
  have s': "s' = healthy_state c n nodes s" and sub: "keys nodes \<subseteq> keys (net_map s n)"
    using assms(3,4,6) waitForHealthy_eq [OF assms(1,2), of E]
    by (auto split: outcome.splits if_splits)
  have entry: "node_entry nd = (\<lambda>ni. ni\<lparr>ni_Uri := node_uri nd, ni_Id := nd_NodeID nd\<rparr>)" for nd
    by (simp add: node_entry_def fun_eq_iff)
  show ?thesis
    using healthy_state_entries [OF assms(1,2,5) sub] by (simp add: s' entry cong: option.case_cong)
qed

lemma waitForHealthy_publishes_witness:
  "oc_closed (ln_ready (net (snd (waitForHealthy sample_ext sample_env 0 sample_up)) 0)) \<and>
   map_of (net_map (snd (waitForHealthy sample_ext sample_env 0 sample_up)) 0) ''node1'' =
     Some (sample_entry ''node1'')"
proof -
  let ?nodes = "[(''node1'', sample_node ''node1''), (''node2'', sample_node ''node2'')]"
  have nodes: "x_GetAllNodes sample_ext [''node1'', ''node2''] = Inr ?nodes"
    by (simp add: sample_ext_def)
  have vis: "visit_ok (ce_nodes sample_env)" using sample_env_ok by (simp add: env_ok_def)
  have nw: "ln_nw (net sample_up 0) = Some [''node1'', ''node2'']" by (simp add: sample_net_def)
  have w: "waitForHealthy sample_ext sample_env 0 sample_up = (Ret (), healthy_state sample_env 0 ?nodes sample_up)"
    using nodes nw by (simp add: waitForHealthy_eq [OF sample_valid vis]) (simp add: sample_env_def)
  show ?thesis
    using waitForHealthy_publishes [OF sample_valid vis nw nodes _ w, of "''node1''"]
    by (simp add: w gomap_ok_def sample_entry_def)
qed

text \<open>The order in which the loop of the wait visits the nodes makes no difference to its result,
  to the addresses, identities and API clients it stores, or to the ready channel.\<close>

theorem waitForHealthy_visit_order:
  assumes "valid_net n s" and "visit_ok (ce_nodes c1)" and "visit_ok (ce_nodes c2)"
    and "ce_event c1 = ce_event c2"
    and "\<And>nw nodes. x_GetAllNodes E nw = Inr nodes \<Longrightarrow> gomap_ok nodes"
    and "waitForHealthy E c1 n s = (r1, s1)" and "waitForHealthy E c2 n s = (r2, s2)"
    and "r1 \<noteq> Panic"
  shows "r2 = r1 \<and> map_of (net_map s2 n) = map_of (net_map s1 n) \<and>
    map_of (ln_apiClis (net s2 n)) = map_of (ln_apiClis (net s1 n)) \<and>
    oc_closed (ln_ready (net s2 n)) = oc_closed (ln_ready (net s1 n))"
proof -
  note eqs = waitForHealthy_eq [OF assms(1,2), of E] waitForHealthy_eq [OF assms(1,3), of E]
  have "r2 = r1 \<and> ((s1 = s \<and> s2 = s) \<or>
          (\<exists>nw nodes. x_GetAllNodes E nw = Inr nodes \<and> keys nodes \<subseteq> keys (net_map s n) \<and>
             s1 = healthy_state c1 n nodes s \<and> s2 = healthy_state c2 n nodes s))"
    using assms(4,6-8)
    by (simp add: eqs split: option.splits outcome.splits sum.splits if_splits) metis+
  then show ?thesis
    using healthy_state_entries [OF assms(1,2) assms(5)] healthy_state_entries [OF assms(1,3) assms(5)]
    by (auto simp: fun_eq_iff)
qed

lemma waitForHealthy_visit_order_witness:
  "map_of (net_map (snd (waitForHealthy sample_ext (sample_env\<lparr>ce_nodes := rev\<rparr>) 0 sample_up)) 0) =
   map_of (net_map (snd (waitForHealthy sample_ext sample_env 0 sample_up)) 0)"
proof -
  have vis: "visit_ok (ce_nodes sample_env)" "visit_ok (ce_nodes (sample_env\<lparr>ce_nodes := rev\<rparr>))"
    by (simp_all add: sample_env_def visit_ok_id visit_ok_rev)
  have "fst (waitForHealthy sample_ext sample_env 0 sample_up) \<noteq> Panic"
    by (simp add: waitForHealthy_eq [OF sample_valid vis(1)] sample_net_def)
       (simp add: sample_env_def sample_ext_def)
  then show ?thesis
    using waitForHealthy_visit_order [OF sample_valid vis _ _ prod.collapse [symmetric] prod.collapse [symmetric],
        of sample_ext]
    by (simp add: sample_ext_def gomap_ok_def comp_def)
qed

end
