(* ===== verification/Handler_Props.thy ===== *)
theory Handler_Props
  imports Server_Props
begin

text \<open>
  Properties of single handlers: the network \<open>newNetwork\<close> builds, what a failed \<open>Start\<close> leaves
  behind, a start whose network cannot be created, a restart that fails half-way and one that
  succeeds, and the addresses after a healthy report.
\<close>

section \<open>\<open>newNetwork\<close>\<close>

text \<open>C15: A new network has the nodes \<open>node1\<close>, \<open>node2\<close>, ... one for each default configuration, in
  this order in its configuration and in its list of names; its map has exactly these names, each
  with the executable, the subnets and directories below the root that no two nodes share; the
  configuration file of a node is the one its entry shows.\<close>

theorem newNetwork_builds:
  assumes "newNetwork E execPath root ws lvl s = (Ret n, s')" and "root \<noteq> []"
    and "N = length (x_NewDefaultConfig E execPath)"
    and "level = strings_ToUpper (x_ToUpper E) (if lvl = [] then ''INFO'' else lvl)"
  shows "map nc_Name (ln_cfg (net s' n)) = map node_name [0..<N] \<and>
    ln_nodeNames (net s' n) = map node_name [0..<N] \<and>
    keys (net_map s' n) = node_name ` {..<N} \<and>
    (\<forall>k<N. \<exists>ni. map_of (net_map s' n) (node_name k) = Some ni \<and>
       ni_Name ni = node_name k \<and> ni_ExecPath ni = execPath \<and> ni_WhitelistedSubnets ni = ws \<and>
       ni_Config ni = config_file level (ni_LogDir ni) (ni_DbDir ni) ws \<and>
       nc_ConfigFile (ln_cfg (net s' n) ! k) = ni_Config ni \<and>
       (\<forall>j<N. \<forall>nj. map_of (net_map s' n) (node_name j) = Some nj \<longrightarrow>
          ni_LogDir ni \<noteq> ni_DbDir nj \<and>
          (ni_LogDir ni = ni_LogDir nj \<or> ni_DbDir ni = ni_DbDir nj \<longrightarrow> j = k)))"
proof -
  obtain cfgs' names infos where
    loop: "newNetwork_loop execPath root ws level N 0 (x_NewDefaultConfig E execPath) []
       = Some (cfgs', names, infos)"
    and net: "ln_cfg (net s' n) = cfgs'" "ln_nodeNames (net s' n) = names" "net_map s' n = infos"
    using assms(1) by (rule newNetwork_Ret) (auto simp: net_map_def assms(3,4))
  have names: "names = map node_name [0..<N]" "map nc_Name cfgs' = names"
    using newNetwork_loop_names [OF loop] assms(3) by simp_all
  have entry: "map_of infos (node_name k) = Some (node_info execPath root ws level k)" if "k < N" for k
    using newNetwork_loop_map [OF loop, of "node_name k"] that assms(3) by auto
  have cfg: "nc_ConfigFile (cfgs' ! k) = ni_Config (node_info execPath root ws level k)" if "k < N" for k
    using newNetwork_loop_config [OF loop, of k] that assms(3) by simp
  have "keys infos = node_name ` {..<N}"
    using newNetwork_loop_keys [OF loop] names(1) by auto
  then show ?thesis
    using names entry cfg node_dirs_inj [OF assms(2)]
    by (auto simp: net node_info_def Let_def)
qed

lemma node_name_samples: "map node_name [0..<2] = [''node1'', ''node2'']"
proof -
  have "char_of (of_char (CHR ''1'') :: nat) = CHR ''1''" "char_of (of_char (CHR ''2'') :: nat) = CHR ''2''"
    by (rule char_of_char)+
  then have "digit_char 1 = CHR ''1''" "digit_char 2 = CHR ''2''" by (simp_all add: digit_char_def)
  then show ?thesis by (simp add: node_name_def show_nat.simps numeral_2_eq_2 [symmetric] upt_rec)
qed

lemma newNetwork_builds_witness:
  "\<exists>s'. newNetwork sample_ext ''/bin/a'' ''/tmp/r'' [] [] init_server = (Ret 0, s') \<and>
        ln_nodeNames (net s' 0) = [''node1'', ''node2'']"
proof -
  obtain r s' where n: "newNetwork sample_ext ''/bin/a'' ''/tmp/r'' [] [] init_server = (r, s')"
    by (cases "newNetwork sample_ext ''/bin/a'' ''/tmp/r'' [] [] (init_server :: string list server)")
  have "r \<noteq> Panic"
    using newNetwork_Panic_iff [of sample_ext "''/tmp/r''" "''/bin/a''" "[]" "[]" init_server] n
    by (simp add: sample_ext_def colors_def)
  then have "r = Ret 0"
    using n by (auto simp: newNetwork_def sample_ext_def init_server_def Let_def split: option.splits)
  moreover have "length (x_NewDefaultConfig sample_ext ''/bin/a'') = 2" by (simp add: sample_ext_def)
  ultimately show ?thesis
    using n newNetwork_builds [of sample_ext "''/bin/a''" "''/tmp/r''" "[]" "[]" init_server 0 s' 2]
    by (simp only: node_name_samples) blast
qed

text \<open>C35: Building the network panics exactly when there are more default configurations than
  colours: the index of the colour is taken modulo the number of nodes.\<close>

theorem newNetwork_panics_iff:
  assumes "x_DefaultConfig E = None" and "x_MakeLogger E root = None"
  shows "fst (newNetwork E execPath root ws lvl s) = Panic \<longleftrightarrow>
         5 < length (x_NewDefaultConfig E execPath)"
  using newNetwork_Panic_iff [OF assms] by (simp add: colors_def numeral_eq_Suc)

lemma newNetwork_panics_iff_witness:
  "fst (newNetwork (sample_ext\<lparr>x_NewDefaultConfig := \<lambda>_. replicate 6 sample_config\<rparr>)
          ''/bin/a'' ''/tmp/r'' [] [] init_server) = Panic"
  by (subst newNetwork_panics_iff) (simp_all add: sample_ext_def)

section \<open>\<open>Start\<close>\<close>

text \<open>A start that fails on a server that is down, after the data directory was created, leaves
  the server as it was, except that the directory stays behind; this covers a binary that does not
  exist and every error of \<open>newNetwork\<close>.\<close>

theorem failed_Start_leaves_directory:
  assumes "sv_clusterInfo s = None" and "sv_network s = None" and "ce_tempdir c = Inr dir"
    and "Start E c req s = (Fail e, s')"
  shows "s' = s\<lparr>sv_dirs := sv_dirs s @ [dir]\<rparr> \<and> (\<not> x_Stat E (sr_ExecPath req) \<longrightarrow> e = ErrNotExists)"
proof (cases "x_Stat E (sr_ExecPath req)")
  case False
  then show ?thesis
    using assms by (simp add: Start_def start_prepare_def getClusterInfo_def Let_def)
next
  case True
  let ?s = "s\<lparr>sv_dirs := sv_dirs s @ [dir]\<rparr>"
  let ?args = "newNetwork E (sr_ExecPath req) dir (StartRequest_GetWhitelistedSubnets (Some req))
                 (StartRequest_GetLogLevel (Some req)) ?s"
  obtain r1 s1 where nn: "?args = (r1, s1)" by (cases ?args)
  have "(Fail e, s') = start_locked E dir req ?s"
    using assms True by (simp add: Start_def start_prepare_def getClusterInfo_def Let_def)
  then have "r1 = Fail e" "s' = s1\<lparr>sv_network := None\<rparr>"
    using nn assms(2) by (cases r1; simp add: start_locked_def Let_def)+
  moreover have "s1 = ?s" using newNetwork_other [OF nn] calculation(1) by simp
  moreover have "?s\<lparr>sv_network := None\<rparr> = ?s" using assms(2) by (cases s) simp
  ultimately show ?thesis using True by simp
qed

lemma failed_Start_leaves_directory_witness:
  "Start sample_ext sample_env (sample_start\<lparr>sr_ExecPath := []\<rparr>) init_server =
     (Fail ErrNotExists, init_server\<lparr>sv_dirs := [''/tmp/root'']\<rparr>)"
proof -
  obtain s' where s': "Start sample_ext sample_env (sample_start\<lparr>sr_ExecPath := []\<rparr>) init_server =
      (Fail ErrNotExists, s')"
    by (simp add: Start_def start_prepare_def getClusterInfo_def init_server_def sample_env_def
                  sample_ext_def Let_def)
  have "s' = init_server\<lparr>sv_dirs := [''/tmp/root'']\<rparr>"
    using failed_Start_leaves_directory [OF _ _ _ s', of "''/tmp/root''"]
    by (simp add: init_server_def sample_env_def)
  with s' show ?thesis by simp
qed

text \<open>When \<open>local.NewNetwork\<close> fails, the goroutine of \<open>Start\<close> stores the error where nothing reads
  it and ends; the server counts as bootstrapped, and every \<open>Health\<close>, every \<open>Stop\<close> and every
  \<open>RemoveNode\<close> of a known node panics on the nil network.\<close>

theorem failed_boot_panics:
  assumes "fresh n s" and "sv_network s = Some n" and "sv_clusterInfo s = Some i"
    and "x_NewNetwork E (ln_cfg (net s n)) = Inl e"
  shows "\<exists>s'. localNetwork_start E c n s = (Ret (), s') \<and>
    ln_errc (net s' n) = [e] \<and> Status s' = Ret i \<and>
    fst (Health E c s') = Panic \<and> fst (Stop E s') = Panic \<and>
    (\<forall>x \<in> keys (net_map s n). fst (RemoveNode E c \<lparr>rm_Name = x\<rparr> s') = Panic)"
proof -
  let ?s = "upd_net n (start_done [e]) s"
  have valid: "n < length (sv_nets s)" "valid_net n s" using assms(1) by (simp_all add: fresh_def valid_net_def)
  have net: "net ?s n = start_done [e] (net s n)" using valid by simp
  have nil: "ln_nw (net ?s n) = None" "ln_errc (net ?s n) = [e]" "\<not> ln_stopOnce (net ?s n)"
      "\<not> ln_stopc (net ?s n)"
    using assms(1) by (simp_all add: net start_done_def fresh_def)
  have same: "sv_network ?s = Some n" "sv_clusterInfo ?s = Some i" "net_map ?s n = net_map s n"
    using assms(2,3) by (simp_all add: net_map_upd_net start_done_def)
  have "localNetwork_start E c n s = (Ret (), ?s)"
    using assms(4) by (simp add: localNetwork_start_def start_create_def)
  moreover have "fst (Health E c ?s) = Panic"
    using same nil by (simp add: Health_def health_enter_def getClusterInfo_def waitForHealthy_def wfh_enter_def)
  moreover have "fst (Stop E ?s) = Panic"
    using same nil valid
    by (simp add: Stop_def getClusterInfo_def stop_locked_def stop_begin_def Let_def)
  moreover have "fst (RemoveNode E c \<lparr>rm_Name = x\<rparr> ?s) = Panic" if "x \<in> keys (net_map s n)" for x
    using same nil map_of_keys_Some [OF that]
    by (auto simp: RemoveNode_def getClusterInfo_def remove_locked_def)
  ultimately show ?thesis
    using same nil(2) by (auto simp: Status_def getClusterInfo_def)
qed

definition sample_fresh :: "string list server" where
  "sample_fresh = sample_up\<lparr>sv_nets := [sample_net\<lparr>ln_nw := None, ln_donec := False,
     ln_ready := new_once_chan\<rparr>]\<rparr>"

lemma failed_boot_panics_witness:
  "\<exists>s'. localNetwork_start (sample_ext\<lparr>x_NewNetwork := \<lambda>_. Inl (ExtError ''no port'')\<rparr>) sample_env 0
          sample_fresh = (Ret (), s') \<and>
        fst (Health (sample_ext\<lparr>x_NewNetwork := \<lambda>_. Inl (ExtError ''no port'')\<rparr>) sample_env s') = Panic"
proof -
  have "fresh 0 sample_fresh"
    by (simp add: fresh_def sample_fresh_def sample_up_def sample_net_def valid_net_def net_map_def
                  sample_local_def new_once_chan_def once_ok_def)
  then show ?thesis
    using failed_boot_panics [of 0 sample_fresh 0 "sample_ext\<lparr>x_NewNetwork := \<lambda>_. Inl (ExtError ''no port'')\<rparr>"
        "ExtError ''no port''" sample_env]
    by (auto simp: sample_fresh_def)
qed

section \<open>The addresses of a healthy cluster\<close>

lemma sort_mset_eq: "mset xs = mset ys \<Longrightarrow> sort xs = sort ys"
  by (metis sorted_list_of_multiset_mset)

lemma map_snd_by_keys:
  assumes "gomap_ok m" and "\<And>x v. map_of m x = Some v \<Longrightarrow> g v = f x"
  shows "map (\<lambda>(x, v). g v) m = map f (map fst m)"
  using assms by (auto simp: gomap_ok_def)

lemma same_values:
  assumes "gomap_ok m" and "gomap_ok nodes" and "keys nodes = keys m"
    and "\<And>x v nd. map_of m x = Some v \<Longrightarrow> map_of nodes x = Some nd \<Longrightarrow> g v = h nd"
  shows "mset (map (\<lambda>(x, v). g v) m) = mset (map (\<lambda>(x, nd). h nd) nodes)"
proof -
  define f where "f x = h (the (map_of nodes x))" for x
  have "g v = f x" if "map_of m x = Some v" for x v
  proof -
    have "x \<in> keys nodes" using assms(3) map_of_in_keys [OF that] by simp
    then obtain nd where "map_of nodes x = Some nd" using map_of_keys_Some by fastforce
    then show ?thesis using assms(4) [OF that] by (simp add: f_def)
  qed
  then have "map (\<lambda>(x, v). g v) m = map f (map fst m)"
    by (intro map_snd_by_keys assms(1))
  moreover have "map (\<lambda>(x, nd). h nd) nodes = map f (map fst nodes)"
    by (intro map_snd_by_keys assms(2)) (simp add: f_def)
  moreover have "mset (map fst nodes) = mset (map fst m)"
    using assms(1-3) by (intro gomap_same_keys) auto
  then have "mset (map f (map fst nodes)) = mset (map f (map fst m))"
    unfolding mset_map [of f] by (rule arg_cong)
  ultimately show ?thesis by (simp only:)
qed

text \<open>C13: After a health request that succeeded while every known node was running, the addresses a
  client gets are exactly the addresses of the running nodes, sorted, whatever the orders in which
  the maps were visited.\<close>

theorem Health_then_URIs:
  assumes "cluster_ok nms s" and "network_laws E nms" and "env_ok c" and "env_ok c'"
    and "sv_network s = Some n" and "ln_nw (net s n) = Some nw"
    and "x_GetAllNodes E nw = Inr nodes" and "keys nodes = keys (net_map s n)"
    and "Health E c s = (Ret j, s')"
  shows "URIs c' s' = Ret \<lparr>ur_Uris = sort (map (\<lambda>(x, nd). node_uri nd) nodes)\<rparr>"
proof -
  obtain i where i: "sv_clusterInfo s = Some i"
    using assms(1,5) by (cases "sv_clusterInfo s") (auto simp: cluster_ok_def store_ok_def)
  have valid: "valid_net n s" and st: "store_ok s"
    using assms(1,5) by (auto simp: cluster_ok_def dest: store_okD(2))
  have nodes: "gomap_ok nodes" using network_lawsD(2) [OF assms(2,7)] by simp
  obtain s1 where w: "waitForHealthy E c n s = (Ret (), s1)" and h: "health_locked c s1 = (Ret j, s')"
    using assms(5,9) i by (auto simp: Health_def health_enter_def getClusterInfo_def split: and_then_split_asm)
  note wait = wait_ok [OF assms(1,2,3,5) w]
  obtain k s2 where l: "health_locked c s1 = (Ret (Some k), s2)" "cluster_ok nms s2" "sv_clusterInfo s1 = Some k"
      "ci_NodeInfos (info_at s2 k) = Some (ln_nodeInfos (net s1 n))" "sv_maps s2 = sv_maps s1"
    using health_locked_ok [OF wait(2,3) assms(3)] by auto
  have k: "sv_clusterInfo s' = Some k" "s2 = s'"
    using l(1) h by (auto simp: health_locked_def Let_def split: option.splits)
  have m: "map_at s' (ci_NodeInfos (info_at s' k)) = net_map s1 n"
    using l(4,5) k(2) by (simp add: map_at_def net_map_def)
  have vis: "visit_ok (ce_nodes c)" using assms(3) by (simp add: env_ok_def)
  have entries: "map_of (net_map s1 n) x =
      (case map_of nodes x of None \<Rightarrow> map_of (net_map s n) x
       | Some nd \<Rightarrow> map_option (node_entry nd) (map_of (net_map s n) x))" for x
    using waitForHealthy_eq [OF valid vis, of E] w assms(6-8)
      healthy_state_entries(1) [OF valid vis nodes, of x] by (auto split: outcome.splits)
  have keys1: "keys nodes = keys (net_map s1 n)"
    using wait(6) assms(8) map_frame_keys [of "net_map s n" "net_map s1 n"] by (simp add: wait_frame_def)
  have ok1: "gomap_ok (net_map s1 n)"
    using wait(2) wait_frame_valid [OF wait(6) valid]
    by (simp add: cluster_ok_def store_ok_def valid_net_def net_map_def)
  have "mset (map (\<lambda>(x, ni). ni_Uri ni) (net_map s1 n)) = mset (map (\<lambda>(x, nd). node_uri nd) nodes)"
    by (rule same_values [OF ok1 nodes keys1]) (auto simp: entries node_entry_def)
  moreover have "mset (map (\<lambda>(x, ni). ni_Uri ni) (ce_infos c' (net_map s1 n))) =
      mset (map (\<lambda>(x, ni). ni_Uri ni) (net_map s1 n))"
    using assms(4) by (simp add: env_ok_def visit_mset)
  ultimately have "sort (map (\<lambda>(x, ni). ni_Uri ni) (ce_infos c' (net_map s1 n))) =
      sort (map (\<lambda>(x, nd). node_uri nd) nodes)" by (intro sort_mset_eq) simp
  then show ?thesis
    using k(1) m by (simp add: URIs_def URIs_collect_def getClusterInfo_def Let_def)
qed

lemma Health_then_URIs_witness:
  "\<exists>s'. Health sample_ext sample_env sample_up = (Ret (Some 0), s') \<and>
        URIs (sample_env\<lparr>ce_infos := rev\<rparr>) s' =
          Ret \<lparr>ur_Uris = sort [node_uri (sample_node ''node1''), node_uri (sample_node ''node2'')]\<rparr>"
proof -
  let ?nodes = "[(''node1'', sample_node ''node1''), (''node2'', sample_node ''node2'')]"
  have nw: "ln_nw (net sample_up 0) = Some [''node1'', ''node2'']" by (simp add: sample_net_def)
  have nodes: "x_GetAllNodes sample_ext [''node1'', ''node2''] = Inr ?nodes" by (simp add: sample_ext_def)
  have vis: "visit_ok (ce_nodes sample_env)" using sample_env_ok by (simp add: env_ok_def)
  have "fst (waitForHealthy sample_ext sample_env 0 sample_up) = Ret ()"
    using nodes nw by (simp add: waitForHealthy_eq [OF sample_valid vis]) (simp add: sample_env_def)
  then obtain s1 where w: "waitForHealthy sample_ext sample_env 0 sample_up = (Ret (), s1)"
    by (metis prod.collapse)
  have s1: "sv_network s1 = Some 0" "sv_clusterInfo s1 = Some 0"
    using waitForHealthy_keeps(1) [OF w] by (simp_all add: keeps_def)
  then obtain s' where "health_locked sample_env s1 = (Ret (Some 0), s')"
    by (simp add: health_locked_def Let_def)
  then have h: "Health sample_ext sample_env sample_up = (Ret (Some 0), s')"
    using w by (simp add: Health_def health_enter_def getClusterInfo_def)
  have env: "env_ok (sample_env\<lparr>ce_infos := rev\<rparr>)"
    by (simp add: env_ok_def sample_env_def visit_ok_id visit_ok_rev)
  show ?thesis
    using Health_then_URIs [OF sample_up_ok sample_laws sample_env_ok env _ nw nodes _ h] h by simp
qed

end
