(* ===== verification/Restart_Props.thy ===== *)
theory Restart_Props
  imports Server_Props
begin

text \<open>
  \<open>RestartNode\<close> step by step: what it has changed when it succeeds, and what it has changed
  already when a later step fails.
\<close>

section \<open>The steps of a restart\<close>

text \<open>The entry of the node after the assignments of \<open>ExecPath\<close> and \<open>WhitelistedSubnets\<close>.\<close>

definition renewed :: "string \<Rightarrow> string \<Rightarrow> NodeInfo \<Rightarrow> NodeInfo" where
  "renewed path ws ni = ni\<lparr>ni_ExecPath := path, ni_WhitelistedSubnets := ws\<rparr>"

lemma restart_update_eq:
  assumes "valid_net n s" and "map_of (net_map s n) (rr_Name req) = Some ni"
    and "rr_StartRequest req = Some sr" and "sr_WhitelistedSubnets sr = Some ws"
  shows "\<exists>s2. restart_update req n s = (Ret (renewed (sr_ExecPath sr) ws ni), s2) \<and>
    sv_nets s2 = sv_nets s \<and> sv_network s2 = sv_network s \<and> sv_clusterInfo s2 = sv_clusterInfo s \<and>
    length (sv_maps s2) = length (sv_maps s) \<and>
    (\<forall>x. map_of (net_map s2 n) x =
       (if x = rr_Name req then Some (renewed (sr_ExecPath sr) ws ni) else map_of (net_map s n) x))"
proof -
  let ?m = "ln_nodeInfos (net s n)"
  let ?s1 = "upd_map ?m (set_entry (rr_Name req) (\<lambda>ni. ni\<lparr>ni_ExecPath := sr_ExecPath sr\<rparr>)) s"
  let ?s2 = "upd_map ?m (set_entry (rr_Name req) (\<lambda>ni. ni\<lparr>ni_WhitelistedSubnets := ws\<rparr>)) ?s1"
  have "net_map ?s2 n = set_entry (rr_Name req) (\<lambda>ni. ni\<lparr>ni_WhitelistedSubnets := ws\<rparr>)
      (set_entry (rr_Name req) (\<lambda>ni. ni\<lparr>ni_ExecPath := sr_ExecPath sr\<rparr>) (net_map s n))"
    using assms(1) net_map_upd_map [of n ?s1] net_map_upd_map [of n s] by simp
  then have "map_of (net_map ?s2 n) x =
      (if x = rr_Name req then Some (renewed (sr_ExecPath sr) ws ni) else map_of (net_map s n) x)" for x
    using assms(2) by (simp add: set_entry_map_of renewed_def)
  then show ?thesis using assms(3,4) by (simp add: restart_update_def Let_def)
qed

lemma restart_swap_eq:
  assumes "n < length (sv_nets s)" and "restart_swap E x n cfg s = (r, s')" and "ln_nw (net s n) \<noteq> None"
  shows "\<exists>nw. s' = set_nw n nw s"
  using assms by (auto simp: restart_swap_def split: option.splits prod.splits)

text \<open>What has happened when \<open>RestartNode\<close> begins to exchange the node in the network.\<close>

lemma RestartNode_until_swap:
  assumes "sv_network s = Some n" and "sv_clusterInfo s = Some i" and "valid_net n s"
    and "map_of (net_map s n) (rr_Name req) = Some ni"
    and "find_config (rr_Name req) 0 (ln_cfg (net s n)) = Some (idx, old)"
    and "rr_StartRequest req = Some sr" and "sr_WhitelistedSubnets sr = Some ws"
    and "nc_Impl old = ImplLocal l" and "ln_nw (net s n) \<noteq> None"
    and "new = old\<lparr>nc_ConfigFile := restart_config_file (ni_LogDir ni) (ni_DbDir ni) ws,
                   nc_Impl := ImplLocal (l\<lparr>lnc_BinaryPath := sr_ExecPath sr\<rparr>)\<rparr>"
  obtains s2 r3 s3 where "restart_swap E (rr_Name req) n new s2 = (r3, s3)"
    and "RestartNode E c req s = and_then (r3, s3) (\<lambda>_ s3. and_then (waitForHealthy E c n s3)
           (\<lambda>_ s4. restart_finish idx new s4))"
    and "sv_nets s2 = sv_nets s" and "valid_net n s3" and "sv_network s3 = Some n"
    and "sv_clusterInfo s3 = Some i" and "ln_cfg (net s3 n) = ln_cfg (net s n)"
    and "\<forall>x. map_of (net_map s3 n) x =
           (if x = rr_Name req then Some (renewed (sr_ExecPath sr) ws ni) else map_of (net_map s n) x)"
proof -
  obtain s2 where s2: "restart_update req n s = (Ret (renewed (sr_ExecPath sr) ws ni), s2)"
      "sv_nets s2 = sv_nets s" "sv_network s2 = Some n" "sv_clusterInfo s2 = Some i"
      "length (sv_maps s2) = length (sv_maps s)"
      "\<And>x. map_of (net_map s2 n) x =
         (if x = rr_Name req then Some (renewed (sr_ExecPath sr) ws ni) else map_of (net_map s n) x)"
    using restart_update_eq [OF assms(3,4,6,7)] assms(1,2) by auto
  obtain r3 s3 where sw: "restart_swap E (rr_Name req) n new s2 = (r3, s3)"
    by (cases "restart_swap E (rr_Name req) n new s2")
  have valid2: "valid_net n s2" using assms(3) s2(2,5) by (simp add: valid_net_def)
  obtain nw where s3: "s3 = set_nw n nw s2"
    using restart_swap_eq [OF valid_netD(1) [OF valid2] sw] assms(9) s2(2) by auto
  have find: "restart_find (rr_Name req) s = Ret (n, idx, old)"
    using assms(1,4,5) by (simp add: restart_find_def)
  have cfg: "restart_config (renewed (sr_ExecPath sr) ws ni) old = Ret new"
    using assms(8,10) by (simp add: restart_config_def renewed_def Let_def)
  have "RestartNode E c req s = and_then (r3, s3) (\<lambda>_ s3. and_then (waitForHealthy E c n s3)
           (\<lambda>_ s4. restart_finish idx new s4))"
    using assms(2) find s2(1) cfg sw
    by (cases r3) (simp_all add: RestartNode_def getClusterInfo_def restart_locked_def)
  then show thesis
    using that [OF sw] s2 valid2 by (simp add: s3)
qed

section \<open>Properties\<close>

text \<open>C36: A restart whose node cannot be removed from the running network, or cannot be added again,
  fails with that error, but the entry of the node that all clients see already shows the new
  executable and the new subnets, while the configuration kept for the node is the old one.\<close>

theorem failed_RestartNode_keeps_new_entry:
  assumes "sv_network s = Some n" and "sv_clusterInfo s = Some i" and "valid_net n s"
    and "map_of (net_map s n) (rr_Name req) = Some ni"
    and "find_config (rr_Name req) 0 (ln_cfg (net s n)) = Some (idx, old)"
    and "rr_StartRequest req = Some sr" and "sr_WhitelistedSubnets sr = Some ws"
    and "nc_Impl old = ImplLocal l" and "ln_nw (net s n) = Some nw"
    and "x_RemoveNode E (rr_Name req) nw = (Some e, nw') \<or>
         (\<exists>nw1. x_RemoveNode E (rr_Name req) nw = (None, nw1) \<and>
                (\<forall>cfg. \<exists>nw2. x_AddNode E cfg nw1 = (Some e, nw2)))"
  shows "\<exists>s'. RestartNode E c req s = (Fail e, s') \<and> ln_cfg (net s' n) = ln_cfg (net s n) \<and>
    map_of (net_map s' n) (rr_Name req) =
      Some (ni\<lparr>ni_ExecPath := sr_ExecPath sr, ni_WhitelistedSubnets := ws\<rparr>)"
proof -
  let ?new = "old\<lparr>nc_ConfigFile := restart_config_file (ni_LogDir ni) (ni_DbDir ni) ws,
                  nc_Impl := ImplLocal (l\<lparr>lnc_BinaryPath := sr_ExecPath sr\<rparr>)\<rparr>"
  have nw: "ln_nw (net s n) \<noteq> None" using assms(9) by simp
  obtain s2 r3 s3 where
    sw: "restart_swap E (rr_Name req) n ?new s2 = (r3, s3)"
    and res: "RestartNode E c req s = and_then (r3, s3) (\<lambda>_ s3. and_then (waitForHealthy E c n s3)
           (\<lambda>_ s4. restart_finish idx ?new s4))"
    and nets: "sv_nets s2 = sv_nets s" and s3: "valid_net n s3" "sv_network s3 = Some n"
      "sv_clusterInfo s3 = Some i" "ln_cfg (net s3 n) = ln_cfg (net s n)"
    and entry: "\<forall>x. map_of (net_map s3 n) x =
        (if x = rr_Name req then Some (renewed (sr_ExecPath sr) ws ni) else map_of (net_map s n) x)"
    by (rule RestartNode_until_swap [where E = E and c = c, OF assms(1-8) nw refl])
  have "r3 = Fail e"
  proof (cases "x_RemoveNode E (rr_Name req) nw")
    case (Pair err nw1)
    then show ?thesis
    proof (cases err)
      case None
      then obtain nw2 where "x_AddNode E ?new nw1 = (Some e, nw2)" using assms(10) Pair by auto
      then show ?thesis using sw nets assms(9) Pair None by (simp add: restart_swap_def)
    qed (use sw nets assms(9,10) Pair in \<open>auto simp: restart_swap_def\<close>)
  qed
  then show ?thesis using res s3(4) entry by (simp add: renewed_def)
qed

lemma failed_RestartNode_keeps_new_entry_witness:
  "\<exists>s'. RestartNode (sample_ext\<lparr>x_AddNode := \<lambda>c nw. (Some (ExtError ''no disk''), nw)\<rparr>) sample_env
          \<lparr>rr_Name = ''node1'', rr_StartRequest = Some (sample_start\<lparr>sr_ExecPath := ''/bin/new''\<rparr>)\<rparr> sample_up
          = (Fail (ExtError ''no disk''), s') \<and>
        map_of (net_map s' 0) ''node1'' = Some ((sample_entry ''node1'')\<lparr>ni_ExecPath := ''/bin/new''\<rparr>)"
proof -
  let ?E = "sample_ext\<lparr>x_AddNode := \<lambda>c nw. (Some (ExtError ''no disk''), nw)\<rparr>"
  let ?req = "\<lparr>rr_Name = ''node1'', rr_StartRequest = Some (sample_start\<lparr>sr_ExecPath := ''/bin/new''\<rparr>)\<rparr>"
  let ?sr = "sample_start\<lparr>sr_ExecPath := ''/bin/new''\<rparr>"
  let ?l = "\<lparr>lnc_BinaryPath = ''/bin/avalanchego'', lnc_Stdout = None, lnc_Stderr = None\<rparr>"
  have pre: "sv_network sample_up = Some 0" "sv_clusterInfo sample_up = Some 0" "valid_net 0 sample_up"
      "map_of (net_map sample_up 0) (rr_Name ?req) = Some (sample_entry ''node1'')"
      "find_config (rr_Name ?req) 0 (ln_cfg (net sample_up 0)) = Some (0, sample_local ''node1'')"
      "rr_StartRequest ?req = Some ?sr" "sr_WhitelistedSubnets ?sr = Some ''s1''"
      "nc_Impl (sample_local ''node1'') = ImplLocal ?l"
      "ln_nw (net sample_up 0) = Some [''node1'', ''node2'']"
    using sample_valid by (simp_all add: sample_net_def sample_local_def sample_start_def)
  have fails: "x_RemoveNode ?E (rr_Name ?req) [''node1'', ''node2''] = (None, [''node2''])"
      "x_AddNode ?E cfg [''node2''] = (Some (ExtError ''no disk''), [''node2''])" for cfg
    by (simp_all add: sample_ext_def)
  then have "x_RemoveNode ?E (rr_Name ?req) [''node1'', ''node2''] = (Some (ExtError ''no disk''), []) \<or>
      (\<exists>nw1. x_RemoveNode ?E (rr_Name ?req) [''node1'', ''node2''] = (None, nw1) \<and>
         (\<forall>cfg. \<exists>nw2. x_AddNode ?E cfg nw1 = (Some (ExtError ''no disk''), nw2)))"
    by blast
  from failed_RestartNode_keeps_new_entry [OF pre this, of sample_env]
  show ?thesis by (auto simp: sample_entry_def sample_start_def)
qed

text \<open>C16: A restart that succeeds has replaced the configuration of this node, and of no other, by one
  with the new executable and a file with the new subnets; in the map exactly the executable and
  the subnets of this node have changed (and addresses and identities, which the wait stores).\<close>

theorem RestartNode_updates_node:
  assumes "sv_network s = Some n" and "sv_clusterInfo s = Some i" and "valid_net n s"
    and "map_of (net_map s n) (rr_Name req) = Some ni"
    and "find_config (rr_Name req) 0 (ln_cfg (net s n)) = Some (idx, old)"
    and "rr_StartRequest req = Some sr" and "sr_WhitelistedSubnets sr = Some ws"
    and "nc_Impl old = ImplLocal l" and "ln_nw (net s n) \<noteq> None"
    and "RestartNode E c req s = (Ret j, s')"
  shows "j = Some i \<and>
    ln_cfg (net s' n) = (ln_cfg (net s n))[idx :=
      old\<lparr>nc_ConfigFile := restart_config_file (ni_LogDir ni) (ni_DbDir ni) ws,
          nc_Impl := ImplLocal (l\<lparr>lnc_BinaryPath := sr_ExecPath sr\<rparr>)\<rparr>] \<and>
    map_option static_part (map_of (net_map s' n) x) =
      (if x = rr_Name req
       then Some (static_part (ni\<lparr>ni_ExecPath := sr_ExecPath sr, ni_WhitelistedSubnets := ws\<rparr>))
       else map_option static_part (map_of (net_map s n) x))"
proof -
  let ?new = "old\<lparr>nc_ConfigFile := restart_config_file (ni_LogDir ni) (ni_DbDir ni) ws,
                  nc_Impl := ImplLocal (l\<lparr>lnc_BinaryPath := sr_ExecPath sr\<rparr>)\<rparr>"
  obtain s2 r3 s3 where
    sw: "restart_swap E (rr_Name req) n ?new s2 = (r3, s3)"
    and res: "RestartNode E c req s = and_then (r3, s3) (\<lambda>_ s3. and_then (waitForHealthy E c n s3)
           (\<lambda>_ s4. restart_finish idx ?new s4))"
    and nets: "sv_nets s2 = sv_nets s" and s3: "valid_net n s3" "sv_network s3 = Some n"
      "sv_clusterInfo s3 = Some i" "ln_cfg (net s3 n) = ln_cfg (net s n)"
    and entry: "\<forall>x. map_of (net_map s3 n) x =
        (if x = rr_Name req then Some (renewed (sr_ExecPath sr) ws ni) else map_of (net_map s n) x)"
    by (rule RestartNode_until_swap [where E = E and c = c, OF assms(1-8) assms(9) refl])
  obtain s4 where w: "waitForHealthy E c n s3 = (Ret (), s4)" and fin: "restart_finish idx ?new s4 = (Ret j, s')"
    using res assms(10) by (cases r3) (auto split: and_then_split_asm)
  have fr: "wait_frame n s3 s4" using s3(1) w by (rule waitForHealthy_frame)
  have s4: "sv_network s4 = Some n" "sv_clusterInfo s4 = Some i" "ln_cfg (net s4 n) = ln_cfg (net s n)"
      "valid_net n s4"
    using fr s3 wait_frame_valid [OF fr s3(1)]
    by (simp_all add: wait_frame_def same_shell_def net_frame_def)
  have "map_option static_part (map_of (net_map s4 n) x) = map_option static_part (map_of (net_map s3 n) x)"
    using fr by (simp add: wait_frame_def map_frame_def)
  moreover have "j = Some i" "ln_cfg (net s' n) = (ln_cfg (net s n))[idx := ?new]"
      "net_map s' n = net_map s4 n"
    using fin s4 by (auto simp: restart_finish_def Let_def net_map_upd_net valid_net_def)
  ultimately show ?thesis using entry by (simp add: renewed_def)
qed

lemma RestartNode_updates_node_witness:
  "\<exists>s'. RestartNode sample_ext sample_env
          \<lparr>rr_Name = ''node1'', rr_StartRequest = Some (sample_start\<lparr>sr_ExecPath := ''/bin/new''\<rparr>)\<rparr> sample_up
          = (Ret (Some 0), s') \<and>
        map_option static_part (map_of (net_map s' 0) ''node2'') = Some (static_part (sample_entry ''node2''))"
proof -
  let ?sr = "sample_start\<lparr>sr_ExecPath := ''/bin/new''\<rparr>"
  let ?req = "\<lparr>rr_Name = ''node1'', rr_StartRequest = Some ?sr\<rparr>"
  let ?l = "\<lparr>lnc_BinaryPath = ''/bin/avalanchego'', lnc_Stdout = None, lnc_Stderr = None\<rparr>"
  have pre: "sv_network sample_up = Some 0" "sv_clusterInfo sample_up = Some 0" "valid_net 0 sample_up"
      "map_of (net_map sample_up 0) (rr_Name ?req) = Some (sample_entry ''node1'')"
      "find_config (rr_Name ?req) 0 (ln_cfg (net sample_up 0)) = Some (0, sample_local ''node1'')"
      "rr_StartRequest ?req = Some ?sr" "sr_WhitelistedSubnets ?sr = Some ''s1''"
      "nc_Impl (sample_local ''node1'') = ImplLocal ?l" "ln_nw (net sample_up 0) \<noteq> None"
    using sample_valid by (simp_all add: sample_net_def sample_local_def sample_start_def)
  obtain s2 r3 s3 new where
    sw: "restart_swap sample_ext (rr_Name ?req) 0 new s2 = (r3, s3)" and name: "nc_Name new = ''node1''"
    and res: "RestartNode sample_ext sample_env ?req sample_up = and_then (r3, s3)
           (\<lambda>_ s3. and_then (waitForHealthy sample_ext sample_env 0 s3) (\<lambda>_ s4. restart_finish 0 new s4))"
    and nets: "sv_nets s2 = sv_nets sample_up" and s3: "valid_net 0 s3" "sv_network s3 = Some 0"
      "sv_clusterInfo s3 = Some 0"
    and entry: "\<forall>x. map_of (net_map s3 0) x =
        (if x = rr_Name ?req then Some (renewed (sr_ExecPath ?sr) ''s1'' (sample_entry ''node1''))
         else map_of (net_map sample_up 0) x)"
    by (rule RestartNode_until_swap [where E = sample_ext and c = sample_env, OF pre refl])
       (fastforce simp: sample_local_def)
  have r3: "r3 = Ret ()" "s3 = set_nw 0 [''node2'', ''node1''] s2"
    using sw nets name by (auto simp: restart_swap_def sample_net_def sample_ext_def)
  then have nw: "ln_nw (net s3 0) = Some [''node2'', ''node1'']"
    using nets by (simp add: sample_up_def upd_net_def)
  have "dom (map_of (net_map s3 0)) = {''node1'', ''node2''}"
    by (auto simp: entry [rule_format] dom_def split: if_splits)
  then have "keys (net_map s3 0) = {''node1'', ''node2''}" by (simp add: dom_map_of_conv_image_fst)
  moreover have "visit_ok (ce_nodes sample_env)" by (simp add: sample_env_def visit_ok_id)
  ultimately have "fst (waitForHealthy sample_ext sample_env 0 s3) = Ret ()"
    using nw by (simp add: waitForHealthy_eq [OF s3(1)]) (simp add: sample_ext_def sample_env_def)
  then obtain s4 where w: "waitForHealthy sample_ext sample_env 0 s3 = (Ret (), s4)" by (metis prod.collapse)
  have "sv_network s4 = Some 0" "sv_clusterInfo s4 = Some 0"
    using waitForHealthy_keeps(1) [OF w] s3 by (simp_all add: keeps_def)
  then obtain s' where "restart_finish 0 new s4 = (Ret (Some 0), s')"
    by (simp add: restart_finish_def Let_def)
  then have run: "RestartNode sample_ext sample_env ?req sample_up = (Ret (Some 0), s')"
    using res r3(1) w by simp
  then show ?thesis
    using RestartNode_updates_node [OF pre run, of "''node2''"] by simp
qed

end
