(* ===== verification/Concurrent.thy ===== *)
theory Concurrent
  imports Session
begin

text \<open>
  The server with its goroutines interleaved: every request in flight, the goroutine \<open>start\<close> and
  the watcher of a started network are threads over the shared server, and the write lock \<open>s.mu\<close>
  is held by at most one of them.  A thread is the list of segments of its handler, cut at the
  lock operations, at the reads of \<open>s.network\<close> outside the lock, at the waits and inside
  \<open>waitForHealthy\<close>; the segments are those of the handlers in the theory on the server.  A handler
  returns a pointer to the cluster information, which gRPC marshals after the handler has given back
  the lock: that is a segment of its own, and the reply is what it finds then.  A panic of any thread
  is the end of the process, and \<open>co_crashed\<close> says that one has panicked.  Two threads at the same
  map without the lock are not a step of this model: what the Go runtime does then (it may end the
  process, or go on) is not defined, and the states in which it can happen are characterised in the
  theory on map accesses.
\<close>

section \<open>Threads\<close>

datatype wait = WEnter | WSelect | WNodes | WPublish "(string, Node) gomap"

datatype pc =
    StartA StartRequest | StartB string StartRequest | StartC string StartRequest
  | HealthA | HealthN | HealthW nat wait | HealthB | HealthC
  | StatusA
  | URIsA | URIsB nat
  | RemoveA string | RemoveB string | RemoveC string | RemoveW nat wait
  | RestartA RestartNodeRequest | RestartB RestartNodeRequest | RestartC RestartNodeRequest
  | RestartW nat NodeConfig nat wait | RestartD nat NodeConfig
  | StopA | StopB nat | StopC nat | StopW nat nat
  | RunA nat | RunW nat wait
  | WatchN | WatchM nat | WatchA nat nat | WatchB | WatchC
  | ReplyP "nat option" | Replied "reply outcome"
  | Done

text \<open>The first segment of a request.\<close>

fun is_request :: "pc \<Rightarrow> bool" where
  "is_request (StartA _) = True"
| "is_request HealthA = True"
| "is_request StatusA = True"
| "is_request URIsA = True"
| "is_request (RemoveA _) = True"
| "is_request (RestartA _) = True"
| "is_request StopA = True"
| "is_request _ = False"

text \<open>The segments that begin with \<open>getClusterInfo\<close>, which takes the read lock for the read.\<close>

fun reads_info :: "pc \<Rightarrow> bool" where
  "reads_info p = is_request p"

text \<open>The calls of \<open>s.mu.Lock\<close>, and the segment that follows.\<close>

fun acquires :: "pc \<Rightarrow> pc option" where
  "acquires (StartB dir req) = Some (StartC dir req)"
| "acquires HealthB = Some HealthC"
| "acquires (RemoveB x) = Some (RemoveC x)"
| "acquires (RestartB req) = Some (RestartC req)"
| "acquires (StopB i) = Some (StopC i)"
| "acquires WatchB = Some WatchC"
| "acquires _ = None"

text \<open>The segments between \<open>Lock\<close> and \<open>Unlock\<close>: \<open>RemoveNode\<close> and \<open>RestartNode\<close> wait for health in there.\<close>

fun holds :: "pc \<Rightarrow> bool" where
  "holds (StartC _ _) = True"
| "holds HealthC = True"
| "holds (RemoveC _) = True"
| "holds (RemoveW _ _) = True"
| "holds (RestartC _) = True"
| "holds (RestartW _ _ _ _) = True"
| "holds (RestartD _ _) = True"
| "holds (StopC _) = True"
| "holds (StopW _ _) = True"
| "holds WatchC = True"
| "holds _ = False"

section \<open>One segment\<close>

text \<open>
  A segment of \<open>waitForHealthy\<close>: \<open>None\<close> when the wait is over.  The stop case of the \<open>select\<close> is only
  there when the channel is closed.
\<close>

fun wait_step ::
  "'nw ext \<Rightarrow> call_env \<Rightarrow> nat \<Rightarrow> wait \<Rightarrow> 'nw server \<Rightarrow> wait option outcome \<times> 'nw server" where
  "wait_step E c n WEnter s = and_then (wfh_enter n s, s) (\<lambda>_ s. (Ret (Some WSelect), s))"
| "wait_step E c n WSelect s =
     (if event_possible n (ce_event c) s
      then and_then (wfh_select (ce_event c), s) (\<lambda>_ s. (Ret (Some WNodes), s))
      else (Block, s))"
| "wait_step E c n WNodes s = and_then (wfh_nodes E n s) (\<lambda>nodes s. (Ret (Some (WPublish nodes)), s))"
| "wait_step E c n (WPublish nodes) s = and_then (wfh_publish c n nodes s) (\<lambda>_ s. (Ret None, s))"

text \<open>
  What a segment does: the next segment of the thread and the threads it begins.  \<open>pick\<close> is the
  choice of the watcher's \<open>select\<close> when several of its cases are ready; the select evaluates its
  channels once, when the watcher begins, with one read of \<open>s.network\<close> for \<open>stopc\<close> and another one
  for \<open>readyc\<close>, which can find different networks.
\<close>

fun run_pc ::
  "'nw ext \<Rightarrow> call_env \<times> bool \<Rightarrow> pc \<Rightarrow> 'nw server \<Rightarrow> (pc \<times> pc list) outcome \<times> 'nw server" where
  "run_pc E (c, pick) (StartA req) s =
     and_then (start_prepare E c req s) (\<lambda>dir s. (Ret (StartB dir req, []), s))"
| "run_pc E (c, pick) (StartC dir req) s =
     and_then (start_locked E dir req s) (\<lambda>(i, n) s. (Ret (ReplyP (Some i), [RunA n, WatchN]), s))"
| "run_pc E (c, pick) HealthA s =
     (if getClusterInfo s = None then Fail ErrNotBootstrapped else Ret (HealthN, []), s)"
| "run_pc E (c, pick) HealthN s =
     (case sv_network s of None \<Rightarrow> Panic | Some n \<Rightarrow> Ret (HealthW n WEnter, []), s)"
| "run_pc E (c, pick) (HealthW n w) s =
     and_then (wait_step E c n w s)
       (\<lambda>w' s. (Ret (case w' of None \<Rightarrow> HealthB | Some w' \<Rightarrow> HealthW n w', []), s))"
| "run_pc E (c, pick) HealthC s = and_then (health_locked c s) (\<lambda>i s. (Ret (ReplyP i, []), s))"
| "run_pc E (c, pick) StatusA s = and_then (Status s, s) (\<lambda>i s. (Ret (ReplyP (Some i), []), s))"
| "run_pc E (c, pick) URIsA s =
     (case getClusterInfo s of None \<Rightarrow> Fail ErrNotBootstrapped | Some i \<Rightarrow> Ret (URIsB i, []), s)"
| "run_pc E (c, pick) (URIsB i) s =
     and_then (URIs_collect c i s, s) (\<lambda>u s. (Ret (Replied (Ret (RpUris (ur_Uris u))), []), s))"
| "run_pc E (c, pick) (RemoveA x) s =
     (if getClusterInfo s = None then Fail ErrNotBootstrapped else Ret (RemoveB x, []), s)"
| "run_pc E (c, pick) (RemoveC x) s =
     and_then (remove_locked E c x s) (\<lambda>n s. (Ret (RemoveW n WEnter, []), s))"
| "run_pc E (c, pick) (RemoveW n w) s =
     and_then (wait_step E c n w s)
       (\<lambda>w' s. (Ret (case w' of None \<Rightarrow> ReplyP (sv_clusterInfo s) | Some w' \<Rightarrow> RemoveW n w', []), s))"
| "run_pc E (c, pick) (RestartA req) s =
     (if getClusterInfo s = None then Fail ErrNotBootstrapped else Ret (RestartB req, []), s)"
| "run_pc E (c, pick) (RestartC req) s =
     and_then (restart_locked E req s) (\<lambda>(n, idx, cfg) s. (Ret (RestartW idx cfg n WEnter, []), s))"
| "run_pc E (c, pick) (RestartW idx cfg n w) s =
     and_then (wait_step E c n w s)
       (\<lambda>w' s. (Ret (case w' of None \<Rightarrow> RestartD idx cfg | Some w' \<Rightarrow> RestartW idx cfg n w', []), s))"
| "run_pc E (c, pick) (RestartD idx cfg) s =
     and_then (restart_finish idx cfg s) (\<lambda>i s. (Ret (ReplyP i, []), s))"
| "run_pc E (c, pick) StopA s =
     (case getClusterInfo s of None \<Rightarrow> Fail ErrNotBootstrapped | Some i \<Rightarrow> Ret (StopB i, []), s)"
| "run_pc E (c, pick) (StopC i) s = and_then (stop_locked E s) (\<lambda>n s. (Ret (StopW i n, []), s))"
| "run_pc E (c, pick) (StopW i n) s =
     (if ln_donec (net s n) then and_then (stop_finish i s) (\<lambda>i s. (Ret (ReplyP (Some i), []), s))
      else (Block, s))"
| "run_pc E (c, pick) (RunA n) s = and_then (start_create E n s) (\<lambda>_ s. (Ret (RunW n WEnter, []), s))"
| "run_pc E (c, pick) (RunW n w) s =
     (case wait_step E c n w s of
        (Ret (Some w'), s) \<Rightarrow> (Ret (RunW n w', []), s)
      | (Ret None, s) \<Rightarrow> (Ret (Done, []), upd_net n (start_done []) s)
      | (Fail e, s) \<Rightarrow> (Ret (Done, []), upd_net n (start_done [e]) s)
      | (Panic, s) \<Rightarrow> (Panic, s)
      | (Block, s) \<Rightarrow> (Block, s))"
| "run_pc E (c, pick) WatchN s =
     (case sv_network s of None \<Rightarrow> Panic | Some n \<Rightarrow> Ret (WatchM n, []), s)"
| "run_pc E (c, pick) (WatchM n) s =
     (case sv_network s of None \<Rightarrow> Panic | Some m \<Rightarrow> Ret (WatchA n m, []), s)"
| "run_pc E (c, pick) (WatchA n m) s =
     (if pick then
        (if sv_closed s \<or> ln_stopc (net s n) then Ret (Done, []) else Block, s)
      else (if oc_closed (ln_ready (net s m)) then Ret (WatchB, []) else Block, s))"
| "run_pc E (c, pick) WatchC s = and_then (watch_ready s) (\<lambda>_ s. (Ret (Done, []), s))"
| "run_pc E (c, pick) (ReplyP i) s = (Ret (Replied (Ret (marshal i s)), []), s)"
| "run_pc E (c, pick) _ s = (Block, s)"

text \<open>A request that fails is answered with its error; the goroutine \<open>start\<close> just ends.\<close>

fun failed :: "go_error \<Rightarrow> pc \<Rightarrow> pc" where
  "failed e (RunA n) = Done"
| "failed e p = Replied (Fail e)"

section \<open>The whole process\<close>

record 'nw conc =
  co_srv :: "'nw server"
  co_lock :: "nat option"
  co_threads :: "pc list"
  co_crashed :: bool

definition init_conc :: "'nw conc" where
  "init_conc = \<lparr>co_srv = init_server, co_lock = None, co_threads = [], co_crashed = False\<rparr>"

text \<open>
  A step of thread \<open>i\<close>, or \<open>None\<close> when it cannot step: an acquisition needs the lock free, a read of
  the information needs that nobody holds the write lock; a thread that leaves its critical section
  releases the lock (the deferred \<open>Unlock\<close>).
\<close>

definition step_thread ::
  "'nw ext \<Rightarrow> call_env \<times> bool \<Rightarrow> nat \<Rightarrow> 'nw conc \<Rightarrow> 'nw conc option" where
  "step_thread E c i co =
     (let p = co_threads co ! i;
          unlock = (\<lambda>p'. if holds p \<and> \<not> holds p' then None else co_lock co)
      in (case acquires p of
            Some p' \<Rightarrow>
              (if co_lock co = None
               then Some (co\<lparr>co_lock := Some i, co_threads := (co_threads co)[i := p']\<rparr>) else None)
          | None \<Rightarrow>
              (if reads_info p \<and> co_lock co \<noteq> None then None
               else
                 (case run_pc E c p (co_srv co) of
                    (Ret (p', new), s') \<Rightarrow>
                      Some (co\<lparr>co_srv := s', co_lock := unlock p',
                               co_threads := (co_threads co)[i := p'] @ new\<rparr>)
                  | (Fail e, s') \<Rightarrow>
                      Some (co\<lparr>co_srv := s', co_lock := unlock (failed e p),
                               co_threads := (co_threads co)[i := failed e p]\<rparr>)
                  | (Panic, s') \<Rightarrow> Some (co\<lparr>co_srv := s', co_crashed := True\<rparr>)
                  | (Block, s') \<Rightarrow> None))))"

text \<open>
  The steps of the process: a client sends a request, the server is closed, or a thread runs one
  segment.
\<close>

inductive cstep :: "'nw ext \<Rightarrow> 'nw conc \<Rightarrow> 'nw conc \<Rightarrow> bool" for E where
  cstep_request: "\<not> co_crashed co \<Longrightarrow> is_request p \<Longrightarrow>
     cstep E co (co\<lparr>co_threads := co_threads co @ [p]\<rparr>)"
| cstep_close: "\<not> co_crashed co \<Longrightarrow> cstep E co (co\<lparr>co_srv := (co_srv co)\<lparr>sv_closed := True\<rparr>\<rparr>)"
| cstep_thread: "\<not> co_crashed co \<Longrightarrow> i < length (co_threads co) \<Longrightarrow> env_ok (fst c) \<Longrightarrow>
     step_thread E c i co = Some co' \<Longrightarrow> cstep E co co'"

abbreviation reaches :: "'nw ext \<Rightarrow> 'nw conc \<Rightarrow> 'nw conc \<Rightarrow> bool" where
  "reaches E \<equiv> (cstep E)\<^sup>*\<^sup>*"

inductive_cases cstepE: "cstep E co co'"

section \<open>The segments compose to the method\<close>

text \<open>Running the segments of a wait one after the other without interruption.\<close>

fun wait_all ::
  "'nw ext \<Rightarrow> call_env \<Rightarrow> nat \<Rightarrow> nat \<Rightarrow> wait \<Rightarrow> 'nw server \<Rightarrow> unit outcome \<times> 'nw server" where
  "wait_all E c n 0 w s = (Block, s)"
| "wait_all E c n (Suc k) w s =
     and_then (wait_step E c n w s)
       (\<lambda>w' s. case w' of None \<Rightarrow> (Ret (), s) | Some w' \<Rightarrow> wait_all E c n k w' s)"

lemma wait_all_waitForHealthy:
  assumes "event_possible n (ce_event c) s"
  shows "wait_all E c n 4 WEnter s = waitForHealthy E c n s"
  using assms
  by (simp add: numeral_eq_Suc waitForHealthy_def and_then_assoc split: and_then_splits)

end
