(* ===== verification/Conc_Inv.thy ===== *)
theory Conc_Inv
  imports Concurrent
begin

text \<open>
  What holds in every reachable state of the process, whatever the interleaving: the write lock is
  held by the one thread that is in a critical section, the server has a network exactly when it
  has cluster information, all references point into the store, and a network whose \<open>donec\<close> is
  open still has its goroutine \<open>start\<close>.
\<close>

section \<open>Threads and references\<close>

fun pc_ok :: "nat \<Rightarrow> pc \<Rightarrow> bool" where
  "pc_ok k (HealthW n _) = (n < k)"
| "pc_ok k (RemoveW n _) = (n < k)"
| "pc_ok k (RestartW _ _ n _) = (n < k)"
| "pc_ok k (StopW _ n) = (n < k)"
| "pc_ok k (RunA n) = (n < k)"
| "pc_ok k (RunW n _) = (n < k)"
| "pc_ok k (WatchM n) = (n < k)"
| "pc_ok k (WatchA n m) = (n < k \<and> m < k)"
| "pc_ok k _ = True"

fun runs :: "nat \<Rightarrow> pc \<Rightarrow> bool" where
  "runs n (RunA k) = (n = k)"
| "runs n (RunW k _) = (n = k)"
| "runs n _ = False"

lemma pc_ok_mono: "pc_ok k p \<Longrightarrow> k \<le> l \<Longrightarrow> pc_ok l p"
  by (cases p) auto

text \<open>The store only grows, and a closed \<open>donec\<close> stays closed.\<close>

definition grows :: "'nw server \<Rightarrow> 'nw server \<Rightarrow> bool" where
  "grows s s' \<longleftrightarrow>
     length (sv_nets s) \<le> length (sv_nets s') \<and>
     (\<forall>k < length (sv_nets s). ln_donec (net s k) \<longrightarrow> ln_donec (net s' k))"

definition same_size :: "'nw server \<Rightarrow> 'nw server \<Rightarrow> bool" where
  "same_size s s' \<longleftrightarrow> grows s s' \<and> length (sv_nets s') = length (sv_nets s)"

lemma same_size_refl [simp]: "same_size s s"
  by (simp add: same_size_def grows_def)

lemma same_size_trans [trans]: "same_size s s' \<Longrightarrow> same_size s' s'' \<Longrightarrow> same_size s s''"
  by (simp add: same_size_def grows_def)

lemma same_size_nets: "sv_nets s' = sv_nets s \<Longrightarrow> same_size s s'"
  by (simp add: same_size_def grows_def)

lemma same_size_upd_net:
  assumes "ln_donec (net s n) \<Longrightarrow> ln_donec (f (net s n))"
  shows "same_size s (upd_net n f s)"
proof -
  have "ln_donec (net (upd_net n f s) k)" if "k < length (sv_nets s)" "ln_donec (net s k)" for k
    using that assms by (cases "k = n") auto
  then show ?thesis by (simp add: same_size_def grows_def)
qed

lemma same_size_wait_frame: "wait_frame n s s' \<Longrightarrow> same_size s s'"
proof -
  assume fr: "wait_frame n s s'"
  have "ln_donec (net s' k)" if "ln_donec (net s k)" for k
    using fr that by (cases "k = n") (auto simp: wait_frame_def net_frame_def)
  then show ?thesis using fr by (simp add: same_size_def grows_def wait_frame_def same_shell_def)
qed

section \<open>Every segment keeps the store well-formed\<close>

definition store_step :: "'nw server \<Rightarrow> 'nw server \<Rightarrow> bool" where
  "store_step s s' \<longleftrightarrow> (store_ok s \<longrightarrow> store_ok s' \<and> same_size s s')"

lemma store_step_refl [simp]: "store_step s s"
  by (simp add: store_step_def)

lemma store_step_trans: "store_step s s' \<Longrightarrow> store_step s' s'' \<Longrightarrow> store_step s s''"
  by (auto simp: store_step_def intro: same_size_trans)

lemma store_step_upd_net:
  assumes "\<And>l. ln_nodeInfos (f l) = ln_nodeInfos l" and "\<And>l. ln_ready (f l) = ln_ready l"
    and "\<And>l. ln_donec l \<Longrightarrow> ln_donec (f l)"
  shows "store_step s (upd_net n f s)"
  unfolding store_step_def using store_ok_upd_net [of s f n] same_size_upd_net [of s n f] assms by blast

lemma store_step_upd_map:
  "(\<And>m. gomap_ok m \<Longrightarrow> gomap_ok (g m)) \<Longrightarrow> store_step s (upd_map k g s)"
  unfolding store_step_def using store_ok_upd_map [of s g k] by (simp add: same_size_nets)

lemma store_step_set_nw: "store_step s (set_nw n nw s)"
  by (rule store_step_upd_net) simp_all

lemma store_step_publish:
  assumes "sv_network s = Some n"
  shows "store_step s (publish_nodes i n (refresh_names c n s))"
proof -
  have "same_size s (refresh_names c n s)"
    unfolding refresh_names_def by (rule same_size_upd_net) simp
  moreover have "sv_nets (publish_nodes i n (refresh_names c n s)) = sv_nets (refresh_names c n s)"
    by simp
  ultimately show ?thesis
    unfolding store_step_def using store_ok_publish [of s n] store_okD(2) assms
    by (metis same_size_nets same_size_trans)
qed

lemma wait_store:
  assumes "wait_step E c n w s = (r, s')" and "n < length (sv_nets s)"
  shows "store_step s s'"
proof (cases "store_ok s")
  case True
  then have valid: "valid_net n s" using assms(2) by (simp add: store_ok_def)
  have "wait_frame n s s'"
    using assms(1) wfh_nodes_frame [OF assms(2)] wfh_publish_frame [OF valid]
    by (cases "(E, c, n, w, s)" rule: wait_step.cases)
       (auto split: and_then_split_asm if_splits)
  then show ?thesis
    using store_ok_wait_frame [OF True _ assms(2)] same_size_wait_frame by (simp add: store_step_def)
qed (simp add: store_step_def)

lemma health_locked_store: "health_locked c s = (r, s') \<Longrightarrow> store_step s s'"
  by (auto simp: health_locked_def Let_def store_step_publish refresh_names_def
           intro: store_step_publish [unfolded refresh_names_def] store_step_upd_net split: option.splits)

lemma remove_locked_store:
  assumes "remove_locked E c x s = (r, s')"
  shows "store_step s s'" and "r = Ret k \<Longrightarrow> sv_network s = Some k"
proof -
  have mid: "store_step s (upd_map m (AList.delete x) (set_nw n nw s))" for n nw m
    using store_step_set_nw store_step_upd_map [OF gomap_ok_delete] by (rule store_step_trans)
  have ref: "store_step s (refresh_names c n (upd_map m (AList.delete x) (set_nw n nw s)))" for n nw m
    using mid unfolding refresh_names_def by (rule store_step_trans) (rule store_step_upd_net, simp_all)
  have pub: "store_step s (publish_nodes i n (refresh_names c n (upd_map m (AList.delete x) (set_nw n nw s))))"
    if "sv_network s = Some n" for i n nw m
    using mid by (rule store_step_trans) (rule store_step_publish, simp add: that)
  show "store_step s s'" and "r = Ret k \<Longrightarrow> sv_network s = Some k"
    using assms store_step_set_nw ref pub
    by (auto simp: remove_locked_def Let_def split: option.splits prod.splits)
qed

lemma restart_locked_store:
  assumes "restart_locked E req s = (r, s')"
  shows "store_step s s'" and "r = Ret (n, idx, cfg) \<Longrightarrow> sv_network s = Some n"
proof -
  have upd: "store_step s s'" if "restart_update req n s = (r, s')" for n s s' and r :: "NodeInfo outcome"
    using that store_step_upd_map [OF set_entry_ok]
      store_step_trans [OF store_step_upd_map [OF set_entry_ok] store_step_upd_map [OF set_entry_ok]]
    by (auto simp: restart_update_def Let_def split: option.splits)
  have swap: "store_step s s'" if "restart_swap E x n cfg s = (r, s')" for x n cfg s s' and r :: "unit outcome"
    using that store_step_set_nw
    by (auto simp: restart_swap_def split: option.splits prod.splits)
  show "store_step s s'"
    using assms upd swap store_step_trans unfolding restart_locked_def
    by (fastforce split: and_then_split_asm)
  show "sv_network s = Some n" if "r = Ret (n, idx, cfg)"
    using assms that unfolding restart_locked_def
    by (auto simp: restart_find_def split: and_then_split_asm option.splits)
qed

lemma restart_finish_store:
  assumes "restart_finish idx cfg s = (r, s')"
  shows "store_step s s'"
proof -
  let ?f = "\<lambda>l. l\<lparr>ln_cfg := (ln_cfg l)[idx := cfg]\<rparr>"
  have "store_step s (upd_net n ?f s)" for n by (rule store_step_upd_net) simp_all
  moreover have "store_step (upd_net n ?f s) (upd_info i (\<lambda>x. x\<lparr>ci_NodeInfos := Some (ln_nodeInfos (net (upd_net n ?f s) n))\<rparr>) (upd_net n ?f s))"
    if "sv_network s = Some n" for i n
    unfolding store_step_def
    using store_okD(2) [of "upd_net n ?f s" n] that
    by (auto intro!: store_ok_upd_info same_size_nets simp: valid_net_def)
  ultimately show ?thesis
    using assms store_step_trans
    by (auto simp: restart_finish_def Let_def split: option.splits) blast+
qed

lemma stop_begin_store:
  assumes "stop_begin E n s = (r, s')"
  shows "store_step s s'"
proof -
  have a: "store_step s (upd_net n (\<lambda>l. l\<lparr>ln_stopc := b\<rparr>) s)" for b
    by (rule store_step_upd_net) simp_all
  have "store_step s (upd_net n (\<lambda>l. l\<lparr>ln_nw := Some nw, ln_stopOnce := True\<rparr>)
                        (upd_net n (\<lambda>l. l\<lparr>ln_stopc := b\<rparr>) s))" for b nw
    using a by (rule store_step_trans) (rule store_step_upd_net, simp_all)
  with a assms show ?thesis
    by (auto simp: stop_begin_def Let_def split: if_splits option.splits outcome.splits)
qed

lemma stop_finish_store:
  assumes "store_ok s"
  shows "store_ok (snd (stop_finish i s)) \<and> same_size s (snd (stop_finish i s))"
proof -
  have "store_ok (upd_info i (\<lambda>x. x\<lparr>ci_Healthy := False\<rparr>) s)"
  proof (cases "i < length (sv_infos s)")
    case True
    then have "info_at s i \<in> set (sv_infos s)" by simp
    then show ?thesis using assms by (intro store_ok_upd_info) (auto simp: store_ok_def)
  next
    case False
    then show ?thesis using assms by (simp add: upd_info_def list_update_beyond)
  qed
  then show ?thesis
    by (auto simp: stop_finish_def store_ok_def valid_net_def upd_info_def intro: same_size_nets)
qed

lemma watch_ready_store: "watch_ready s = (r, s') \<Longrightarrow> store_step s s'"
  unfolding store_step_def
  using store_okD(2) [of s]
  by (auto simp: watch_ready_def valid_net_def intro!: store_ok_upd_info same_size_nets split: option.splits)

section \<open>Every segment keeps the threads well-formed\<close>

text \<open>A network that appears comes with its goroutine; one that ends closes \<open>donec\<close>.\<close>

lemma start_locked_store:
  assumes "start_locked E dir req s = (r, s')" and "store_ok s"
  shows "store_ok s'" and "grows s s'"
    and "r = Ret (i, n) \<Longrightarrow> n = length (sv_nets s) \<and> length (sv_nets s') = Suc (length (sv_nets s))"
    and "\<And>e. r = Fail e \<Longrightarrow> length (sv_nets s') = length (sv_nets s)"
proof -
  let ?args = "newNetwork E (sr_ExecPath req) dir (StartRequest_GetWhitelistedSubnets (Some req))
     (StartRequest_GetLogLevel (Some req)) s"
  obtain rn sn where nn: "?args = (rn, sn)" by (cases ?args)
  have "store_ok s' \<and> grows s s' \<and>
      (r = Ret (i, n) \<longrightarrow> n = length (sv_nets s) \<and> length (sv_nets s') = Suc (length (sv_nets s))) \<and>
      (\<forall>e. r = Fail e \<longrightarrow> length (sv_nets s') = length (sv_nets s))"
  proof (cases "sv_network s")
    case (Some k)
    then show ?thesis using assms by (auto simp: start_locked_def grows_def)
  next
    case None
    then have none: "sv_clusterInfo s = None" using store_okD(4) [OF assms(2)] by simp
    have nil: "s\<lparr>sv_network := None\<rparr> = s" using None by (cases s) simp
    show ?thesis
    proof (cases rn)
      case (Ret m)
      note fr = newNetwork_fresh [OF assms(2) nn [unfolded Ret]]
      obtain cfgs' names infos where "m = length (sv_nets s)"
        and sn: "sv_nets sn = sv_nets s @ [\<lparr>ln_binPath = sr_ExecPath req, ln_cfg = cfgs', ln_nw = None,
                  ln_nodeNames = names, ln_nodes = None, ln_nodeInfos = length (sv_maps s), ln_apiClis = [],
                  ln_ready = new_once_chan, ln_stopc = False, ln_stopOnce = False,
                  ln_donec = False, ln_errc = []\<rparr>]"
        using nn unfolding Ret by (elim newNetwork_Ret) simp
      moreover have "store_ok s'"
        using assms(1) None nn Ret fr(1,4,7)
        by (auto simp: start_locked_def Let_def store_ok_def valid_net_def)
      ultimately show ?thesis
        using assms(1) None nn Ret by (auto simp: start_locked_def Let_def grows_def nth_append)
    next
      case (Fail e)
      have "sn = s" using nn Fail by (intro newNetwork_other) auto
      then show ?thesis using assms None nn Fail by (auto simp: start_locked_def grows_def nil)
    next
      case Panic
      have "sn = s" using nn Panic by (intro newNetwork_other) auto
      then show ?thesis using assms None nn Panic by (auto simp: start_locked_def grows_def)
    next
      case Block
      then show ?thesis using nn newNetwork_not_Block by (metis fst_conv)
    qed
  qed
  then show "store_ok s'" and "grows s s'"
    and "r = Ret (i, n) \<Longrightarrow> n = length (sv_nets s) \<and> length (sv_nets s') = Suc (length (sv_nets s))"
    and "\<And>e. r = Fail e \<Longrightarrow> length (sv_nets s') = length (sv_nets s)" by blast+
qed

text \<open>What a segment leaves: \<open>seg_ok p s r s'\<close>.\<close>

definition seg_ok :: "pc \<Rightarrow> 'nw server \<Rightarrow> (pc \<times> pc list) outcome \<Rightarrow> 'nw server \<Rightarrow> bool" where
  "seg_ok p s r s' \<longleftrightarrow>
     store_ok s' \<and> grows s s' \<and>
     (case r of
        Ret (p', new) \<Rightarrow>
          pc_ok (length (sv_nets s')) p' \<and> list_all (pc_ok (length (sv_nets s'))) new \<and>
          (holds p' \<longrightarrow> holds p) \<and> list_all (Not \<circ> holds) new \<and>
          (\<forall>k. runs k p \<longrightarrow> runs k p' \<or> ln_donec (net s' k)) \<and>
          (\<forall>k < length (sv_nets s'). length (sv_nets s) \<le> k \<longrightarrow> (\<exists>q \<in> set new. runs k q))
      | Fail e \<Rightarrow> length (sv_nets s') = length (sv_nets s) \<and> (\<forall>k. runs k p \<longrightarrow> ln_donec (net s' k))
      | _ \<Rightarrow> True)"

lemma seg_ok_same:
  assumes "store_ok s" and "store_step s s'" and "\<And>k. \<not> runs k p"
    and "\<And>p' new. r = Ret (p', new) \<Longrightarrow> pc_ok (length (sv_nets s)) p' \<and> new = [] \<and> (holds p' \<longrightarrow> holds p)"
  shows "seg_ok p s r s'"
  using assms by (auto simp: seg_ok_def store_step_def same_size_def split: outcome.splits)

lemma wait_seg:
  assumes "store_ok s" and "n < length (sv_nets s)" and "wait_step E c n w s = (r1, s1)"
    and "run_pc E cp p s = and_then (r1, s1) (\<lambda>w' s. (Ret (f w' s, []), s))"
    and "\<And>k. \<not> runs k p" and "\<And>w' t. pc_ok (length (sv_nets s)) (f w' t) \<and> (holds (f w' t) \<longrightarrow> holds p)"
    and "run_pc E cp p s = (r, s')"
  shows "seg_ok p s r s'"
proof (rule seg_ok_same [OF assms(1) _ assms(5)])
  show "store_step s s'"
    using wait_store [OF assms(3,2)] assms(4,7) by (cases r1) auto
  show "pc_ok (length (sv_nets s)) p' \<and> new = [] \<and> (holds p' \<longrightarrow> holds p)" if "r = Ret (p', new)" for p' new
    using that assms(4,6,7) by (cases r1) auto
qed

lemma run_seg:
  assumes "store_ok s" and "n < length (sv_nets s)" and "run_pc E (c, pick) (RunW n w) s = (r, s')"
  shows "seg_ok (RunW n w) s r s'"
proof -
  obtain r1 s1 where w: "wait_step E c n w s = (r1, s1)" by (cases "wait_step E c n w s")
  have s1: "store_ok s1" "same_size s s1"
    using wait_store [OF w assms(2)] assms(1) by (simp_all add: store_step_def)
  have n1: "n < length (sv_nets s1)" using s1(2) assms(2) by (simp add: same_size_def)
  have fin: "store_ok (upd_net n (start_done errs) s1)" "same_size s (upd_net n (start_done errs) s1)"
      "ln_donec (net (upd_net n (start_done errs) s1) n)" for errs
  proof -
    show "store_ok (upd_net n (start_done errs) s1)"
      using s1(1) by (rule store_ok_upd_net) (simp_all add: start_done_def)
    show "same_size s (upd_net n (start_done errs) s1)"
      using s1(2) by (rule same_size_trans) (rule same_size_upd_net, simp add: start_done_def)
    show "ln_donec (net (upd_net n (start_done errs) s1) n)" using n1 by (simp add: start_done_def)
  qed
  show ?thesis
    using assms(2,3) w s1 fin
    by (cases r1) (auto simp: seg_ok_def same_size_def split: option.splits)
qed

lemma start_seg:
  assumes "store_ok s" and "run_pc E (c, pick) (StartC dir req) s = (r, s')"
  shows "seg_ok (StartC dir req) s r s'"
proof -
  obtain r1 s1 where l: "start_locked E dir req s = (r1, s1)" by (cases "start_locked E dir req s")
  note st = start_locked_store [OF l assms(1)]
  show ?thesis
  proof (cases r1)
    case (Ret x)
    obtain i n where "x = (i, n)" by (cases x)
    then show ?thesis
      using assms(2) l Ret st(1,2) st(3) [of i n] by (auto simp: seg_ok_def less_Suc_eq)
  next
    case (Fail e)
    then show ?thesis using assms(2) l st(1,2) st(4) [OF Fail] by (auto simp: seg_ok_def)
  qed (use assms(2) l st(1,2) in \<open>auto simp: seg_ok_def\<close>)
qed

lemma stop_seg:
  assumes "store_ok s" and "run_pc E (c, pick) p s = (r, s')" and "p = StopC i \<or> p = StopW i n"
  shows "seg_ok p s r s'"
  using assms(3)
proof
  assume p: "p = StopC i"
  show ?thesis
  proof (rule seg_ok_same [OF assms(1)])
    show "store_step s s'"
      using assms(2) p stop_begin_store by (fastforce simp: stop_locked_def split: option.splits and_then_split_asm)
    show "pc_ok (length (sv_nets s)) p' \<and> new = [] \<and> (holds p' \<longrightarrow> holds p)" if "r = Ret (p', new)" for p' new
      using that assms(1,2) p store_okD(1) [OF assms(1)]
      by (auto simp: stop_locked_def split: option.splits and_then_split_asm)
  qed (simp add: p)
next
  assume p: "p = StopW i n"
  show ?thesis
    using assms(1,2) p stop_finish_store [OF assms(1), of i]
    by (auto simp: seg_ok_def stop_finish_def same_size_def grows_def split: if_splits)
qed

lemma run_pc_seg:
  assumes "store_ok s" and "pc_ok (length (sv_nets s)) p" and "acquires p = None"
    and "run_pc E (c, pick) p s = (r, s')"
  shows "seg_ok p s r s'"
proof (cases p)
  case (StartA req)
  have "store_step s s'"
    using assms(4) StartA start_prepare_state(1)
    by (fastforce simp: store_step_def same_size_nets split: and_then_split_asm)
  then show ?thesis
    using assms(4) StartA by (intro seg_ok_same [OF assms(1)]) (auto split: and_then_split_asm)
next
  case (StartC dir req)
  then show ?thesis using start_seg [OF assms(1)] assms(4) by simp
next
  case (HealthN)
  then show ?thesis
    using assms(4) store_okD(1) [OF assms(1)]
    by (intro seg_ok_same [OF assms(1)]) (auto split: option.splits)
next
  case WatchN
  then show ?thesis
    using assms(4) store_okD(1) [OF assms(1)]
    by (intro seg_ok_same [OF assms(1)]) (auto split: option.splits)
next
  case (WatchM n)
  then show ?thesis
    using assms(2,4) store_okD(1) [OF assms(1)]
    by (intro seg_ok_same [OF assms(1)]) (auto split: option.splits)
next
  case (HealthW n w)
  obtain r1 s1 where w: "wait_step E c n w s = (r1, s1)" by (cases "wait_step E c n w s")
  show ?thesis
    using HealthW assms(2,4) w
    by (intro wait_seg [OF assms(1) _ w, where f = "\<lambda>w' s. case w' of None \<Rightarrow> HealthB | Some x \<Rightarrow> HealthW n x" and cp = "(c, pick)", OF _ _ _ _ assms(4)])
       (auto split: option.splits)
next
  case HealthC
  have "store_step s s'"
    using assms(4) HealthC health_locked_store by (fastforce split: and_then_split_asm)
  then show ?thesis
    using assms(4) HealthC by (intro seg_ok_same [OF assms(1)]) (auto split: and_then_split_asm)
next
  case (RemoveC x)
  have "store_step s s'"
    using assms(4) RemoveC remove_locked_store(1) by (fastforce split: and_then_split_asm)
  then show ?thesis
    using assms(4) RemoveC remove_locked_store(2) store_okD(1) [OF assms(1)]
    by (intro seg_ok_same [OF assms(1)]) (fastforce split: and_then_split_asm)+
next
  case (RemoveW n w)
  obtain r1 s1 where w: "wait_step E c n w s = (r1, s1)" by (cases "wait_step E c n w s")
  show ?thesis
    using RemoveW assms(2,4) w
    by (intro wait_seg [OF assms(1) _ w, where f = "\<lambda>w' s. case w' of None \<Rightarrow> ReplyP (sv_clusterInfo s) | Some x \<Rightarrow> RemoveW n x" and cp = "(c, pick)", OF _ _ _ _ assms(4)])
       (auto split: option.splits)
next
  case (RestartC req)
  have "store_step s s'"
    using assms(4) RestartC restart_locked_store(1) by (fastforce split: and_then_split_asm)
  then show ?thesis
    using assms(4) RestartC restart_locked_store(2) store_okD(1) [OF assms(1)]
    by (intro seg_ok_same [OF assms(1)]) (fastforce split: and_then_split_asm)+
next
  case (RestartW idx cfg n w)
  obtain r1 s1 where w: "wait_step E c n w s = (r1, s1)" by (cases "wait_step E c n w s")
  show ?thesis
    using RestartW assms(2,4) w
    by (intro wait_seg [OF assms(1) _ w, where f = "\<lambda>w' s. case w' of None \<Rightarrow> RestartD idx cfg | Some x \<Rightarrow> RestartW idx cfg n x" and cp = "(c, pick)", OF _ _ _ _ assms(4)])
       (auto split: option.splits)
next
  case (RestartD idx cfg)
  have "store_step s s'"
    using assms(4) RestartD restart_finish_store by (fastforce split: and_then_split_asm)
  then show ?thesis
    using assms(4) RestartD by (intro seg_ok_same [OF assms(1)]) (auto split: and_then_split_asm)
next
  case (StopC i)
  then show ?thesis using stop_seg [OF assms(1,4)] by blast
next
  case (StopW i n)
  then show ?thesis using stop_seg [OF assms(1,4)] by blast
next
  case (RunA n)
  have "store_step s (upd_net n (start_done errs) s)" "store_step s (set_nw n nw s)" for errs nw
    by (rule store_step_upd_net; simp add: start_done_def)+
  then show ?thesis
    using assms(1,2,4) RunA
    by (auto simp: start_create_def seg_ok_def store_step_def same_size_def start_done_def split: sum.splits)
next
  case (RunW n w)
  then show ?thesis using run_seg [OF assms(1)] assms(2,4) by simp
next
  case WatchC
  have "store_step s s'"
    using assms(4) WatchC watch_ready_store by (fastforce split: and_then_split_asm)
  then show ?thesis
    using assms(4) WatchC by (intro seg_ok_same [OF assms(1)]) (auto split: and_then_split_asm)
qed (use assms in \<open>auto intro!: seg_ok_same split: if_splits option.splits and_then_split_asm\<close>)

section \<open>The invariant of the process\<close>

definition conc_ok :: "'nw conc \<Rightarrow> bool" where
  "conc_ok co \<longleftrightarrow>
     store_ok (co_srv co) \<and>
     (\<forall>i < length (co_threads co). pc_ok (length (sv_nets (co_srv co))) (co_threads co ! i)) \<and>
     (\<forall>i < length (co_threads co). holds (co_threads co ! i) \<longleftrightarrow> co_lock co = Some i) \<and>
     (\<forall>i. co_lock co = Some i \<longrightarrow> i < length (co_threads co)) \<and>
     (\<forall>k < length (sv_nets (co_srv co)). ln_donec (net (co_srv co) k) \<or>
        (\<exists>i < length (co_threads co). runs k (co_threads co ! i)))"

lemma conc_ok_init: "conc_ok init_conc"
  by (simp add: conc_ok_def init_conc_def store_ok_def init_server_def)

lemma is_request_pc: "is_request p \<Longrightarrow> pc_ok k p \<and> \<not> holds p \<and> \<not> runs n p"
  by (cases p) auto

lemma acquires_pc: "acquires p = Some p' \<Longrightarrow> pc_ok k p' \<and> holds p' \<and> \<not> holds p \<and> \<not> runs n p \<and> \<not> runs n p'"
  by (cases p) auto

text \<open>A list of threads in which thread \<open>i\<close> has moved to \<open>p'\<close> and begun \<open>new\<close>.\<close>

lemma nth_moved:
  assumes "i < length ts"
  shows "(ts[i := p'] @ new) ! j =
    (if j = i then p' else if j < length ts then ts ! j else new ! (j - length ts))"
  using assms by (auto simp: nth_append)

lemma conc_ok_moved:
  assumes "conc_ok co" and "i < length (co_threads co)" and "p = co_threads co ! i"
    and "seg_ok p (co_srv co) (Ret (p', new)) s'"
  shows "conc_ok (co\<lparr>co_srv := s', co_lock := if holds p \<and> \<not> holds p' then None else co_lock co,
                    co_threads := (co_threads co)[i := p'] @ new\<rparr>)" (is "conc_ok ?co")
proof -
  let ?ts = "co_threads co" and ?k = "length (sv_nets (co_srv co))" and ?k' = "length (sv_nets s')"
  have seg: "store_ok s'" "grows (co_srv co) s'" "pc_ok ?k' p'" "list_all (pc_ok ?k') new"
      "holds p' \<longrightarrow> holds p" "list_all (Not \<circ> holds) new"
      "\<And>k. runs k p \<Longrightarrow> runs k p' \<or> ln_donec (net s' k)"
      "\<And>k. k < ?k' \<Longrightarrow> ?k \<le> k \<Longrightarrow> \<exists>q \<in> set new. runs k q"
    using assms(4) by (auto simp: seg_ok_def)
  have lock: "holds p \<longleftrightarrow> co_lock co = Some i" using assms(1-3) by (simp add: conc_ok_def)
  have new: "j < length new \<Longrightarrow> pc_ok ?k' (new ! j) \<and> \<not> holds (new ! j)" for j
    using seg(4,6) by (auto simp: list_all_length)
  have pcs: "pc_ok ?k' ((?ts[i := p'] @ new) ! j)" if "j < length ?ts + length new" for j
    using that assms(1,2) seg(2,3) new [of "j - length ?ts"] pc_ok_mono [of ?k "?ts ! j" ?k']
    by (auto simp: nth_moved conc_ok_def grows_def)
  have holds: "holds ((?ts[i := p'] @ new) ! j) \<longleftrightarrow> co_lock ?co = Some j"
    if "j < length ?ts + length new" for j
    using that assms(1,2) seg(5) lock new [of "j - length ?ts"]
    by (auto simp: nth_moved conc_ok_def)
  have running: "ln_donec (net s' k) \<or> (\<exists>j < length ?ts + length new. runs k ((?ts[i := p'] @ new) ! j))"
    if k: "k < ?k'" for k
  proof (cases "k < ?k")
    case True
    then consider "ln_donec (net (co_srv co) k)" | j where "j < length ?ts" "runs k (?ts ! j)"
      using assms(1) by (auto simp: conc_ok_def)
    then show ?thesis
    proof cases
      case 1
      then show ?thesis using True seg(2) by (simp add: grows_def)
    next
      case 2
      then show ?thesis
        using seg(7) [of k] assms(2,3)
        by (cases "j = i") (auto simp: nth_moved intro!: exI [of _ j])
    qed
  next
    case False
    then obtain q where "q \<in> set new" "runs k q" using seg(8) [OF k] by auto
    then obtain j where "j < length new" "runs k (new ! j)" by (auto simp: in_set_conv_nth)
    then show ?thesis using assms(2) by (intro disjI2 exI [of _ "length ?ts + j"]) (simp add: nth_moved)
  qed
  show ?thesis
    unfolding conc_ok_def using seg(1) pcs holds running assms(1,2)
    by (auto simp: conc_ok_def)
qed

lemma failed_pc [simp]: "pc_ok k (failed e p)" "\<not> holds (failed e p)" "\<not> runs k (failed e p)"
  by (cases p; simp)+

lemma seg_ok_fail: "seg_ok p s (Fail e) s' \<Longrightarrow> store_ok s' \<Longrightarrow> seg_ok p s (Ret (failed e p, [])) s'"
  by (auto simp: seg_ok_def)

lemma step_thread_ok:
  assumes "conc_ok co" and "i < length (co_threads co)" and "step_thread E c i co = Some co'"
    and "\<not> co_crashed co'"
  shows "conc_ok co'"
proof -
  let ?p = "co_threads co ! i"
  obtain c1 pick where c: "c = (c1, pick)" by (cases c)
  show ?thesis
  proof (cases "acquires ?p")
    case (Some p')
    note acq = acquires_pc [OF Some]
    have co': "co' = co\<lparr>co_lock := Some i, co_threads := (co_threads co)[i := p']\<rparr>" and free: "co_lock co = None"
      using assms(3) Some by (auto simp: step_thread_def split: if_splits)
    have keep: "\<exists>j < length (co_threads co). runs k ((co_threads co)[i := p'] ! j)"
      if "j < length (co_threads co)" "runs k (co_threads co ! j)" for j k
      using that acq by (intro exI [of _ j], cases "j = i") auto
    have running: "\<forall>k < length (sv_nets (co_srv co)). ln_donec (net (co_srv co) k) \<or>
        (\<exists>j < length (co_threads co). runs k ((co_threads co)[i := p'] ! j))"
      using assms(1) keep unfolding conc_ok_def by blast
    have pcs: "pc_ok k ((co_threads co)[i := p'] ! j)"
      if "pc_ok k (co_threads co ! j)" for j k
      using that acq assms(2) by (cases "j = i") auto
    have locks: "holds ((co_threads co)[i := p'] ! j) \<longleftrightarrow> j = i" if "j < length (co_threads co)" for j
      using that acq assms(1,2) free by (cases "j = i") (auto simp: conc_ok_def)
    show ?thesis
      using assms(1,2) running pcs locks unfolding conc_ok_def co' by auto
  next
    case None
    obtain r s' where r: "run_pc E (c1, pick) ?p (co_srv co) = (r, s')"
      by (cases "run_pc E (c1, pick) ?p (co_srv co)")
    have seg: "seg_ok ?p (co_srv co) r s'"
      using assms(1,2) by (intro run_pc_seg [OF _ _ None r]) (simp_all add: conc_ok_def)
    have run: "run_pc E c ?p (co_srv co) = (r, s')" using r c by simp
    show ?thesis
    proof (cases r)
      case (Ret x)
      obtain p' new where x: "x = (p', new)" by (cases x)
      show ?thesis
        using conc_ok_moved [OF assms(1,2) refl, of p' new s'] seg assms(3) None run Ret x
        by (auto simp: step_thread_def Let_def split: if_splits)
    next
      case (Fail e)
      have "seg_ok ?p (co_srv co) (Ret (failed e ?p, [])) s'"
        using seg Fail by (auto intro: seg_ok_fail simp: seg_ok_def)
      from conc_ok_moved [OF assms(1,2) refl this] show ?thesis
        using assms(3) None run Fail by (auto simp: step_thread_def Let_def split: if_splits)
    qed (use assms(3,4) None run in \<open>auto simp: step_thread_def Let_def split: if_splits\<close>)
  qed
qed

lemma cstep_ok:
  assumes "cstep E co co'" and "conc_ok co" and "\<not> co_crashed co'"
  shows "conc_ok co'"
  using assms(1)
proof cases
  case (cstep_request p)
  then show ?thesis
    using assms(2) is_request_pc unfolding conc_ok_def
    by (auto simp: nth_append less_Suc_eq)
next
  case cstep_close
  then show ?thesis using assms(2) by (auto simp: conc_ok_def store_ok_def valid_net_def)
next
  case (cstep_thread i c)
  then show ?thesis using step_thread_ok [OF assms(2)] assms(3) by blast
qed

lemma cstep_crashed: "cstep E co co' \<Longrightarrow> \<not> co_crashed co"
  by (erule cstep.cases) simp_all

lemma reaches_ok: "reaches E co co' \<Longrightarrow> conc_ok co \<Longrightarrow> \<not> co_crashed co' \<Longrightarrow> conc_ok co'"
  by (induction rule: rtranclp_induct) (auto dest: cstep_crashed intro: cstep_ok)

end
