(* ===== verification/Conc_Props.thy ===== *)
theory Conc_Props
  imports Conc_Inv Handler_Props
begin

text \<open>
  Properties of the process with its goroutines interleaved: what the lock guarantees, that it
  never comes to a standstill, and the interleavings that end it or make it report a cluster
  healthy that is not.
\<close>

text \<open>A process to which one client has sent a stop request.\<close>

definition sample_stop :: "string list conc" where
  "sample_stop = init_conc\<lparr>co_threads := [StopA]\<rparr>"

lemma sample_stop_reached: "reaches sample_ext init_conc sample_stop"
proof -
  have "cstep sample_ext init_conc ((init_conc :: string list conc)\<lparr>co_threads := co_threads (init_conc :: string list conc) @ [StopA]\<rparr>)"
    by (rule cstep_request) (simp_all add: init_conc_def)
  then show ?thesis by (simp add: init_conc_def sample_stop_def)
qed

section \<open>The lock and the goroutines\<close>

text \<open>C5: In every reachable state at most one thread is in a critical section, and it is the one that
  holds the lock; the server has a network exactly when it has cluster information; a network
  whose \<open>donec\<close> is still open has a running goroutine that will close it.\<close>

theorem process_invariant:
  assumes "reaches E init_conc co" and "\<not> co_crashed co" and "s = co_srv co" and "ts = co_threads co"
  shows "(\<forall>i < length ts. holds (ts ! i) = (co_lock co = Some i)) \<and>
    (sv_network s = None) = (sv_clusterInfo s = None) \<and>
    (\<forall>n < length (sv_nets s). ln_donec (net s n) \<or> (\<exists>i < length ts. runs n (ts ! i)))"
  using reaches_ok [OF assms(1) conc_ok_init assms(2)] store_okD(4) [of s] assms(3,4)
  by (auto simp: conc_ok_def)

text \<open>A start request in its critical section.\<close>

lemma sample_starting:
  "\<exists>co dir. reaches sample_ext init_conc co \<and> co_threads co = [StartC dir sample_start] \<and> \<not> co_crashed co"
proof -
  let ?co = "\<lambda>s l p. \<lparr>co_srv = s, co_lock = l, co_threads = [p], co_crashed = False\<rparr>"
  obtain dir s1 where p: "start_prepare sample_ext sample_env sample_start (init_server :: string list server) = (Ret dir, s1)"
    by (simp add: start_prepare_def getClusterInfo_def init_server_def sample_env_def sample_ext_def sample_start_def)
  have c: "env_ok (fst (sample_env, True))" by (simp add: env_ok_def sample_env_def visit_ok_id)
  have "cstep sample_ext init_conc (?co init_server None (StartA sample_start))"
    using cstep_request [of "init_conc :: string list conc" "StartA sample_start" sample_ext] by (simp add: init_conc_def)
  moreover have "cstep sample_ext (?co init_server None (StartA sample_start)) (?co s1 None (StartB dir sample_start))"
    by (rule cstep_thread [OF _ _ c, of _ 0]) (simp_all add: step_thread_def p)
  moreover have "cstep sample_ext (?co s1 None (StartB dir sample_start)) (?co s1 (Some 0) (StartC dir sample_start))"
    by (rule cstep_thread [OF _ _ c, of _ 0]) (simp_all add: step_thread_def)
  ultimately have "reaches sample_ext init_conc (?co s1 (Some 0) (StartC dir sample_start))"
    by (rule converse_rtranclp_into_rtranclp [OF _ converse_rtranclp_into_rtranclp [OF _ r_into_rtranclp]])
  then show ?thesis by (intro exI [of _ "?co s1 (Some 0) (StartC dir sample_start)"] exI [of _ dir]) simp
qed

lemma process_invariant_witness:
  "\<exists>co dir. reaches sample_ext init_conc co \<and> co_threads co = [StartC dir sample_start] \<and>
     co_lock co = Some 0 \<and> (sv_network (co_srv co) = None) = (sv_clusterInfo (co_srv co) = None)"
proof -
  obtain co dir where co: "reaches sample_ext init_conc co" "co_threads co = [StartC dir sample_start]" "\<not> co_crashed co"
    using sample_starting by blast
  note inv = process_invariant [OF co(1,3) refl refl]
  have "holds (co_threads co ! 0) = (co_lock co = Some 0)"
    by (rule inv [THEN conjunct1, rule_format]) (simp add: co(2))
  then have "co_lock co = Some 0" by (simp add: co(2))
  with inv [THEN conjunct2, THEN conjunct1] show ?thesis
    using co(1,2) by (intro exI [of _ co] exI [of _ dir] conjI)
qed

text \<open>A segment outside the waits is never stuck; the timeout always ends a wait.\<close>

definition timeout_env :: call_env where
  "timeout_env = \<lparr>ce_event = HTimeout, ce_nodes = (\<lambda>m. m), ce_infos = (\<lambda>m. m),
                  ce_tempdir = Inl (ExtError ''no space'')\<rparr>"

lemma timeout_env_ok [simp]: "env_ok timeout_env" "visit_ok (ce_nodes timeout_env)"
  "visit_ok (ce_infos timeout_env)" "ce_event timeout_env = HTimeout"
  by (simp_all add: env_ok_def timeout_env_def visit_ok_id)

fun waits :: "pc \<Rightarrow> bool" where
  "waits (StopW _ _) = True"
| "waits (WatchA _ _) = True"
| "waits (Replied _) = True"
| "waits Done = True"
| "waits _ = False"

lemma wfh_publish_not_Block: "wfh_publish c n nodes s \<noteq> (Block, s')"
  by (auto simp: wfh_publish_def close_ready_def once_close_def Let_def
           split: option.splits outcome.splits if_splits elim: close_chan.elims)

lemma wait_step_not_Block: "wait_step E timeout_env n w s \<noteq> (Block, s')"
  by (cases w)
     (auto simp: wfh_enter_def event_possible_def wfh_nodes_def wfh_publish_not_Block
           split: and_then_splits option.splits sum.splits)

lemma start_locked_not_Block: "start_locked E dir req s \<noteq> (Block, s')"
  using newNetwork_not_Block [of E "sr_ExecPath req" dir "StartRequest_GetWhitelistedSubnets (Some req)"
      "StartRequest_GetLogLevel (Some req)" s]
  by (auto simp: start_locked_def Let_def split: option.splits prod.splits outcome.splits)

lemma locked_not_Block:
  "health_locked c s \<noteq> (Block, s')" "remove_locked E c x s \<noteq> (Block, s')"
  "restart_locked E req s \<noteq> (Block, s')" "restart_finish idx cfg s \<noteq> (Block, s')"
  "stop_locked E s \<noteq> (Block, s')" "watch_ready s \<noteq> (Block, s')"
  by (auto simp: health_locked_def remove_locked_def restart_locked_def restart_find_def restart_update_def
                 restart_config_def restart_swap_def restart_finish_def stop_locked_def stop_begin_def
                 watch_ready_def Let_def
           split: option.splits prod.splits and_then_splits implConfig.splits if_splits outcome.splits
           elim: close_chan.elims)

lemma run_pc_not_Block:
  assumes "acquires p = None" and "\<not> waits p"
  shows "run_pc E (timeout_env, pick) p s \<noteq> (Block, s')"
proof (cases p)
  case (StartA req)
  then show ?thesis using start_prepare_state(2) by (fastforce split: and_then_splits)
next
  case (RunW n w)
  then show ?thesis
    by (auto simp: wait_step_not_Block split: prod.splits outcome.splits option.splits)
next
  case (RunA n)
  then show ?thesis by (auto simp: start_create_def split: and_then_splits sum.splits)
qed (use assms in
      \<open>auto simp: locked_not_Block start_locked_not_Block wait_step_not_Block Status_def URIs_collect_def Let_def split: and_then_splits option.splits if_splits\<close>)

lemma step_thread_runs:
  assumes "acquires (co_threads co ! i) = None" and "reads_info (co_threads co ! i) \<longrightarrow> co_lock co = None"
    and "\<And>s'. run_pc E c (co_threads co ! i) (co_srv co) \<noteq> (Block, s')"
  shows "\<exists>co'. step_thread E c i co = Some co'"
  using assms by (auto simp: step_thread_def Let_def split: prod.splits outcome.splits)

text \<open>The process never comes to a standstill while a request is in progress: as long as some
  thread is neither finished nor the watcher of a network that is not ready, some thread can take
  a step.  In particular a \<open>Stop\<close> that waits for \<open>donec\<close> waits for a goroutine that can run, and
  no cycle of threads waits for the lock.\<close>

theorem process_never_stuck:
  assumes "reaches E init_conc co" and "\<not> co_crashed co"
    and "i < length (co_threads co)" and "co_threads co ! i \<noteq> Done"
    and "\<And>r. co_threads co ! i \<noteq> Replied r" and "\<And>n m. co_threads co ! i \<noteq> WatchA n m"
  shows "\<exists>c j co'. env_ok (fst c) \<and> j < length (co_threads co) \<and> step_thread E c j co = Some co'"
proof -
  have ok: "conc_ok co" using reaches_ok [OF assms(1) conc_ok_init assms(2)] .
  let ?c = "(timeout_env, True)"
  have env: "env_ok (fst ?c)" by simp
  show ?thesis
  proof (cases "co_lock co")
    case (Some l)
    have l: "l < length (co_threads co)" "holds (co_threads co ! l)"
      using ok Some by (auto simp: conc_ok_def)
    have noread: "acquires (co_threads co ! l) = None" "\<not> reads_info (co_threads co ! l)"
      using l(2) by (cases "co_threads co ! l"; simp)+
    show ?thesis
    proof (cases "waits (co_threads co ! l)")
      case False
      then show ?thesis
        using step_thread_runs [OF noread(1), of E ?c] noread(2) run_pc_not_Block [OF noread(1)] l(1) env
        by blast
    next
      case True
      then obtain k n where w: "co_threads co ! l = StopW k n" using l(2) by (cases "co_threads co ! l") auto
      have n: "n < length (sv_nets (co_srv co))" using ok l(1) w by (auto simp: conc_ok_def)
      show ?thesis
      proof (cases "ln_donec (net (co_srv co) n)")
        case True
        then show ?thesis
          using step_thread_runs [OF noread(1), of E ?c] noread(2) w l(1) env
          by (fastforce simp: stop_finish_def)
      next
        case False
        then obtain j where j: "j < length (co_threads co)" "runs n (co_threads co ! j)"
          using ok n by (auto simp: conc_ok_def)
        then have pj: "acquires (co_threads co ! j) = None" "\<not> waits (co_threads co ! j)"
            "\<not> reads_info (co_threads co ! j)"
          by (cases "co_threads co ! j"; simp)+
        then show ?thesis
          using step_thread_runs [OF pj(1), of E ?c] run_pc_not_Block [OF pj(1,2)] j(1) env by blast
      qed
    qed
  next
    case None
    then have "\<not> holds (co_threads co ! i)" using ok assms(3) by (auto simp: conc_ok_def)
    show ?thesis
    proof (cases "acquires (co_threads co ! i)")
      case (Some p')
      then show ?thesis using None assms(3) env by (fastforce simp: step_thread_def)
    next
      case no: None
      then have "\<not> waits (co_threads co ! i)"
        using assms(4-6) \<open>\<not> holds (co_threads co ! i)\<close> by (cases "co_threads co ! i") auto
      then show ?thesis
        using step_thread_runs [OF no, of E ?c] None run_pc_not_Block [OF no] assms(3) env by blast
    qed
  qed
qed

lemma process_never_stuck_witness:
  "\<exists>c j co'. env_ok (fst c) \<and> j < length (co_threads sample_stop) \<and>
     step_thread sample_ext c j sample_stop = Some co'"
  by (rule process_never_stuck [OF sample_stop_reached, of 0]) (simp_all add: sample_stop_def init_conc_def)

end
