(* ===== verification/Conc_Races.thy ===== *)
theory Conc_Races
  imports Conc_Props Session_Ok
begin

text \<open>
  Interleavings of requests and goroutines that the code allows and that end the process or
  publish something false.  Each theorem starts from any state of the process in which the lock is
  free and the named requests would succeed one after the other.
\<close>

section \<open>Executions built from segments\<close>

abbreviation proc :: "'nw server \<Rightarrow> nat option \<Rightarrow> pc list \<Rightarrow> 'nw conc" where
  "proc s l ts \<equiv> \<lparr>co_srv = s, co_lock = l, co_threads = ts, co_crashed = False\<rparr>"

lemma proc_request:
  assumes "is_request p"
  shows "cstep E (proc s l ts) (proc s l (ts @ [p]))"
  using cstep_request [of "proc s l ts" p E] assms by simp

lemma proc_step:
  assumes "i < length ts" and "acquires (ts ! i) = None" and "reads_info (ts ! i) \<Longrightarrow> l = None"
    and "run_pc E c (ts ! i) s = (Ret (p', new), s')" and "env_ok (fst c)"
  shows "cstep E (proc s l ts)
    (proc s' (if holds (ts ! i) \<and> \<not> holds p' then None else l) (ts[i := p'] @ new))"
  using cstep_thread [of "proc s l ts" i c E] assms by (simp add: step_thread_def Let_def)

lemma proc_lock:
  assumes "i < length ts" and "acquires (ts ! i) = Some p'"
  shows "cstep E (proc s None ts) (proc s (Some i) (ts[i := p']))"
  using cstep_thread [of "proc s None ts" i "(timeout_env, True)" E] assms by (simp add: step_thread_def)

text \<open>The step of thread \<open>i\<close>, which is possible, ends the process.\<close>

lemma proc_panic:
  assumes "i < length ts" and "acquires (ts ! i) = None" and "reads_info (ts ! i) \<Longrightarrow> l = None"
    and "run_pc E c (ts ! i) s = (Panic, s')"
  shows "\<exists>co. step_thread E c i (proc s l ts) = Some co \<and> co_crashed co"
  using assms by (simp add: step_thread_def Let_def)

lemma proc_crashes:
  assumes "i < length ts" and "acquires (ts ! i) = None" and "reads_info (ts ! i) \<Longrightarrow> l = None"
    and "run_pc E c (ts ! i) s = (Panic, s')" and "env_ok (fst c)"
  shows "\<exists>co. reaches E (proc s l ts) co \<and> co_crashed co"
proof -
  obtain co where "step_thread E c i (proc s l ts) = Some co" "co_crashed co"
    using proc_panic [OF assms(1-4)] by blast
  then show ?thesis using cstep_thread [of "proc s l ts" i c E co] assms(1,5) by auto
qed

text \<open>A request begins its thread: the first segment is run at once.\<close>

lemma proc_begin:
  assumes "is_request p" and "run_pc E c p s = (Ret (p', new), s')" and "env_ok (fst c)"
  shows "reaches E (proc s None ts) (proc s' None (ts @ p' # new))"
proof -
  have "acquires p = None" "\<not> holds p" using assms(1) by (cases p; simp)+
  then have "cstep E (proc s None (ts @ [p])) (proc s' None (ts @ p' # new))"
    using proc_step [of "length ts" "ts @ [p]" None E c s p' new s'] assms(2,3) by simp
  with proc_request [OF assms(1), of E s None ts] show ?thesis
    by (meson converse_rtranclp_into_rtranclp r_into_rtranclp)
qed

lemma reaches_step: "reaches E a b \<Longrightarrow> cstep E b d \<Longrightarrow> reaches E a d"
  by (rule rtranclp.rtrancl_into_rtrancl)

lemma proc_last:
  assumes "acquires p = None" and "\<not> reads_info p" and "run_pc E c p s = (Ret (p', new), s')"
    and "env_ok (fst c)"
  shows "cstep E (proc s l (ts @ [p]))
    (proc s' (if holds p \<and> \<not> holds p' then None else l) (ts @ p' # new))"
  using proc_step [of "length ts" "ts @ [p]" l E c s p' new s'] assms by simp

lemma proc_last_lock:
  "acquires p = Some p' \<Longrightarrow>
   cstep E (proc s None (ts @ [p])) (proc s (Some (length ts)) (ts @ [p']))"
  using proc_lock [of "length ts" "ts @ [p]" p' E s] by simp

text \<open>The reply of a thread that has given back the lock.\<close>

lemma proc_reply:
  assumes "i < length ts" and "ts ! i = ReplyP x"
  shows "cstep E (proc s l ts) (proc s l (ts[i := Replied (Ret (marshal x s))]))"
  using proc_step [of i ts l E "(timeout_env, True)" s "Replied (Ret (marshal x s))" "[]" s] assms by simp

abbreviation answered_with :: "nat \<Rightarrow> 'nw server \<Rightarrow> pc" where
  "answered_with i s \<equiv> Replied (Ret (marshal (Some i) s))"

text \<open>A stop and a start that succeed, run without interruption, as executions of the process.\<close>

lemma Stop_reaches:
  assumes "Stop E s = (Ret i, s')"
  shows "reaches E (proc s None ts) (proc s' None (ts @ [answered_with i s']))"
proof -
  let ?c = "(timeout_env, True)"
  obtain j n s1 where j: "sv_clusterInfo s = Some j" and l: "stop_locked E s = (Ret n, s1)"
    and d: "ln_donec (net s1 n)" and f: "stop_finish j s1 = (Ret i, s')"
    using assms by (auto simp: Stop_def getClusterInfo_def split: option.splits and_then_split_asm if_splits)
  have "reaches E (proc s None ts) (proc s None (ts @ [StopB j]))"
    using proc_begin [of StopA E ?c s "StopB j" "[]" s ts] j by (simp add: getClusterInfo_def)
  also have "cstep E (proc s None (ts @ [StopB j])) (proc s (Some (length ts)) (ts @ [StopC j]))"
    by (rule proc_last_lock) simp
  also have "cstep E (proc s (Some (length ts)) (ts @ [StopC j])) (proc s1 (Some (length ts)) (ts @ [StopW j n]))"
    using proc_last [of "StopC j" E ?c s "StopW j n" "[]" s1 "Some (length ts)" ts] l by simp
  also have "cstep E (proc s1 (Some (length ts)) (ts @ [StopW j n])) (proc s' None (ts @ [ReplyP (Some i)]))"
    using proc_last [of "StopW j n" E ?c s1 "ReplyP (Some i)" "[]" s' "Some (length ts)" ts] d f by simp
  also (reaches_step) have "cstep E (proc s' None (ts @ [ReplyP (Some i)])) (proc s' None (ts @ [answered_with i s']))"
    using proc_reply [of "length ts" "ts @ [ReplyP (Some i)]" "Some i" E s' None] by simp
  finally (reaches_step) show ?thesis .
qed

lemma Start_reaches:
  assumes "Start E c req s = (Ret (i, n), s')" and "env_ok c"
  shows "reaches E (proc s None ts) (proc s' None (ts @ [answered_with i s', RunA n, WatchN]))"
proof -
  obtain dir s1 where p: "start_prepare E c req s = (Ret dir, s1)"
    and l: "start_locked E dir req s1 = (Ret (i, n), s')"
    using assms(1) by (auto simp: Start_def split: and_then_split_asm)
  have "reaches E (proc s None ts) (proc s1 None (ts @ [StartB dir req]))"
    using proc_begin [of "StartA req" E "(c, True)" s "StartB dir req" "[]" s1 ts] p assms(2) by simp
  also have "cstep E (proc s1 None (ts @ [StartB dir req])) (proc s1 (Some (length ts)) (ts @ [StartC dir req]))"
    by (rule proc_last_lock) simp
  also have "cstep E (proc s1 (Some (length ts)) (ts @ [StartC dir req]))
      (proc s' None (ts @ [ReplyP (Some i), RunA n, WatchN]))"
    using proc_last [of "StartC dir req" E "(c, True)" s1 "ReplyP (Some i)" "[RunA n, WatchN]" s' "Some (length ts)" ts]
      l assms(2) by simp
  also (reaches_step) have "cstep E (proc s' None (ts @ [ReplyP (Some i), RunA n, WatchN]))
      (proc s' None (ts @ [answered_with i s', RunA n, WatchN]))"
    using proc_reply [of "length ts" "ts @ [ReplyP (Some i), RunA n, WatchN]" "Some i" E s' None] by simp
  finally (reaches_step) show ?thesis .
qed

lemma Stop_Ret:
  assumes "Stop E s = (Ret i, s')"
  shows "sv_network s' = None" and "sv_clusterInfo s \<noteq> None" and "sv_network s \<noteq> None"
  using assms
  by (auto simp: Stop_def getClusterInfo_def stop_locked_def stop_finish_def
           split: option.splits and_then_split_asm if_splits)

lemma Start_Ret_net:
  assumes "Start E c req s = (Ret (i, n), s')"
  shows "sv_network s' = Some n" and "sv_clusterInfo s' = Some i" and "ln_nw (net s' n) = None"
    and "\<not> oc_closed (ln_ready (net s' n))" and "i < length (sv_infos s')" and "\<not> ln_stopc (net s' n)"
proof -
  obtain dir s1 where "start_locked E dir req s1 = (Ret (i, n), s')"
    using assms by (auto simp: Start_def split: and_then_split_asm)
  then show "sv_network s' = Some n" and "sv_clusterInfo s' = Some i" and "ln_nw (net s' n) = None"
    and "\<not> oc_closed (ln_ready (net s' n))" and "i < length (sv_infos s')" and "\<not> ln_stopc (net s' n)"
    by (auto simp: start_locked_def newNetwork_def new_once_chan_def Let_def
             split: option.splits prod.splits outcome.splits)
qed

lemma Start_Ret_valid:
  assumes "Start E c req s = (Ret (i, n), s')"
  shows "n < length (sv_nets s')"
proof -
  obtain dir s1 where "start_locked E dir req s1 = (Ret (i, n), s')"
    using assms by (auto simp: Start_def split: and_then_split_asm)
  then show ?thesis
    by (auto simp: start_locked_def newNetwork_def Let_def split: option.splits prod.splits outcome.splits)
qed

section \<open>Races\<close>

text \<open>C25: A health request that has seen the cluster information before a stop request clears it
  dereferences a nil network: whenever a stop would succeed, the process can come to a state in which
  a health request has passed its check, the stop has been answered and the server has no network, and
  there every step of the thread of the health request, which can be taken at once, ends the process.\<close>

theorem Health_racing_Stop_panics:
  assumes "Stop E s = (Ret i, s')"
  shows "reaches E (proc s None ts) (proc s' None (ts @ [HealthN, answered_with i s'])) \<and>
    sv_network s' = None \<and>
    (\<forall>c. \<exists>co. step_thread E c (length ts) (proc s' None (ts @ [HealthN, answered_with i s'])) = Some co \<and>
         co_crashed co)"
proof (intro conjI allI)
  let ?c = "(timeout_env, True)"
  have "reaches E (proc s None ts) (proc s None (ts @ [HealthN]))"
    using proc_begin [of HealthA E ?c s HealthN "[]" s ts] Stop_Ret(2) [OF assms]
    by (simp add: getClusterInfo_def)
  also have "reaches E (proc s None (ts @ [HealthN])) (proc s' None ((ts @ [HealthN]) @ [answered_with i s']))"
    by (rule Stop_reaches [OF assms])
  finally show "reaches E (proc s None ts) (proc s' None (ts @ [HealthN, answered_with i s']))" by simp
  show none: "sv_network s' = None" by (rule Stop_Ret(1) [OF assms])
  show "\<exists>co. step_thread E c (length ts) (proc s' None (ts @ [HealthN, answered_with i s'])) = Some co \<and>
         co_crashed co" for c
    using none by (cases c) (intro proc_panic [of _ _ _ _ _ s'], simp_all add: nth_append)
qed

lemma sample_Stop: "\<exists>i s'. Stop sample_ext sample_up = (Ret i, s')"
proof -
  have "abs_cluster sample_up = Up {''node1'', ''node2''}" by simp
  then show ?thesis
    using Stop_ok [OF sample_up_ok _ prod.collapse [symmetric], of _ sample_ext] by (metis prod.collapse)
qed

lemma Health_racing_Stop_panics_witness:
  "\<exists>co i. reaches sample_ext (proc sample_up None []) co \<and> co_threads co = [HealthN, answered_with i (co_srv co)] \<and>
     (\<exists>co'. step_thread sample_ext (timeout_env, True) 0 co = Some co' \<and> co_crashed co')"
proof -
  obtain i s' where "Stop sample_ext sample_up = (Ret i, s')" using sample_Stop by blast
  from Health_racing_Stop_panics [OF this, of "[]"] show ?thesis
    by (intro exI [of _ "proc s' None [HealthN, answered_with i s']"] exI [of _ i]) simp
qed

text \<open>A health request between the start and the goroutine that creates the network.\<close>

lemma early_health:
  assumes "Start E c req s = (Ret (i, n), s')" and "env_ok c"
  shows "reaches E (proc s None ts) (proc s' None (ts @ [answered_with i s', RunA n, WatchN, HealthW n WEnter])) \<and>
    sv_network s' = Some n \<and> ln_nw (net s' n) = None \<and>
    (\<forall>c. \<exists>co. step_thread E c (length ts + 3)
           (proc s' None (ts @ [answered_with i s', RunA n, WatchN, HealthW n WEnter])) = Some co \<and> co_crashed co)"
proof (intro conjI allI)
  let ?c = "(timeout_env, True)"
  let ?ts = "ts @ [answered_with i s', RunA n, WatchN]"
  note st = Start_Ret_net [OF assms(1)]
  have "reaches E (proc s None ts) (proc s' None ?ts)" by (rule Start_reaches [OF assms])
  also have "reaches E (proc s' None ?ts) (proc s' None (?ts @ [HealthN]))"
    using proc_begin [of HealthA E ?c s' HealthN "[]" s' ?ts] st(2) by (simp add: getClusterInfo_def)
  also have "cstep E (proc s' None (?ts @ [HealthN])) (proc s' None (?ts @ [HealthW n WEnter]))"
    using proc_last [of HealthN E ?c s' "HealthW n WEnter" "[]" s' None ?ts] st(1) by simp
  finally (reaches_step)
  show "reaches E (proc s None ts) (proc s' None (ts @ [answered_with i s', RunA n, WatchN, HealthW n WEnter]))"
    by simp
  show "sv_network s' = Some n" "ln_nw (net s' n) = None" by (rule st)+
  then show "\<exists>co. step_thread E c (length ts + 3)
      (proc s' None (ts @ [answered_with i s', RunA n, WatchN, HealthW n WEnter])) = Some co \<and> co_crashed co" for c
    by (cases c) (intro proc_panic [of _ _ _ _ _ s'], simp_all add: nth_append wfh_enter_def)
qed

text \<open>The start of the sample, which does not depend on whether the network can be created later.\<close>

lemma sample_Start_any:
  fixes f :: "NodeConfig list \<Rightarrow> go_error + string list"
  defines "E \<equiv> sample_ext\<lparr>x_NewNetwork := f\<rparr>"
  shows "\<exists>i n s'. Start E sample_env sample_start init_server = (Ret (i, n), s') \<and> \<not> sv_closed s'"
proof -
  obtain r s' where st: "Start E sample_env sample_start init_server = (r, s')"
    by (cases "Start E sample_env sample_start (init_server :: string list server)")
  have down: "store_ok (init_server :: string list server)" "abs_cluster (init_server :: string list server) = Down"
    using cluster_ok_init [of set] by (simp_all add: cluster_ok_def init_server_def abs_cluster_def)
  have few: "length (x_NewDefaultConfig E (sr_ExecPath sample_start)) \<le> length colors"
    by (simp add: E_def sample_ext_def colors_def)
  have closed: "\<not> sv_closed s'"
    using st
    by (auto simp: Start_def start_prepare_def start_locked_def newNetwork_def init_server_def Let_def
             split: option.splits if_splits prod.splits outcome.splits and_then_split_asm sum.splits)
  from down st few show ?thesis
  proof (cases rule: Start_down)
    case (failed e)
    then show ?thesis
      using st
      by (auto simp: Start_def start_prepare_def start_locked_def getClusterInfo_def init_server_def
                     sample_env_def E_def sample_ext_def sample_start_def newNetwork_def Let_def
               split: option.splits)
  qed (use st closed in auto)
qed

lemma sample_Start: "\<exists>i n s'. Start sample_ext sample_env sample_start init_server = (Ret (i, n), s')"
  using sample_Start_any [of "x_NewNetwork sample_ext"] by auto

lemma sample_Start_cfg:
  "\<exists>i n s'. Start sample_ext sample_env sample_start init_server = (Ret (i, n), s') \<and>
     ln_cfg (net s' n) \<noteq> []"
proof -
  obtain i n s' where st: "Start sample_ext sample_env sample_start init_server = (Ret (i, n), s')"
    using sample_Start by blast
  then have "ln_cfg (net s' n) \<noteq> []"
    by (auto simp: Start_def start_prepare_def start_locked_def newNetwork_def getClusterInfo_def
                  init_server_def sample_env_def sample_ext_def sample_start_def Let_def numeral_eq_Suc colors_def
             split: option.splits if_splits prod.splits)
  then show ?thesis using st by blast
qed

text \<open>C26: A start request answers before the network exists: a health request that arrives before the
  goroutine has created it calls a method of a nil interface.  Whenever a start would succeed, the
  process can come to a state in which the start has been answered, its goroutine has not run, a
  health request is at the call, and there every step of the thread of the health request, which can
  be taken at once, ends the process.\<close>

theorem Health_after_Start_panics:
  assumes "Start E c req s = (Ret (i, n), s')" and "env_ok c"
  shows "reaches E (proc s None ts) (proc s' None (ts @ [answered_with i s', RunA n, WatchN, HealthW n WEnter])) \<and>
    sv_network s' = Some n \<and> ln_nw (net s' n) = None \<and>
    (\<forall>c. \<exists>co. step_thread E c (length ts + 3)
           (proc s' None (ts @ [answered_with i s', RunA n, WatchN, HealthW n WEnter])) = Some co \<and> co_crashed co)"
  by (rule early_health [OF assms])

lemma Health_after_Start_panics_witness:
  "\<exists>co n. reaches sample_ext init_conc co \<and> co_threads co ! 3 = HealthW n WEnter \<and>
     (\<exists>co'. step_thread sample_ext (timeout_env, True) 3 co = Some co' \<and> co_crashed co')"
proof -
  obtain i n s' where "Start sample_ext sample_env sample_start init_server = (Ret (i, n), s')"
    using sample_Start by blast
  from Health_after_Start_panics [OF this sample_env_ok, of "[]"] show ?thesis
    by (intro exI [of _ "proc s' None [answered_with i s', RunA n, WatchN, HealthW n WEnter]"] exI [of _ n])
       (simp add: init_conc_def)
qed

text \<open>C27: The goroutine that publishes the addresses runs without the lock: a remove request that
  deletes a node the goroutine has already got from the network makes its loop dereference a nil
  entry.  Whenever the goroutine holds a node the remove request would remove, the process can come to
  a state in which the request has done so and waits, and there every step of the goroutine, which can
  be taken at once, ends the process.\<close>

theorem RemoveNode_racing_publish_panics:
  assumes "store_ok s" and "sv_network s = Some n"
    and "k < length ts" and "ts ! k = RunW n (WPublish nodes)" and "x \<in> keys nodes"
    and "env_ok c" and "remove_locked E c x s = (Ret m, s')"
  shows "reaches E (proc s None ts) (proc s' (Some (length ts)) (ts @ [RemoveW m WEnter])) \<and>
    x \<notin> keys (net_map s' n) \<and>
    (\<forall>c pick. env_ok c \<longrightarrow>
       (\<exists>co. step_thread E (c, pick) k (proc s' (Some (length ts)) (ts @ [RemoveW m WEnter])) = Some co \<and>
             co_crashed co))"
proof (intro conjI allI impI)
  let ?l = "Some (length ts)"
  have valid: "valid_net n s" using assms(1,2) by (rule store_okD(2))
  obtain i where i: "sv_clusterInfo s = Some i" using store_okD(4) [OF assms(1)] assms(2) by auto
  have "net_map s' n = AList.delete x (net_map s n) \<and> ln_nodeInfos (net s' n) = ln_nodeInfos (net s n)"
    using assms(2,7) valid net_map_upd_map [of n "set_nw n _ s"]
    by (auto simp: remove_locked_def Let_def split: option.splits prod.splits)
  then show gone: "x \<notin> keys (net_map s' n)" by simp
  have "reaches E (proc s None ts) (proc s None (ts @ [RemoveB x]))"
    using proc_begin [of "RemoveA x" E "(c, True)" s "RemoveB x" "[]" s ts] i assms(6)
    by (simp add: getClusterInfo_def)
  also have "cstep E (proc s None (ts @ [RemoveB x])) (proc s ?l (ts @ [RemoveC x]))"
    by (rule proc_last_lock) simp
  also have "cstep E (proc s ?l (ts @ [RemoveC x])) (proc s' ?l (ts @ [RemoveW m WEnter]))"
    using proc_last [of "RemoveC x" E "(c, True)" s "RemoveW m WEnter" "[]" s' ?l ts] assms(6,7) by simp
  finally (reaches_step) show "reaches E (proc s None ts) (proc s' ?l (ts @ [RemoveW m WEnter]))" .
  show "\<exists>co. step_thread E (d, pick) k (proc s' ?l (ts @ [RemoveW m WEnter])) = Some co \<and> co_crashed co"
    if "env_ok d" for d pick
  proof -
    have "wfh_loop (ce_nodes d nodes) (net_map s' n, ln_apiClis (net s' n)) = None"
      using gone assms(5) that by (auto simp: wfh_loop_None_iff env_ok_def)
    then have "run_pc E (d, pick) (RunW n (WPublish nodes)) s' = (Panic, s')"
      by (simp add: wfh_publish_def)
    then show ?thesis
      using assms(3,4) by (intro proc_panic [of _ _ _ _ _ s']) (simp_all add: nth_append)
  qed
qed

lemma RemoveNode_racing_publish_panics_witness:
  "\<exists>co. reaches sample_ext (proc sample_up None [RunW 0 (WPublish [(''node1'', sample_node ''node1'')])]) co \<and>
     co_threads co ! 0 = RunW 0 (WPublish [(''node1'', sample_node ''node1'')]) \<and>
     (\<exists>co'. step_thread sample_ext (sample_env, True) 0 co = Some co' \<and> co_crashed co')"
proof -
  obtain m s' where "remove_locked sample_ext sample_env ''node1'' sample_up = (Ret m, s')"
    using sample_valid by (auto simp: remove_locked_def sample_net_def sample_ext_def Let_def)
  then show ?thesis
    using RemoveNode_racing_publish_panics [of sample_up 0 0 "[RunW 0 (WPublish [(''node1'', sample_node ''node1'')])]"
        "[(''node1'', sample_node ''node1'')]" "''node1''" sample_env sample_ext m s']
      sample_up_ok sample_env_ok
    by (intro exI [of _ "proc s' (Some 1) [RunW 0 (WPublish [(''node1'', sample_node ''node1'')]), RemoveW m WEnter]"])
       (simp add: cluster_ok_def)
qed

text \<open>C28: A watcher that has seen its network ready but has to wait for the lock publishes into
  whatever cluster it finds afterwards: a stop and a new start in between, and the new cluster is
  reported healthy although its network is not even created.\<close>

theorem stale_watcher_reports_healthy:
  assumes "k < length ts" and "ts ! k = WatchB"
    and "Stop E s = (Ret i, s1)" and "Start E c req s1 = (Ret (j, n), s2)" and "env_ok c"
  shows "\<exists>co. reaches E (proc s None ts) co \<and> \<not> co_crashed co \<and>
    sv_clusterInfo (co_srv co) = Some j \<and> ci_Healthy (info_at (co_srv co) j) \<and>
    sv_network (co_srv co) = Some n \<and> \<not> oc_closed (ln_ready (net (co_srv co) n)) \<and>
    ln_nw (net (co_srv co) n) = None"
proof -
  let ?ts = "(ts @ [answered_with i s1]) @ [answered_with j s2, RunA n, WatchN]"
  note st = Start_Ret_net [OF assms(4)]
  obtain s3 where w: "watch_ready s2 = (Ret (), s3)" and
    s3: "sv_clusterInfo s3 = Some j" "sv_network s3 = Some n" "ci_Healthy (info_at s3 j)" "net s3 n = net s2 n"
    using st(1,2,5) by (simp add: watch_ready_def)
  have "reaches E (proc s None ts) (proc s1 None (ts @ [answered_with i s1]))" by (rule Stop_reaches [OF assms(3)])
  also have "reaches E (proc s1 None (ts @ [answered_with i s1])) (proc s2 None ?ts)" by (rule Start_reaches [OF assms(4,5)])
  also have "cstep E (proc s2 None ?ts) (proc s2 (Some k) (?ts[k := WatchC]))"
    using assms(1,2) by (intro proc_lock) (simp_all add: nth_append)
  also have "cstep E (proc s2 (Some k) (?ts[k := WatchC])) (proc s3 None ((?ts[k := WatchC])[k := Done] @ []))"
    using proc_step [of k "?ts[k := WatchC]" "Some k" E "(c, True)" s2 Done "[]" s3] assms(1,5) w by simp
  finally (reaches_step) have "reaches E (proc s None ts) (proc s3 None ((?ts[k := WatchC])[k := Done] @ []))" .
  then show ?thesis
    using s3 st(3,4) by (intro exI [of _ "proc s3 None ((?ts[k := WatchC])[k := Done] @ [])"]) simp
qed

text \<open>The cluster of the sample is stopped and a new one is started.\<close>

lemma sample_restarts:
  obtains i s1 j n s2 dir where "Stop sample_ext sample_up = (Ret i, s1)"
    and "Start sample_ext sample_env sample_start s1 = (Ret (j, n), s2)"
    and "store_ok s2" and "fresh n s2" and "sv_network s2 = Some n" and "sv_clusterInfo s2 = Some j"
    and "info_at s2 j = new_info sample_ext dir"
proof -
  obtain i s1 where stop: "Stop sample_ext sample_up = (Ret i, s1)" using sample_Stop by blast
  obtain r s2 where st: "Start sample_ext sample_env sample_start s1 = (r, s2)"
    by (cases "Start sample_ext sample_env sample_start s1")
  have s1: "store_ok s1" "abs_cluster s1 = Down"
    using Stop_ok [OF sample_up_ok _ stop] by (auto simp: cluster_ok_def)
  have few: "length (x_NewDefaultConfig sample_ext (sr_ExecPath sample_start)) \<le> length colors"
    by (simp add: sample_ext_def colors_def)
  from s1 st few show ?thesis
  proof (cases rule: Start_down)
    case (failed e)
    have "sv_clusterInfo s1 = None" "sv_network s1 = None"
      using s1 store_okD(4) [OF s1(1)] by (simp_all add: abs_cluster_Down_iff)
    then show ?thesis
      using st failed(1)
      by (auto simp: Start_def start_prepare_def start_locked_def getClusterInfo_def
                     sample_env_def sample_ext_def sample_start_def newNetwork_def Let_def
               split: option.splits)
  next
    case (started j n dir)
    show ?thesis by (rule that [OF stop, of j n s2 dir]) (use st started in simp_all)
  qed
qed

lemma stale_watcher_reports_healthy_witness:
  "\<exists>co. reaches sample_ext (proc sample_up None [WatchB]) co \<and> \<not> co_crashed co \<and>
    (\<exists>j n. sv_clusterInfo (co_srv co) = Some j \<and> ci_Healthy (info_at (co_srv co) j) \<and>
       sv_network (co_srv co) = Some n \<and> ln_nw (net (co_srv co) n) = None)"
proof -
  obtain i s1 j n s2 where stop: "Stop sample_ext sample_up = (Ret i, s1)"
      and start: "Start sample_ext sample_env sample_start s1 = (Ret (j, n), s2)"
    by (rule sample_restarts) blast
  show ?thesis
    using stale_watcher_reports_healthy [of 0 "[WatchB]", OF _ _ stop start sample_env_ok] by fastforce
qed

end
