(* ===== verification/Conc_Serial.thy ===== *)
theory Conc_Serial
  imports Conc_Races
begin

text \<open>
  The sequential view is contained in the interleaved one: a thread that runs without interruption
  has the effect of its handler and replies what the handler returns.
\<close>

section \<open>A thread without interruption\<close>

fun finished :: "pc \<Rightarrow> bool" where
  "finished Done = True"
| "finished (Replied _) = True"
| "finished _ = False"

text \<open>
  The result is how the thread ends and the goroutines it has begun, or a panic; the number bounds
  the segments.
\<close>

fun alone ::
  "nat \<Rightarrow> 'nw ext \<Rightarrow> call_env \<times> bool \<Rightarrow> pc \<Rightarrow> 'nw server \<Rightarrow> (pc \<times> pc list) outcome \<times> 'nw server" where
  "alone 0 E c p s = (Block, s)"
| "alone (Suc k) E c p s =
     (if finished p then (Ret (p, []), s)
      else
        (case acquires p of
           Some p' \<Rightarrow> alone k E c p' s
         | None \<Rightarrow>
             (case run_pc E c p s of
                (Ret (p', new), s) \<Rightarrow>
                  and_then (alone k E c p' s) (\<lambda>(q, new') s. (Ret (q, new @ new'), s))
              | (Fail e, s) \<Rightarrow> (Ret (failed e p, []), s)
              | (Panic, s) \<Rightarrow> (Panic, s)
              | (Block, s) \<Rightarrow> (Block, s))))"

lemma proc_fail:
  assumes "i < length ts" and "acquires (ts ! i) = None" and "reads_info (ts ! i) \<Longrightarrow> l = None"
    and "run_pc E c (ts ! i) s = (Fail e, s')" and "env_ok (fst c)"
  shows "cstep E (proc s l ts) (proc s' (if holds (ts ! i) then None else l) (ts[i := failed e (ts ! i)]))"
  using cstep_thread [of "proc s l ts" i c E] assms by (simp add: step_thread_def Let_def)

lemma reaches_first: "cstep E a b \<Longrightarrow> reaches E b d \<Longrightarrow> reaches E a d"
  by (rule converse_rtranclp_into_rtranclp)

text \<open>The lock is free when the thread is outside its critical section.\<close>

abbreviation lock_of :: "nat \<Rightarrow> pc \<Rightarrow> nat option" where
  "lock_of i p \<equiv> (if holds p then Some i else None)"

lemma run_pc_enters_no_lock:
  "acquires p = None \<Longrightarrow> run_pc E c p s = (Ret (p', new), s') \<Longrightarrow> holds p' \<Longrightarrow> holds p"
  by (cases "(E, c, p, s)" rule: run_pc.cases)
     (auto split: and_then_split_asm option.split_asm if_split_asm outcome.split_asm prod.split_asm)

lemma finished_holds: "finished p \<Longrightarrow> \<not> holds p"
  by (cases p) simp_all

lemma alone_reaches:
  assumes "alone k E c p s = (Ret (q, new), s')" and "env_ok (fst c)"
    and "i < length ts" and "ts ! i = p"
  shows "reaches E (proc s (lock_of i p) ts) (proc s' None (ts[i := q] @ new))"
  using assms
proof (induction k arbitrary: p s ts new)
  case 0
  then show ?case by simp
next
  case (Suc k)
  note i = Suc.prems(3,4)
  show ?case
  proof (cases "finished p")
    case True
    then have "q = p" "new = []" "s' = s" "ts[i := q] = ts"
      using Suc.prems(1) i list_update_id [of ts i] by simp_all
    then show ?thesis using finished_holds [OF True] by simp
  next
    case running: False
    show ?thesis
    proof (cases "acquires p")
      case (Some p')
      have h: "\<not> holds p" "holds p'" using acquires_pc [OF Some] by simp_all
      have "cstep E (proc s None ts) (proc s (Some i) (ts[i := p']))"
        using proc_lock [of i ts p'] i Some by simp
      moreover have "reaches E (proc s (Some i) (ts[i := p'])) (proc s' None ((ts[i := p'])[i := q] @ new))"
        using Suc.IH [of p' s new "ts[i := p']"] Suc.prems(1-3) running Some h by simp
      ultimately show ?thesis using h reaches_first by fastforce
    next
      case None
      have read: "reads_info p \<Longrightarrow> lock_of i p = None" by (cases p) simp_all
      obtain r1 s1 where run: "run_pc E c p s = (r1, s1)" by (cases "run_pc E c p s")
      show ?thesis
      proof (cases r1)
        case (Ret x)
        obtain p' new1 where x: "x = (p', new1)" by (cases x)
        obtain new2 where rest: "alone k E c p' s1 = (Ret (q, new2), s')" "new = new1 @ new2"
          using Suc.prems(1) running None run Ret x
          by (auto split: and_then_split_asm)
        let ?ts = "ts[i := p'] @ new1"
        have lock: "(if holds p \<and> \<not> holds p' then None else lock_of i p) = lock_of i p'"
          using run_pc_enters_no_lock [OF None run [unfolded Ret x]] by auto
        have "cstep E (proc s (lock_of i p) ts) (proc s1 (lock_of i p') ?ts)"
          using proc_step [of i ts "lock_of i p" E c s p' new1 s1, unfolded i(2), OF i(1) None read
              run [unfolded Ret x] Suc.prems(2)] unfolding lock .
        moreover have "reaches E (proc s1 (lock_of i p') ?ts) (proc s' None (?ts[i := q] @ new2))"
          using Suc.IH [OF rest(1) Suc.prems(2), of ?ts] i(1) by (simp add: nth_append)
        moreover have "?ts[i := q] @ new2 = ts[i := q] @ new"
          using i(1) rest(2) by (simp add: list_update_append)
        ultimately show ?thesis using reaches_first by metis
      next
        case (Fail e)
        then have r: "q = failed e p" "new = []" "s' = s1" using Suc.prems(1) running None run by simp_all
        have "cstep E (proc s (lock_of i p) ts) (proc s1 (if holds p then None else lock_of i p) (ts[i := failed e p]))"
          using proc_fail [of i ts "lock_of i p" E c s e s1, unfolded i(2), OF i(1) None read
              run [unfolded Fail] Suc.prems(2)] .
        then show ?thesis using r by auto
      qed (use Suc.prems running None run in auto)
    qed
  qed
qed

section \<open>Requests\<close>

text \<open>The first segment of the thread of a request; a ping does nothing and needs none.\<close>

fun thread_of :: "request \<Rightarrow> pc" where
  "thread_of RqPing = Done"
| "thread_of (RqStart req) = StartA req"
| "thread_of RqHealth = HealthA"
| "thread_of RqURIs = URIsA"
| "thread_of RqStatus = StatusA"
| "thread_of (RqRemove req) = RemoveA (rm_Name req)"
| "thread_of (RqRestart req) = RestartA req"
| "thread_of RqStop = StopA"

text \<open>A call whose error is the reply.\<close>

fun attempt ::
  "'a outcome \<times> 'nw server \<Rightarrow> ('a \<Rightarrow> 'nw server \<Rightarrow> (pc \<times> pc list) outcome \<times> 'nw server) \<Rightarrow>
   (pc \<times> pc list) outcome \<times> 'nw server" where
  "attempt (Ret x, s) k = k x s"
| "attempt (Fail e, s) k = (Ret (Replied (Fail e), []), s)"
| "attempt (Panic, s) k = (Panic, s)"
| "attempt (Block, s) k = (Block, s)"

lemma attempt_and_then: "attempt (and_then p f) k = attempt p (\<lambda>x s. attempt (f x s) k)"
  by (cases "(p, f)" rule: and_then.cases) auto

lemma attempt_split:
  "P (attempt p k) \<longleftrightarrow>
     (\<forall>x s. p = (Ret x, s) \<longrightarrow> P (k x s)) \<and> (\<forall>e s. p = (Fail e, s) \<longrightarrow> P (Ret (Replied (Fail e), []), s)) \<and>
     (\<forall>s. p = (Panic, s) \<longrightarrow> P (Panic, s)) \<and> (\<forall>s. p = (Block, s) \<longrightarrow> P (Block, s))"
  by (cases "(p, k)" rule: attempt.cases) auto

text \<open>What a request does to the server, what it replies and which threads it begins, by the handlers.\<close>

definition replying ::
  "('a \<Rightarrow> 'nw server \<Rightarrow> reply) \<Rightarrow> 'a outcome \<times> 'nw server \<Rightarrow> (pc \<times> pc list) outcome \<times> 'nw server" where
  "replying f H = attempt H (\<lambda>x s. (Ret (Replied (Ret (f x s)), []), s))"

fun effect :: "'nw ext \<Rightarrow> call_env \<Rightarrow> request \<Rightarrow> 'nw server \<Rightarrow> (pc \<times> pc list) outcome \<times> 'nw server" where
  "effect E c RqPing s = (Ret (Done, []), s)"
| "effect E c (RqStart req) s =
     attempt (Start E c req s) (\<lambda>(i, n) s. (Ret (answered_with i s, [RunA n, WatchN]), s))"
| "effect E c RqHealth s = replying marshal (Health E c s)"
| "effect E c RqURIs s = replying (\<lambda>u s. RpUris (ur_Uris u)) (URIs c s, s)"
| "effect E c RqStatus s = replying (\<lambda>i. marshal (Some i)) (Status s, s)"
| "effect E c (RqRemove req) s = replying marshal (RemoveNode E c req s)"
| "effect E c (RqRestart req) s = replying marshal (RestartNode E c req s)"
| "effect E c RqStop s = replying (\<lambda>i. marshal (Some i)) (Stop E s)"

lemma alone_finished [simp]: "finished p \<Longrightarrow> alone (Suc k) E c p s = (Ret (p, []), s)"
  by simp

lemma alone_reply: "alone (Suc (Suc k)) E (c, b) (ReplyP i) s = (Ret (Replied (Ret (marshal i s)), []), s)"
  by simp

lemma and_then_Ret_pair [simp]: "and_then p (\<lambda>(q, new) s. (Ret (q, new), s)) = p"
  by (cases "(p, \<lambda>(x :: 'a \<times> 'b) (s :: 'c). (Ret x, s))" rule: and_then.cases) simp_all

lemma alone_segment:
  assumes "\<not> finished p" and "acquires p = None" and "\<And>e. failed e p = Replied (Fail e)"
    and "run_pc E c p s = and_then r (\<lambda>x s. (Ret (f x s, []), s))"
  shows "alone (Suc k) E c p s = attempt r (\<lambda>x s. alone k E c (f x s) s)"
  using assms by (cases "(r, \<lambda>x s. (Ret (f x s, [] :: pc list), s))" rule: and_then.cases) simp_all

text \<open>The segments of a wait, whatever the thread that waits.\<close>

lemma wait_alone:
  assumes "\<And>w. \<not> finished (f w) \<and> acquires (f w) = None" and "\<And>e w. failed e (f w) = Replied (Fail e)"
    and "\<And>w s. run_pc E (c, True) (f w) s =
      and_then (wait_step E c n w s) (\<lambda>w' s. (Ret (case w' of None \<Rightarrow> q s | Some w' \<Rightarrow> f w', []), s))"
    and "ce_event c \<noteq> HStopc"
  shows "alone (Suc (Suc (Suc (Suc k)))) E (c, True) (f WEnter) s =
    attempt (waitForHealthy E c n s) (\<lambda>_ s. alone k E (c, True) (q s) s)"
proof -
  have seg: "alone (Suc k) E (c, True) (f w) s =
      attempt (wait_step E c n w s) (\<lambda>w' s. alone k E (c, True) (case w' of None \<Rightarrow> q s | Some w' \<Rightarrow> f w') s)"
    for k w s
    using assms(1,2) by (intro alone_segment assms(3)) simp_all
  show ?thesis
    using assms(4)
    by (simp add: seg event_possible_def waitForHealthy_def attempt_and_then del: alone.simps(2))
qed

text \<open>The segments of the threads that wait, without the steps of the wait.\<close>

lemma alone_health:
  "alone (Suc k) E (c, True) HealthA s =
     (case getClusterInfo s of
        None \<Rightarrow> (Ret (Replied (Fail ErrNotBootstrapped), []), s) | Some _ \<Rightarrow> alone k E (c, True) HealthN s)"
  "alone (Suc k) E (c, True) HealthN s =
     (case sv_network s of None \<Rightarrow> (Panic, s) | Some n \<Rightarrow> alone k E (c, True) (HealthW n WEnter) s)"
  "alone (Suc (Suc (Suc (Suc k)))) E (c, True) HealthB s = replying marshal (health_locked c s)"
  by (auto simp: replying_def split: option.splits attempt_split and_then_splits)

lemma alone_remove:
  "alone (Suc (Suc (Suc k))) E (c, True) (RemoveA x) s =
     (case getClusterInfo s of None \<Rightarrow> (Ret (Replied (Fail ErrNotBootstrapped), []), s)
      | Some _ \<Rightarrow> attempt (remove_locked E c x s) (\<lambda>n s. alone k E (c, True) (RemoveW n WEnter) s))"
  by (auto split: option.splits attempt_split and_then_splits)

lemma alone_restart:
  "alone (Suc (Suc (Suc k))) E (c, True) (RestartA req) s =
     (case getClusterInfo s of None \<Rightarrow> (Ret (Replied (Fail ErrNotBootstrapped), []), s)
      | Some _ \<Rightarrow> attempt (restart_locked E req s)
                     (\<lambda>(n, idx, cfg) s. alone k E (c, True) (RestartW idx cfg n WEnter) s))"
  "alone (Suc (Suc (Suc k))) E (c, True) (RestartD idx cfg) s = replying marshal (restart_finish idx cfg s)"
  by (auto simp: replying_def split: option.splits attempt_split and_then_splits)

lemma replying_and_then: "replying f (and_then p k) = attempt p (\<lambda>x s. replying f (k x s))"
  by (simp add: replying_def attempt_and_then)

text \<open>Every handler is the composition of the segments of its thread.\<close>

lemma effect_alone:
  assumes "ce_event c \<noteq> HStopc"
  shows "alone 12 E (c, True) (thread_of rq) s = effect E c rq s"
proof (cases rq)
  case (RqStart req)
  then show ?thesis
    by (auto simp: numeral_eq_Suc Start_def split: and_then_splits attempt_split)
next
  case RqHealth
  have w: "alone (Suc (Suc (Suc (Suc k)))) E (c, True) (HealthW n WEnter) s =
     attempt (waitForHealthy E c n s) (\<lambda>_ s. alone k E (c, True) HealthB s)" for k n s
    by (rule wait_alone) (simp_all add: assms)
  show ?thesis using RqHealth
    by (simp add: numeral_eq_Suc Health_def health_enter_def replying_and_then alone_health w
             del: alone.simps(2) split: option.split)
next
  case (RqRemove req)
  have w: "alone (Suc (Suc (Suc (Suc k)))) E (c, True) (RemoveW n WEnter) s =
     attempt (waitForHealthy E c n s) (\<lambda>_ s. alone k E (c, True) (ReplyP (sv_clusterInfo s)) s)" for k n s
    by (rule wait_alone) (simp_all add: assms)
  show ?thesis using RqRemove
    by (simp add: numeral_eq_Suc RemoveNode_def replying_and_then alone_remove w alone_reply
             del: alone.simps(2) split: option.split)
       (simp add: replying_def)
next
  case (RqRestart req)
  have w: "alone (Suc (Suc (Suc (Suc k)))) E (c, True) (RestartW idx cfg n WEnter) s =
     attempt (waitForHealthy E c n s) (\<lambda>_ s. alone k E (c, True) (RestartD idx cfg) s)" for k idx cfg n s
    by (rule wait_alone) (simp_all add: assms)
  show ?thesis using RqRestart
    by (simp add: numeral_eq_Suc RestartNode_def replying_and_then alone_restart w case_prod_unfold
             del: alone.simps(2) split: option.split)
       (simp add: replying_def)
next
  case RqStatus
  then show ?thesis by (auto simp: numeral_eq_Suc replying_def split: and_then_splits attempt_split)
next
  case RqURIs
  then show ?thesis
    by (auto simp: numeral_eq_Suc replying_def URIs_def split: option.splits and_then_splits attempt_split)
next
  case RqStop
  then show ?thesis
    by (auto simp: numeral_eq_Suc replying_def Stop_def stop_finish_def split: option.splits and_then_splits attempt_split)
next
  case RqPing
  then show ?thesis by (simp add: numeral_eq_Suc)
qed

text \<open>The goroutine that boots a network, and the watcher when it can go on.\<close>

lemma localNetwork_start_alone:
  assumes "localNetwork_start E c n s = (r, s')" and "ce_event c \<noteq> HStopc"
  shows "alone 6 E (c, True) (RunA n) s = (map_outcome (\<lambda>_. (Done, [])) r, s')"
proof -
  obtain r1 s1 where cr: "start_create E n s = (r1, s1)" by (cases "start_create E n s")
  obtain r2 s2 where w: "waitForHealthy E c n s1 = (r2, s2)" by (cases "waitForHealthy E c n s1")
  show ?thesis
  proof (cases r1)
    case (Ret x)
    then have "localNetwork_start E c n s = (case r2 of Panic \<Rightarrow> (Panic, s2) | Block \<Rightarrow> (Block, s2)
        | Fail e \<Rightarrow> (Ret (), upd_net n (start_done [e]) s2) | Ret _ \<Rightarrow> (Ret (), upd_net n (start_done []) s2))"
      using cr w by (simp add: localNetwork_start_def)
    then show ?thesis
      using assms cr Ret w
      by (cases r2)
         (auto simp: numeral_eq_Suc waitForHealthy_def event_possible_def split: and_then_split_asm)
  qed (use assms cr in \<open>auto simp: localNetwork_start_def numeral_eq_Suc\<close>)
qed

lemma watch_alone:
  "sv_closed s \<or> ln_stopc (net s n) \<Longrightarrow> alone 2 E (c, True) (WatchA n n) s = (Ret (Done, []), s)"
  "oc_closed (ln_ready (net s n)) \<Longrightarrow>
   alone 4 E (c, False) (WatchA n n) s =
     (case watch_ready s of (Ret _, s) \<Rightarrow> (Ret (Done, []), s) | (Fail e, s) \<Rightarrow> (Ret (Replied (Fail e), []), s)
      | (Panic, s) \<Rightarrow> (Panic, s) | (Block, s) \<Rightarrow> (Block, s))"
  by (auto simp: numeral_eq_Suc split: and_then_splits prod.splits outcome.splits)

section \<open>Panics\<close>

abbreviation crashes :: "'nw ext \<Rightarrow> 'nw conc \<Rightarrow> bool" where
  "crashes E co \<equiv> \<exists>co'. reaches E co co' \<and> co_crashed co'"

lemma reaches_crashes: "reaches E a b \<Longrightarrow> crashes E b \<Longrightarrow> crashes E a"
  by (meson rtranclp_trans)

text \<open>A thread that panics without interruption ends the process.\<close>

lemma alone_panics:
  assumes "alone k E c p s = (Panic, s')" and "env_ok (fst c)" and "i < length ts" and "ts ! i = p"
  shows "crashes E (proc s (lock_of i p) ts)"
  using assms
proof (induction k arbitrary: p s ts)
  case 0
  then show ?case by simp
next
  case (Suc k)
  note i = Suc.prems(3,4)
  have running: "\<not> finished p" using Suc.prems(1) by auto
  show ?case
  proof (cases "acquires p")
    case (Some p')
    have h: "\<not> holds p" "holds p'" using acquires_pc [OF Some] by simp_all
    have "cstep E (proc s None ts) (proc s (Some i) (ts[i := p']))"
      using proc_lock [of i ts p'] i Some by simp
    moreover have "crashes E (proc s (Some i) (ts[i := p']))"
      using Suc.IH [of p' s "ts[i := p']"] Suc.prems(1-3) running Some h by simp
    ultimately show ?thesis using h reaches_crashes [OF r_into_rtranclp] by simp
  next
    case None
    have read: "reads_info p \<Longrightarrow> lock_of i p = None" by (cases p) simp_all
    obtain r1 s1 where run: "run_pc E c p s = (r1, s1)" by (cases "run_pc E c p s")
    show ?thesis
    proof (cases r1)
      case (Ret x)
      obtain p' new where x: "x = (p', new)" by (cases x)
      have rest: "alone k E c p' s1 = (Panic, s')"
        using Suc.prems(1) running None run Ret x by (auto split: and_then_split_asm)
      have lock: "(if holds p \<and> \<not> holds p' then None else lock_of i p) = lock_of i p'"
        using run_pc_enters_no_lock [OF None run [unfolded Ret x]] by auto
      have "cstep E (proc s (lock_of i p) ts) (proc s1 (lock_of i p') (ts[i := p'] @ new))"
        using proc_step [of i ts "lock_of i p" E c s p' new s1, unfolded i(2), OF i(1) None read
            run [unfolded Ret x] Suc.prems(2)] unfolding lock .
      moreover have "crashes E (proc s1 (lock_of i p') (ts[i := p'] @ new))"
        using Suc.IH [OF rest Suc.prems(2), of "ts[i := p'] @ new"] i(1) by (simp add: nth_append)
      ultimately show ?thesis using reaches_crashes [OF r_into_rtranclp] by blast
    next
      case Panic
      then show ?thesis
        using proc_crashes [of i ts "lock_of i p" E c s s1, unfolded i(2), OF i(1) None read] run Suc.prems(2) by simp
    qed (use Suc.prems running None run in auto)
  qed
qed

end
