(* ===== verification/Conc_Session.thy ===== *)
theory Conc_Session
  imports Conc_Serial
begin

text \<open>
  The session in which one request is served at a time is a refinement of the interleaved process:
  each conversation is one of its executions, with the same replies.
\<close>

section \<open>A conversation is an execution\<close>

text \<open>The replies the threads have given, in the order in which the requests came.\<close>

fun replies :: "pc list \<Rightarrow> reply outcome list" where
  "replies [] = []"
| "replies (Replied r # ts) = r # replies ts"
| "replies (_ # ts) = replies ts"

lemma replies_append [simp]: "replies (ts @ us) = replies ts @ replies us"
  by (induction ts rule: replies.induct) simp_all

text \<open>A thread that has not replied moves on without a reply.\<close>

lemma replies_update:
  assumes "i < length ts" and "replies [ts ! i] = []" and "replies [p] = []"
  shows "replies (ts[i := p]) = replies ts"
proof -
  have "replies (take i ts @ [ts ! i] @ drop (Suc i) ts) = replies (take i ts @ [p] @ drop (Suc i) ts)"
    using assms(2,3) by (simp del: append_Cons)
  then show ?thesis using assms(1) by (simp add: upd_conv_take_nth_drop id_take_nth_drop [symmetric])
qed

text \<open>
  Between two requests every thread has ended or is a watcher that waits, and the watcher of the
  session is one of them.
\<close>

definition quiet :: "'nw session \<Rightarrow> pc list \<Rightarrow> bool" where
  "quiet ss ts \<longleftrightarrow>
     list_all (\<lambda>p. finished p \<or> (\<exists>n. p = WatchA n n)) ts \<and>
     (\<forall>n. se_watch ss = Some n \<longrightarrow> WatchA n n \<in> set ts)"

text \<open>The process can come from one session to another, and gives the replies \<open>rs\<close> on the way.\<close>

definition follows ::
  "'nw ext \<Rightarrow> 'nw session \<Rightarrow> pc list \<Rightarrow> reply outcome list \<Rightarrow> 'nw session \<Rightarrow> bool" where
  "follows E ss ts rs ss' \<longleftrightarrow>
     (\<exists>ts'. quiet ss' ts' \<and> replies ts' = replies ts @ rs \<and>
        reaches E (proc (se_srv ss) None ts) (proc (se_srv ss') None ts'))"

lemma settle_reaches:
  assumes "settle ss = (r, ss')" and "answered r" and "quiet ss ts"
  shows "follows E ss ts [] ss'"
proof (cases "se_watch ss")
  case None
  then have "ss' = ss" using assms(1) by (simp add: settle_def)
  then show ?thesis using assms(3) by (auto simp: follows_def)
next
  case (Some n)
  then obtain i where i: "i < length ts" "ts ! i = WatchA n n"
    using assms(3) by (auto simp: quiet_def in_set_conv_nth)
  have q: "quiet ss' (ts[i := Done])" if "se_watch ss' = None"
    using assms(3) that i(1) by (auto simp: quiet_def list_all_length nth_list_update)
  have rep: "replies (ts[i := Done]) = replies ts" using i by (simp add: replies_update)
  let ?s = "se_srv ss"
  consider (stop) "sv_closed ?s \<or> ln_stopc (net ?s n)"
    | (ready) "\<not> (sv_closed ?s \<or> ln_stopc (net ?s n))" "oc_closed (ln_ready (net ?s n))"
    | (wait) "ss' = ss"
    using assms(1) Some by (auto simp: settle_def split: if_splits)
  then show ?thesis
  proof cases
    case stop
    then have ss': "se_srv ss' = ?s" "se_watch ss' = None" using assms(1) Some by (auto simp: settle_def)
    have "reaches E (proc ?s (lock_of i (WatchA n n)) ts) (proc ?s None (ts[i := Done] @ []))"
      by (rule alone_reaches [OF watch_alone(1) [OF stop, of E timeout_env] _ i]) simp
    then show ?thesis using q ss' rep by (auto simp: follows_def)
  next
    case ready
    then obtain s1 where w: "watch_ready ?s = (r, s1)" "se_srv ss' = s1" "se_watch ss' = None"
      using assms(1) Some by (cases "watch_ready ?s") (auto simp: settle_def)
    have "r = Ret ()" using w(1) assms(2) by (auto simp: watch_ready_def split: option.splits)
    then have a: "alone 4 E (timeout_env, False) (WatchA n n) ?s = (Ret (Done, []), s1)"
      using watch_alone(2) [OF ready(2), of E timeout_env] w(1) by simp
    have "reaches E (proc ?s (lock_of i (WatchA n n)) ts) (proc s1 None (ts[i := Done] @ []))"
      by (rule alone_reaches [OF a _ i]) simp
    then show ?thesis using q w rep by (auto simp: follows_def)
  next
    case wait
    then show ?thesis using assms(3) by (auto simp: follows_def)
  qed
qed

lemma is_request_thread: "rq \<noteq> RqPing \<Longrightarrow> is_request (thread_of rq)"
  by (cases rq) simp_all

text \<open>A request begins its thread, which runs to its end.\<close>

lemma effect_reaches:
  assumes "effect E c rq s = (Ret (q, new), s')" and "env_ok c" and "ce_event c \<noteq> HStopc"
    and "rq \<noteq> RqPing"
  shows "reaches E (proc s None ts) (proc s' None (ts @ q # new))"
proof -
  have p: "is_request (thread_of rq)" using assms(4) by (rule is_request_thread)
  then have "\<not> holds (thread_of rq)" using is_request_pc by blast
  then have "reaches E (proc s None (ts @ [thread_of rq])) (proc s' None ((ts @ [thread_of rq])[length ts := q] @ new))"
    using alone_reaches [OF effect_alone [OF assms(3), of E rq s, unfolded assms(1)], of "length ts" "ts @ [thread_of rq]"]
      assms(2) by simp
  with proc_request [OF p, of E s None ts] show ?thesis
    using reaches_first by fastforce
qed

text \<open>The replies of a request; a ping is answered without a thread.\<close>

definition thread_replies :: "request \<Rightarrow> reply outcome \<Rightarrow> reply outcome list" where
  "thread_replies rq r = (if rq = RqPing then [] else [r])"

lemma replied_follows:
  assumes "effect E c rq (se_srv ss) = (Ret (Replied r, []), s')" and "quiet ss ts"
    and "env_ok c" and "ce_event c \<noteq> HStopc" and "rq \<noteq> RqPing"
  shows "follows E ss ts (thread_replies rq r) (ss\<lparr>se_srv := s'\<rparr>)"
  using effect_reaches [OF assms(1,3-5), of ts] assms(2,5)
  by (auto simp: follows_def thread_replies_def quiet_def intro!: exI [of _ "ts @ [Replied r]"])

lemma reply_reaches:
  assumes "handle E c rq ss = reply_of f H ss" and "effect E c rq (se_srv ss) = replying f H"
    and "rq \<noteq> RqPing" and "handle E c rq ss = (r, ss')" and "answered r" and "quiet ss ts"
    and "env_ok c" and "ce_event c \<noteq> HStopc"
  shows "follows E ss ts (thread_replies rq r) ss'"
proof -
  obtain r0 s1 where H: "H = (r0, s1)" by (cases H)
  have ss': "ss' = ss\<lparr>se_srv := s1\<rparr>" and r: "r = map_outcome (\<lambda>x. f x s1) r0"
    using assms(1,4) H by (auto simp: reply_of_def)
  have "effect E c rq (se_srv ss) = (Ret (Replied r, []), s1)"
    using assms(2,5) H r by (cases r0) (auto simp: replying_def)
  then show ?thesis unfolding ss' using assms(6-8,3) by (rule replied_follows)
qed

lemma handle_reaches:
  assumes "handle E c rq ss = (r, ss')" and "answered r" and "quiet ss ts"
    and "env_ok c" and "ce_event c \<noteq> HStopc"
  shows "follows E ss ts (thread_replies rq r) ss'"
proof -
  let ?s = "se_srv ss"
  note run = reply_reaches [OF _ _ _ assms]
  show ?thesis
  proof (cases rq)
    case RqPing
    then show ?thesis using assms(1,3) by (auto simp: follows_def thread_replies_def)
  next
    case (RqStart req)
    obtain r1 s1 where st: "Start E c req ?s = (r1, s1)" by (cases "Start E c req ?s")
    show ?thesis
    proof (cases r1)
      case (Ret x)
      obtain i n where x: "x = (i, n)" by (cases x)
      note st' = st [unfolded Ret x]
      obtain r2 s2 where go: "localNetwork_start E c n s1 = (r2, s2)" by (cases "localNetwork_start E c n s1")
      have ss': "ss' = ss\<lparr>se_srv := s2, se_watch := Some n\<rparr>"
        and r: "r = map_outcome (\<lambda>_. marshal (Some i) s1) r2"
        using assms(1) RqStart st' go by (auto simp: serve_start_def)
      have "r2 = Ret ()"
        using assms(2) r go by (cases r2) (auto simp: localNetwork_start_def split: prod.splits outcome.splits)
      then have q: "alone 6 E (c, True) (RunA n) s1 = (Ret (Done, []), s2)"
        and r: "r = Ret (marshal (Some i) s1)"
        using localNetwork_start_alone [OF go assms(5)] r by simp_all
      let ?t0 = "ts @ [answered_with i s1, RunA n, WatchN]"
      let ?tM = "ts @ [answered_with i s1, RunA n, WatchM n]"
      let ?t1 = "ts @ [answered_with i s1, RunA n, WatchA n n]"
      let ?t2 = "ts @ [answered_with i s1, Done, WatchA n n]"
      have "reaches E (proc ?s None ts) (proc s1 None ?t0)"
        by (rule Start_reaches [OF st' assms(4)])
      also have "cstep E (proc s1 None ?t0) (proc s1 None ?tM)"
        using proc_step [of "length ts + 2" ?t0 None E "(c, True)" s1 "WatchM n" "[]" s1]
          Start_Ret_net(1) [OF st'] assms(4) by (simp add: nth_append list_update_append)
      also (reaches_step) have "cstep E (proc s1 None ?tM) (proc s1 None ?t1)"
        using proc_step [of "length ts + 2" ?tM None E "(c, True)" s1 "WatchA n n" "[]" s1]
          Start_Ret_net(1) [OF st'] assms(4) by (simp add: nth_append list_update_append)
      also (reaches_step) have "reaches E (proc s1 None ?t1) (proc s2 None ?t2)"
        using alone_reaches [OF q, of "length ts + 1" ?t1] assms(4)
        by (simp add: nth_append list_update_append)
      finally have "reaches E (proc ?s None ts) (proc s2 None ?t2)" .
      moreover have "quiet ss' ?t2" using assms(3) by (simp add: quiet_def ss')
      ultimately show ?thesis
        unfolding follows_def using RqStart r ss'
        by (intro exI [of _ ?t2]) (simp add: thread_replies_def)
    next
      case (Fail e)
      then have r: "r = Fail e" and ss': "ss' = ss\<lparr>se_srv := s1\<rparr>"
        using assms(1) RqStart st by (simp_all add: serve_start_def)
      show ?thesis
        unfolding ss' by (rule replied_follows) (use RqStart st Fail r assms(3-5) in simp_all)
    qed (use assms(1,2) RqStart st in \<open>auto simp: serve_start_def\<close>)
  next
    case RqHealth
    then show ?thesis by (intro run [of marshal "Health E c ?s"]) simp_all
  next
    case RqURIs
    then show ?thesis by (intro run [of "\<lambda>u s. RpUris (ur_Uris u)" "(URIs c ?s, ?s)"]) simp_all
  next
    case RqStatus
    then show ?thesis by (intro run [of "\<lambda>i. marshal (Some i)" "(Status ?s, ?s)"]) simp_all
  next
    case (RqRemove req)
    then show ?thesis by (intro run [of marshal "RemoveNode E c req ?s"]) simp_all
  next
    case (RqRestart req)
    then show ?thesis by (intro run [of marshal "RestartNode E c req ?s"]) simp_all
  next
    case RqStop
    then show ?thesis by (intro run [of "\<lambda>i. marshal (Some i)" "Stop E ?s"]) simp_all
  qed
qed

lemma follows_trans:
  assumes "follows E ss ts rs ss1"
    and "\<And>ts1. quiet ss1 ts1 \<Longrightarrow> follows E ss1 ts1 rs' ss2"
  shows "follows E ss ts (rs @ rs') ss2"
proof -
  obtain ts1 where a: "quiet ss1 ts1" "replies ts1 = replies ts @ rs"
      "reaches E (proc (se_srv ss) None ts) (proc (se_srv ss1) None ts1)"
    using assms(1) by (auto simp: follows_def)
  obtain ts2 where "quiet ss2 ts2" "replies ts2 = replies ts1 @ rs'"
      "reaches E (proc (se_srv ss1) None ts1) (proc (se_srv ss2) None ts2)"
    using assms(2) [OF a(1)] by (auto simp: follows_def)
  then show ?thesis
    unfolding follows_def using a(2) rtranclp_trans [OF a(3)] by (intro exI [of _ ts2]) simp
qed

lemma serve_reaches:
  assumes "serve E c rq ss = (r, ss')" and "answered r" and "quiet ss ts"
    and "env_ok c" and "ce_event c \<noteq> HStopc"
  shows "follows E ss ts (thread_replies rq r) ss'"
proof -
  obtain r1 ss1 where h: "handle E c rq ss = (r1, ss1)" by (cases "handle E c rq ss")
  have r1: "answered r1" using assms(1,2) h by (auto simp: serve_def split: if_splits)
  obtain r2 ss2 where st: "settle ss1 = (r2, ss2)" by (cases "settle ss1")
  have ss': "ss' = ss2" "r = r1" and r2: "answered r2"
    using assms(1,2) h r1 st by (auto simp: serve_def split: outcome.splits)
  have "follows E ss ts (thread_replies rq r1 @ []) ss2"
    using handle_reaches [OF h r1 assms(3-5)] settle_reaches [OF st r2] by (rule follows_trans)
  then show ?thesis using ss' by simp
qed

lemma conversation_reaches:
  assumes "conversation E script ss = (rs, ss')" and "list_all answered rs" and "quiet ss ts"
    and "\<forall>(c, rq) \<in> set script. env_ok c \<and> ce_event c \<noteq> HStopc"
  shows "follows E ss ts (concat (map2 (\<lambda>(c, rq) r. thread_replies rq r) script rs)) ss'"
  using assms
proof (induction E script ss arbitrary: rs ss' ts rule: conversation.induct)
  case (1 E ss)
  then show ?case by (auto simp: follows_def)
next
  case (2 E c rq rest ss)
  obtain r ss1 where s: "serve E c rq ss = (r, ss1)" by (cases "serve E c rq ss")
  have r: "answered r" using 2(2,3) s by (auto simp: Let_def split: if_splits prod.splits)
  obtain rs2 ss2 where c: "conversation E rest ss1 = (rs2, ss2)" by (cases "conversation E rest ss1")
  have eq: "rs = r # rs2" "ss' = ss2" "list_all answered rs2" using 2(2,3) s r c by auto
  have env: "env_ok c" "ce_event c \<noteq> HStopc" "\<forall>(c, rq) \<in> set rest. env_ok c \<and> ce_event c \<noteq> HStopc"
    using 2(5) by auto
  have "follows E ss ts (thread_replies rq r @ concat (map2 (\<lambda>(c, rq) r. thread_replies rq r) rest rs2)) ss2"
    using serve_reaches [OF s r 2(4) env(1,2)] 2(1) [OF s [symmetric] refl r c eq(3) _ env(3)]
    by (rule follows_trans)
  then show ?case using eq by simp
qed

section \<open>A panic of a conversation\<close>

lemma effect_panics:
  assumes "effect E c rq s = (Panic, s')" and "env_ok c" and "ce_event c \<noteq> HStopc"
  shows "crashes E (proc s None ts)"
proof -
  have p: "is_request (thread_of rq)" using assms(1) by (cases rq) simp_all
  then have "\<not> holds (thread_of rq)" using is_request_pc by blast
  then have "crashes E (proc s None (ts @ [thread_of rq]))"
    using alone_panics [OF effect_alone [OF assms(3), of E rq s, unfolded assms(1)], of "length ts" "ts @ [thread_of rq]"]
      assms(2) by simp
  with proc_request [OF p, of E s None ts] show ?thesis by (rule reaches_crashes [OF r_into_rtranclp])
qed

lemma settle_panics:
  assumes "settle ss = (Panic, ss')" and "quiet ss ts"
  shows "crashes E (proc (se_srv ss) None ts)"
proof -
  let ?s = "se_srv ss"
  obtain n s1 where n: "se_watch ss = Some n" "oc_closed (ln_ready (net ?s n))" "watch_ready ?s = (Panic, s1)"
    using assms(1) by (auto simp: settle_def split: option.splits if_splits prod.splits)
  then obtain i where i: "i < length ts" "ts ! i = WatchA n n"
    using assms(2) by (auto simp: quiet_def in_set_conv_nth)
  have "alone 4 E (timeout_env, False) (WatchA n n) ?s = (Panic, s1)"
    using watch_alone(2) [OF n(2), of E timeout_env] n(3) by simp
  from alone_panics [OF this _ i] show ?thesis by simp
qed

lemma reply_panics:
  assumes "handle E c rq ss = reply_of f H ss" and "effect E c rq (se_srv ss) = replying f H"
    and "handle E c rq ss = (Panic, ss')" and "env_ok c" and "ce_event c \<noteq> HStopc"
  shows "crashes E (proc (se_srv ss) None ts)"
proof -
  obtain s1 where "H = (Panic, s1)" using assms(1,3) by (cases H; cases "fst H") (auto simp: reply_of_def)
  then show ?thesis using assms(2) effect_panics [OF _ assms(4,5), of E rq _ s1] by (simp add: replying_def)
qed

lemma handle_panics:
  assumes "handle E c rq ss = (Panic, ss')" and "env_ok c" and "ce_event c \<noteq> HStopc"
  shows "crashes E (proc (se_srv ss) None ts)"
proof -
  let ?s = "se_srv ss"
  note run = reply_panics [OF _ _ assms]
  show ?thesis
  proof (cases rq)
    case RqPing
    then show ?thesis using assms(1) by simp
  next
    case (RqStart req)
    obtain r1 s1 where st: "Start E c req ?s = (r1, s1)" by (cases "Start E c req ?s")
    show ?thesis
    proof (cases r1)
      case (Ret x)
      obtain i n where x: "x = (i, n)" by (cases x)
      note st' = st [unfolded Ret x]
      obtain r2 s2 where go: "localNetwork_start E c n s1 = (r2, s2)" by (cases "localNetwork_start E c n s1")
      have "r2 = Panic"
        using assms(1) RqStart st' go by (cases r2) (auto simp: serve_start_def)
      then have p: "alone 6 E (c, True) (RunA n) s1 = (Panic, s2)"
        using localNetwork_start_alone [OF go assms(3)] by simp
      have "crashes E (proc s1 None (ts @ [answered_with i s1, RunA n, WatchN]))"
        using alone_panics [OF p, of "length ts + 1" "ts @ [answered_with i s1, RunA n, WatchN]"] assms(2)
        by (simp add: nth_append)
      with Start_reaches [OF st' assms(2)] show ?thesis by (rule reaches_crashes)
    next
      case Panic
      then show ?thesis using effect_panics [OF _ assms(2,3), of E rq ?s s1] RqStart st by simp
    qed (use assms(1) RqStart st in \<open>auto simp: serve_start_def\<close>)
  next
    case RqHealth
    then show ?thesis by (intro run [of marshal "Health E c ?s"]) simp_all
  next
    case RqURIs
    then show ?thesis by (intro run [of "\<lambda>u s. RpUris (ur_Uris u)" "(URIs c ?s, ?s)"]) simp_all
  next
    case RqStatus
    then show ?thesis by (intro run [of "\<lambda>i. marshal (Some i)" "(Status ?s, ?s)"]) simp_all
  next
    case (RqRemove req)
    then show ?thesis by (intro run [of marshal "RemoveNode E c req ?s"]) simp_all
  next
    case (RqRestart req)
    then show ?thesis by (intro run [of marshal "RestartNode E c req ?s"]) simp_all
  next
    case RqStop
    then show ?thesis by (intro run [of "\<lambda>i. marshal (Some i)" "Stop E ?s"]) simp_all
  qed
qed

lemma serve_panics:
  assumes "serve E c rq ss = (Panic, ss')" and "quiet ss ts" and "env_ok c" and "ce_event c \<noteq> HStopc"
  shows "crashes E (proc (se_srv ss) None ts)"
proof -
  obtain r1 ss1 where h: "handle E c rq ss = (r1, ss1)" by (cases "handle E c rq ss")
  show ?thesis
  proof (cases "answered r1")
    case True
    obtain r2 ss2 where st: "settle ss1 = (r2, ss2)" by (cases "settle ss1")
    have "r2 = Panic" using assms(1) h True st by (cases r2) (auto simp: serve_def)
    moreover obtain ts1 where "quiet ss1 ts1" "reaches E (proc (se_srv ss) None ts) (proc (se_srv ss1) None ts1)"
      using handle_reaches [OF h True assms(2-4)] by (auto simp: follows_def)
    ultimately show ?thesis using settle_panics st reaches_crashes by metis
  next
    case False
    then have "r1 = Panic" using assms(1) h by (simp add: serve_def)
    then show ?thesis using handle_panics h assms(3,4) by blast
  qed
qed

lemma conversation_panics:
  assumes "conversation E script ss = (rs, ss')" and "Panic \<in> set rs" and "quiet ss ts"
    and "\<forall>(c, rq) \<in> set script. env_ok c \<and> ce_event c \<noteq> HStopc"
  shows "crashes E (proc (se_srv ss) None ts)"
  using assms
proof (induction E script ss arbitrary: rs ss' ts rule: conversation.induct)
  case (1 E ss)
  then show ?case by simp
next
  case (2 E c rq rest ss)
  obtain r ss1 where s: "serve E c rq ss = (r, ss1)" by (cases "serve E c rq ss")
  have env: "env_ok c" "ce_event c \<noteq> HStopc" using 2(5) by auto
  show ?case
  proof (cases "answered r")
    case True
    obtain rs2 ss2 where c: "conversation E rest ss1 = (rs2, ss2)" by (cases "conversation E rest ss1")
    have "Panic \<in> set rs2" using 2(2,3) s True c by auto
    moreover obtain ts1 where a: "quiet ss1 ts1" "reaches E (proc (se_srv ss) None ts) (proc (se_srv ss1) None ts1)"
      using serve_reaches [OF s True 2(4) env] by (auto simp: follows_def)
    ultimately have "crashes E (proc (se_srv ss1) None ts1)"
      using 2(1) [OF s [symmetric] refl True c _ a(1)] 2(5) by auto
    with a(2) show ?thesis by (rule reaches_crashes)
  next
    case False
    then have "r = Panic" using 2(2,3) s by auto
    then show ?thesis using serve_panics [OF _ 2(4) env] s by blast
  qed
qed

section \<open>The refinement\<close>

text \<open>C6: Every conversation, one request at a time with the goroutines run until they wait, is an
  execution of the interleaved process from its initial state.  When all its requests are answered
  the process can reach the very server the conversation ends with, not crashed, with the lock free,
  every thread ended or a watcher that waits, and the replies of the threads, in their order, those of
  the conversation except for the pings; when one of them panics the process can crash.  So what the
  sequential theorems say of servers and replies holds of executions of the process.\<close>

theorem conversation_is_execution:
  assumes "conversation E script new_session = (rs, ss)"
    and "\<forall>(c, rq) \<in> set script. env_ok c \<and> ce_event c \<noteq> HStopc"
  shows "(list_all answered rs \<longrightarrow>
      (\<exists>co. reaches E init_conc co \<and> \<not> co_crashed co \<and> co_lock co = None \<and> co_srv co = se_srv ss \<and>
        replies (co_threads co) =
          concat (map2 (\<lambda>(c, rq) r. if rq = RqPing then [] else [r]) script rs) \<and>
        list_all (\<lambda>p. finished p \<or> (\<exists>n. p = WatchA n n)) (co_threads co) \<and>
        (\<forall>n. se_watch ss = Some n \<longrightarrow> WatchA n n \<in> set (co_threads co)))) \<and>
    (Panic \<in> set rs \<longrightarrow> (\<exists>co. reaches E init_conc co \<and> co_crashed co))"
proof (intro conjI impI)
  have quiet: "quiet (new_session :: 'a session) []" by (simp add: quiet_def new_session_def)
  have init: "proc (se_srv new_session) None [] = init_conc" by (simp add: new_session_def init_conc_def)
  show "\<exists>co. reaches E init_conc co \<and> \<not> co_crashed co \<and> co_lock co = None \<and> co_srv co = se_srv ss \<and>
      replies (co_threads co) = concat (map2 (\<lambda>(c, rq) r. if rq = RqPing then [] else [r]) script rs) \<and>
      list_all (\<lambda>p. finished p \<or> (\<exists>n. p = WatchA n n)) (co_threads co) \<and>
      (\<forall>n. se_watch ss = Some n \<longrightarrow> WatchA n n \<in> set (co_threads co))" if answered: "list_all answered rs"
  proof -
    obtain ts where "quiet ss ts" "reaches E init_conc (proc (se_srv ss) None ts)"
        "replies ts = concat (map2 (\<lambda>(c, rq) r. thread_replies rq r) script rs)"
      using conversation_reaches [OF assms(1) answered quiet assms(2)] unfolding follows_def init by auto
    then show ?thesis
      by (intro exI [of _ "proc (se_srv ss) None ts"]) (simp add: quiet_def thread_replies_def)
  qed
  show "\<exists>co. reaches E init_conc co \<and> co_crashed co" if "Panic \<in> set rs"
    using conversation_panics [OF assms(1) that quiet assms(2)] unfolding init .
qed

lemma conversation_is_execution_witness:
  "\<exists>co. reaches sample_ext init_conc co \<and> \<not> co_crashed co \<and>
     co_srv co = se_srv (snd (conversation sample_ext sample_script new_session))"
proof -
  obtain rs ss where c: "conversation sample_ext sample_script new_session = (rs, ss)"
    by (cases "conversation sample_ext sample_script (new_session :: string list session)")
  have ok: "\<forall>(c, rq) \<in> set sample_script. env_ok c \<and> request_ok sample_ext rq"
    by (simp add: sample_script_def sample_env_ok sample_start_def)
       (simp add: sample_ext_def colors_def)
  have "list_all answered rs"
    using conversation_ok [OF session_ok_new sample_laws sample_boots ok c] by simp
  moreover have "\<forall>(c, rq) \<in> set sample_script. env_ok c \<and> ce_event c \<noteq> HStopc"
    by (simp add: sample_script_def sample_env_ok) (simp add: sample_env_def)
  ultimately show ?thesis using conversation_is_execution [OF c] c by auto
qed

end
