(* ===== verification/Conc_Maps.thy ===== *)
theory Conc_Maps
  imports Conc_Races
begin

text \<open>
  Go maps are not safe for concurrent use: when the runtime sees an access to a map while another
  goroutine writes it, it ends the process.  Which segments of the threads access which map, which
  pairs of threads can do so at the same time, and two executions that come to such a pair.
\<close>

section \<open>Accesses to maps\<close>

text \<open>
  The shared maps: \<open>nodeInfos\<close>, by its place in the store, and \<open>apiClis\<close> of a network.  The other
  maps are local to a function.
\<close>

datatype map_ref = NodeInfosMap nat | ApiClisMap nat

text \<open>The network on whose wait a thread is, when it is about to run the loop over the nodes.\<close>

fun publishes :: "pc \<Rightarrow> (nat \<times> (string, Node) gomap) option" where
  "publishes (HealthW n (WPublish nodes)) = Some (n, nodes)"
| "publishes (RemoveW n (WPublish nodes)) = Some (n, nodes)"
| "publishes (RestartW idx cfg n (WPublish nodes)) = Some (n, nodes)"
| "publishes (RunW n (WPublish nodes)) = Some (n, nodes)"
| "publishes p = None"

text \<open>The map the server's network has now.\<close>

definition network_map :: "'nw server \<Rightarrow> map_ref list" where
  "network_map s =
     (case sv_network s of None \<Rightarrow> [] | Some n \<Rightarrow> [NodeInfosMap (ln_nodeInfos (net s n))])"

text \<open>
  The maps a segment looks up or iterates over: \<open>URIs\<close> and the marshalling of a reply iterate over the
  map of the cluster information they have got, \<open>Health\<close> and \<open>RemoveNode\<close> over the map of the network, \<open>RestartNode\<close> looks up
  a node, and the loop of \<open>waitForHealthy\<close> the nodes of the network.
\<close>

definition info_map :: "'nw server \<Rightarrow> nat \<Rightarrow> map_ref list" where
  "info_map s i = (case ci_NodeInfos (info_at s i) of None \<Rightarrow> [] | Some m \<Rightarrow> [NodeInfosMap m])"

fun map_reads :: "'nw server \<Rightarrow> pc \<Rightarrow> map_ref list" where
  "map_reads s (URIsB i) = info_map s i"
| "map_reads s (ReplyP i) = (case i of None \<Rightarrow> [] | Some i \<Rightarrow> info_map s i)"
| "map_reads s HealthC = network_map s"
| "map_reads s (RemoveC x) = network_map s"
| "map_reads s (RestartC req) = network_map s"
| "map_reads s p =
     (case publishes p of
        Some (n, nodes) \<Rightarrow> (if nodes = [] then [] else [NodeInfosMap (ln_nodeInfos (net s n))])
      | None \<Rightarrow> [])"

text \<open>
  The maps a segment may assign to or delete from: \<open>RemoveNode\<close> deletes the node, and the loop of
  \<open>waitForHealthy\<close> assigns the clients.  The entries of \<open>nodeInfos\<close> are changed through pointers,
  which is no access to the map.
\<close>

fun map_writes :: "'nw server \<Rightarrow> pc \<Rightarrow> map_ref list" where
  "map_writes s (RemoveC x) = network_map s"
| "map_writes s p =
     (case publishes p of
        Some (n, nodes) \<Rightarrow> (if nodes = [] then [] else [ApiClisMap n])
      | None \<Rightarrow> [])"

text \<open>Two threads that can both run their next segments, which access a map that one of them writes.\<close>

definition map_race :: "'nw conc \<Rightarrow> nat \<Rightarrow> nat \<Rightarrow> map_ref \<Rightarrow> bool" where
  "map_race co i j m \<longleftrightarrow>
     i < length (co_threads co) \<and> j < length (co_threads co) \<and> i \<noteq> j \<and>
     m \<in> set (map_writes (co_srv co) (co_threads co ! i)) \<and>
     m \<in> set (map_reads (co_srv co) (co_threads co ! j)) \<union> set (map_writes (co_srv co) (co_threads co ! j))"

section \<open>Which pairs race\<close>

text \<open>The readers of the published map, which run without the lock.\<close>

fun unlocked_reader :: "pc \<Rightarrow> bool" where
  "unlocked_reader (URIsB _) = True"
| "unlocked_reader (ReplyP _) = True"
| "unlocked_reader _ = False"

text \<open>The wait of \<open>Health\<close> and that of the goroutine \<open>start\<close> run without the lock.\<close>

fun unlocked_wait :: "pc \<Rightarrow> bool" where
  "unlocked_wait (HealthW _ _) = True"
| "unlocked_wait (RunW _ _) = True"
| "unlocked_wait _ = False"

lemma publishes_pc: "publishes p = Some x \<Longrightarrow> holds p \<or> unlocked_wait p"
  by (cases p) auto

lemma map_writes_pc:
  "m \<in> set (map_writes s p) \<Longrightarrow>
   (\<exists>x. p = RemoveC x \<and> m \<in> set (network_map s)) \<or> (\<exists>n nodes. publishes p = Some (n, nodes) \<and> m = ApiClisMap n)"
  by (cases p) (auto split: option.splits if_splits, (metis+)?)

lemma map_reads_pc:
  "m \<in> set (map_reads s p) \<Longrightarrow> unlocked_reader p \<or> holds p \<or> (\<exists>x. publishes p = Some x)"
  by (cases p) (auto split: option.splits if_splits, (metis+)?)

lemma network_map_not_clis: "ApiClisMap n \<notin> set (network_map s)"
  by (simp add: network_map_def split: option.splits)

lemma map_reads_not_clis: "ApiClisMap n \<notin> set (map_reads s p)"
  by (cases p) (auto simp: network_map_not_clis info_map_def split: option.splits if_splits)

text \<open>
  Which threads can access a map while another writes it: a remove request, which deletes from
  \<open>nodeInfos\<close> under the lock, against \<open>URIs\<close>, the marshalling of a reply or a wait that runs without
  the lock; and two waits that both store the clients of the same network, one of them without the
  lock.  Everything else is excluded by the lock.
\<close>

lemma map_races:
  assumes "reaches E init_conc co" and "\<not> co_crashed co" and "map_race co i j m"
    and "p = co_threads co ! i" and "q = co_threads co ! j"
  shows "(\<exists>x. p = RemoveC x \<and> co_lock co = Some i \<and> (unlocked_reader q \<or> unlocked_wait q)) \<or>
    (\<exists>n. m = ApiClisMap n \<and> (unlocked_wait p \<or> unlocked_wait q) \<and>
         (\<exists>nodes nodes'. publishes p = Some (n, nodes) \<and> publishes q = Some (n, nodes')))"
proof -
  have "conc_ok co" using reaches_ok [OF assms(1) conc_ok_init assms(2)] .
  then have lock: "holds p = (co_lock co = Some i)" "holds q = (co_lock co = Some j)"
    using assms(3-5) by (auto simp: conc_ok_def map_race_def)
  have ne: "i \<noteq> j" and w: "m \<in> set (map_writes (co_srv co) p)"
    and r: "m \<in> set (map_reads (co_srv co) q) \<or> m \<in> set (map_writes (co_srv co) q)"
    using assms(3-5) by (auto simp: map_race_def)
  from map_writes_pc [OF w] show ?thesis
  proof
    assume a: "\<exists>x. p = RemoveC x \<and> m \<in> set (network_map (co_srv co))"
    then obtain x where x: "p = RemoveC x" by blast
    then have hq: "\<not> holds q" "co_lock co = Some i" using lock ne by auto
    have "unlocked_reader q \<or> (\<exists>y. publishes q = Some y)"
      using r map_reads_pc [of m _ q] map_writes_pc [of m _ q] hq(1) by fastforce
    then show ?thesis using publishes_pc [of q] hq x by blast
  next
    assume "\<exists>n nodes. publishes p = Some (n, nodes) \<and> m = ApiClisMap n"
    then obtain n nodes where p: "publishes p = Some (n, nodes)" "m = ApiClisMap n" by blast
    then have "m \<in> set (map_writes (co_srv co) q)" using r map_reads_not_clis by blast
    then obtain nodes' where q: "publishes q = Some (n, nodes')"
      using map_writes_pc [of m _ q] p(2) network_map_not_clis by fastforce
    have "unlocked_wait p \<or> unlocked_wait q"
      using publishes_pc [OF p(1)] publishes_pc [OF q] lock ne by auto
    then show ?thesis using p q by blast
  qed
qed

section \<open>Executions that come to a race\<close>

text \<open>The two requests that come to read the map without the lock, up to the read.\<close>

lemma reader_reaches:
  assumes "sv_clusterInfo s = Some i" and "q = URIsB i \<or> q = ReplyP (Some i)"
  shows "reaches E (proc s None ts) (proc s None (ts @ [q]))"
  using assms(2)
proof
  assume "q = URIsB i"
  then show ?thesis
    using proc_begin [of URIsA E "(timeout_env, True)" s "URIsB i" "[]" s ts] assms(1)
    by (simp add: getClusterInfo_def)
next
  assume "q = ReplyP (Some i)"
  then show ?thesis
    using proc_begin [of StatusA E "(timeout_env, True)" s "ReplyP (Some i)" "[]" s ts] assms(1)
    by (simp add: getClusterInfo_def Status_def)
qed

text \<open>C31: When the cluster publishes the map of its network and a node of it could be removed, the process
  can come to a state in which \<open>URIs\<close>, or the marshalling of the reply of \<open>Status\<close>, iterates over the
  map outside the lock while \<open>RemoveNode\<close> deletes from it: both threads can take their step.\<close>

theorem readers_race_RemoveNode:
  assumes "sv_clusterInfo s = Some i" and "sv_network s = Some n"
    and "ci_NodeInfos (info_at s i) = Some (ln_nodeInfos (net s n))"
    and "remove_locked E c x s = (Ret k, s')" and "q = URIsB i \<or> q = ReplyP (Some i)"
  shows "\<exists>co. reaches E (proc s None ts) co \<and> co_threads co = ts @ [q, RemoveC x] \<and>
    map_race co (length ts + 1) (length ts) (NodeInfosMap (ln_nodeInfos (net s n))) \<and>
    (\<exists>co'. step_thread E (c, True) (length ts) co = Some co') \<and>
    (\<exists>co'. step_thread E (c, True) (length ts + 1) co = Some co')"
proof -
  let ?e = "(timeout_env, True)" and ?k = "length (ts @ [q])"
  let ?co = "proc s (Some ?k) ((ts @ [q]) @ [RemoveC x])"
  have "reaches E (proc s None ts) (proc s None (ts @ [q]))"
    by (rule reader_reaches [OF assms(1,5)])
  also have "reaches E (proc s None (ts @ [q])) (proc s None ((ts @ [q]) @ [RemoveB x]))"
    using proc_begin [of "RemoveA x" E ?e s "RemoveB x" "[]" s "ts @ [q]"] assms(1)
    by (simp add: getClusterInfo_def)
  also have "cstep E (proc s None ((ts @ [q]) @ [RemoveB x])) ?co"
    using proc_last_lock [of "RemoveB x" "RemoveC x" E s "ts @ [q]"] by simp
  finally (reaches_step) have r: "reaches E (proc s None ts) ?co" .
  have "map_race ?co (length ts + 1) (length ts) (NodeInfosMap (ln_nodeInfos (net s n)))"
    using assms(2,3,5) by (auto simp: map_race_def nth_append network_map_def info_map_def)
  moreover have "\<exists>co'. step_thread E (c, True) (length ts) ?co = Some co'"
    by (rule step_thread_runs)
       (use assms(5) in \<open>auto simp: nth_append URIs_collect_def Let_def split: option.splits and_then_splits\<close>)
  moreover have "\<exists>co'. step_thread E (c, True) (length ts + 1) ?co = Some co'"
    by (rule step_thread_runs) (simp_all add: nth_append assms(4))
  ultimately show ?thesis using r by (intro exI [of _ ?co]) simp
qed

lemma sample_remove: "\<exists>k s'. remove_locked sample_ext sample_env ''node1'' sample_up = (Ret k, s')"
  using sample_valid by (auto simp: remove_locked_def sample_net_def sample_ext_def Let_def)

lemma sample_published:
  "sv_clusterInfo sample_up = Some 0 \<and> sv_network sample_up = Some 0 \<and>
   ci_NodeInfos (info_at sample_up 0) = Some (ln_nodeInfos (net sample_up 0))"
  by (simp add: sample_net_def) (simp add: sample_up_def sample_net_def)

lemma readers_race_RemoveNode_witness:
  "\<exists>co. reaches sample_ext (proc sample_up None []) co \<and> co_threads co = [ReplyP (Some 0), RemoveC ''node1''] \<and>
     map_race co 1 0 (NodeInfosMap (ln_nodeInfos (net sample_up 0)))"
proof -
  obtain k s' where "remove_locked sample_ext sample_env ''node1'' sample_up = (Ret k, s')"
    using sample_remove by blast
  from readers_race_RemoveNode [OF _ _ _ this, of 0 0 "ReplyP (Some 0)" "[]"] show ?thesis
    using sample_published by auto
qed

text \<open>A wait whose health check reports no error comes to its loop over the nodes.\<close>

definition healthy_env :: call_env where
  "healthy_env = timeout_env\<lparr>ce_event := HReport None\<rparr>"

lemma healthy_env_ok [simp]: "env_ok healthy_env" "ce_event healthy_env = HReport None"
  by (simp_all add: healthy_env_def env_ok_def visit_ok_id timeout_env_def)

definition got_nodes :: "nat \<Rightarrow> (string, Node) gomap \<Rightarrow> 'nw server \<Rightarrow> 'nw server" where
  "got_nodes n nodes s = upd_net n (\<lambda>l. l\<lparr>ln_nodes := Some nodes\<rparr>) s"

lemma got_nodes_simps [simp]:
  "sv_network (got_nodes n nodes s) = sv_network s" "sv_clusterInfo (got_nodes n nodes s) = sv_clusterInfo s"
  "n < length (sv_nets s) \<Longrightarrow> ln_nw (net (got_nodes n nodes s) n) = ln_nw (net s n)"
  "length (sv_nets (got_nodes n nodes s)) = length (sv_nets s)"
  by (simp_all add: got_nodes_def)

lemma wait_reaches:
  assumes "i < length ts" and "ts ! i = f WEnter"
    and "\<And>w. acquires (f w) = None \<and> \<not> reads_info (f w) \<and> \<not> holds (f w)"
    and "\<And>w w' s s'. wait_step E healthy_env n w s = (Ret (Some w'), s') \<Longrightarrow>
           run_pc E (healthy_env, True) (f w) s = (Ret (f w', []), s')"
    and "ln_nw (net s n) = Some nw" and "x_GetAllNodes E nw = Inr nodes"
  shows "reaches E (proc s None ts) (proc (got_nodes n nodes s) None (ts[i := f (WPublish nodes)]))"
proof -
  have step: "cstep E (proc s None ts') (proc s' None (ts'[i := f w']))"
    if "wait_step E healthy_env n w s = (Ret (Some w'), s')" "i < length ts'" "ts' ! i = f w" for w w' s s' ts'
    using proc_step [of i ts' None E "(healthy_env, True)" s "f w'" "[]" s'] that assms(3,4) by simp
  have "reaches E (proc s None ts) (proc s None ts)" by simp
  also have "cstep E (proc s None ts) (proc s None (ts[i := f WSelect]))"
    by (rule step [of WEnter]) (simp_all add: wfh_enter_def assms)
  also (reaches_step) have "cstep E (proc s None (ts[i := f WSelect])) (proc s None ((ts[i := f WSelect])[i := f WNodes]))"
    by (rule step [of WSelect]) (simp_all add: event_possible_def assms)
  also (reaches_step) have "cstep E (proc s None ((ts[i := f WSelect])[i := f WNodes]))
      (proc (got_nodes n nodes s) None (((ts[i := f WSelect])[i := f WNodes])[i := f (WPublish nodes)]))"
    by (rule step [of WNodes]) (simp_all add: wfh_nodes_def got_nodes_def assms)
  finally (reaches_step) show ?thesis by simp
qed

text \<open>A health request and the goroutine \<open>start\<close> side by side, up to their loops.\<close>

lemma start_and_health_race:
  assumes "Start E c req s = (Ret (i, n), s')" and "env_ok c"
    and "x_NewNetwork E (ln_cfg (net s' n)) = Inr nw" and "x_GetAllNodes E nw = Inr nodes"
    and "nodes \<noteq> []"
  shows "\<exists>co. reaches E (proc s None ts) co \<and> \<not> co_crashed co \<and>
    map_race co (length ts + 1) (length ts + 3) (ApiClisMap n) \<and>
    map_race co (length ts + 3) (length ts + 1) (ApiClisMap n)"
proof -
  let ?h = "(healthy_env, True)" and ?k = "length ts"
  let ?s1 = "set_nw n nw s'"
  let ?t0 = "ts @ [answered_with i s', RunA n, WatchN]"
  let ?t1 = "ts @ [answered_with i s', RunW n WEnter, WatchN]"
  let ?t2 = "ts @ [answered_with i s', RunW n WEnter, WatchN, HealthW n WEnter]"
  let ?t3 = "ts @ [answered_with i s', RunW n (WPublish nodes), WatchN, HealthW n WEnter]"
  let ?t4 = "ts @ [answered_with i s', RunW n (WPublish nodes), WatchN, HealthW n (WPublish nodes)]"
  note net = Start_Ret_net [OF assms(1)] and valid = Start_Ret_valid [OF assms(1)]
  have nw: "ln_nw (net ?s1 n) = Some nw" using valid by simp
  have "reaches E (proc s None ts) (proc s' None ?t0)" by (rule Start_reaches [OF assms(1,2)])
  also have "cstep E (proc s' None ?t0) (proc ?s1 None ?t1)"
    using proc_step [of "?k + 1" ?t0 None E ?h s' "RunW n WEnter" "[]" ?s1] assms(3)
    by (simp add: nth_append list_update_append start_create_def)
  also (reaches_step) have "reaches E (proc ?s1 None ?t1) (proc ?s1 None (?t1 @ [HealthN]))"
    using proc_begin [of HealthA E ?h ?s1 HealthN "[]" ?s1 ?t1] net(2) by (simp add: getClusterInfo_def)
  also have "cstep E (proc ?s1 None (?t1 @ [HealthN])) (proc ?s1 None ?t2)"
    using proc_last [of HealthN E ?h ?s1 "HealthW n WEnter" "[]" ?s1 None ?t1] net(1) by simp
  also (reaches_step) have "reaches E (proc ?s1 None ?t2) (proc (got_nodes n nodes ?s1) None ?t3)"
    using wait_reaches [of "?k + 1" ?t2 "RunW n" E n ?s1 nw nodes] nw assms(4)
    by (simp add: nth_append list_update_append)
  also have "reaches E (proc (got_nodes n nodes ?s1) None ?t3)
      (proc (got_nodes n nodes (got_nodes n nodes ?s1)) None ?t4)"
    using wait_reaches [of "?k + 3" ?t3 "HealthW n" E n "got_nodes n nodes ?s1" nw nodes] nw valid assms(4)
    by (simp add: nth_append list_update_append)
  finally have "reaches E (proc s None ts) (proc (got_nodes n nodes (got_nodes n nodes ?s1)) None ?t4)" .
  moreover have "map_race (proc r None ?t4) (?k + 1) (?k + 3) (ApiClisMap n)"
      "map_race (proc r None ?t4) (?k + 3) (?k + 1) (ApiClisMap n)" for r :: "'a server"
    using assms(5) by (simp_all add: map_race_def nth_append)
  ultimately show ?thesis
    by (intro exI [of _ "proc (got_nodes n nodes (got_nodes n nodes ?s1)) None ?t4"]) simp
qed

text \<open>C33: When a start succeeds, the network can be created and has nodes, a health request that arrives
  while the network boots waits for the same network as the goroutine \<open>start\<close>: the process can come to
  a state in which both are about to store the clients of the nodes in the same map, without a lock.\<close>

theorem Health_races_start:
  assumes "Start E c req s = (Ret (i, n), s')" and "env_ok c"
    and "x_NewNetwork E (ln_cfg (net s' n)) = Inr nw" and "x_GetAllNodes E nw = Inr nodes"
    and "nodes \<noteq> []"
  shows "\<exists>co. reaches E (proc s None ts) co \<and> \<not> co_crashed co \<and>
    map_race co (length ts + 1) (length ts + 3) (ApiClisMap n) \<and>
    map_race co (length ts + 3) (length ts + 1) (ApiClisMap n)"
  by (rule start_and_health_race [OF assms])

lemma sample_Start_nodes:
  "\<exists>i n s' nw nodes. Start sample_ext sample_env sample_start init_server = (Ret (i, n), s') \<and>
     x_NewNetwork sample_ext (ln_cfg (net s' n)) = Inr nw \<and> x_GetAllNodes sample_ext nw = Inr nodes \<and> nodes \<noteq> []"
proof -
  obtain i n s' where st: "Start sample_ext sample_env sample_start init_server = (Ret (i, n), s')"
    and "ln_cfg (net s' n) \<noteq> []"
    using sample_Start_cfg by blast
  then have "remdups (map nc_Name (ln_cfg (net s' n))) \<noteq> []" by simp
  then have "\<exists>nodes. x_GetAllNodes sample_ext (remdups (map nc_Name (ln_cfg (net s' n)))) = Inr nodes \<and> nodes \<noteq> []"
    by (simp add: sample_ext_def)
  then obtain nodes where nodes:
      "x_GetAllNodes sample_ext (remdups (map nc_Name (ln_cfg (net s' n)))) = Inr nodes" "nodes \<noteq> []" by blast
  have nw: "x_NewNetwork sample_ext (ln_cfg (net s' n)) = Inr (remdups (map nc_Name (ln_cfg (net s' n))))"
    by (simp add: sample_ext_def)
  show ?thesis using st nw nodes by blast
qed

lemma Health_races_start_witness:
  "\<exists>co n. reaches sample_ext (proc init_server None []) co \<and> map_race co 1 3 (ApiClisMap n)"
proof -
  obtain i n s' nw nodes where "Start sample_ext sample_env sample_start init_server = (Ret (i, n), s')"
    "x_NewNetwork sample_ext (ln_cfg (net s' n)) = Inr nw" "x_GetAllNodes sample_ext nw = Inr nodes" "nodes \<noteq> []"
    using sample_Start_nodes by blast
  then show ?thesis using Health_races_start [OF _ sample_env_ok, where ts = "[]"] by fastforce
qed

end
