(* ===== verification/Conc_Progress.thy ===== *)
theory Conc_Progress
  imports Conc_Props
begin

text \<open>
  Every request of the interleaved process comes to an end: a rank of the threads goes down with
  every step that is not a new request, so the steps are bounded, and a process that cannot step has
  no request left.
\<close>

section \<open>How many segments a thread has left\<close>

fun wait_rank :: "wait \<Rightarrow> nat" where
  "wait_rank WEnter = 4"
| "wait_rank WSelect = 3"
| "wait_rank WNodes = 2"
| "wait_rank (WPublish _) = 1"

text \<open>With the segments of the threads it still begins.\<close>

fun pc_rank :: "pc \<Rightarrow> nat" where
  "pc_rank (StartA _) = 14"
| "pc_rank (StartB _ _) = 13"
| "pc_rank (StartC _ _) = 12"
| "pc_rank HealthA = 9"
| "pc_rank HealthN = 8"
| "pc_rank (HealthW _ w) = wait_rank w + 3"
| "pc_rank HealthB = 3"
| "pc_rank HealthC = 2"
| "pc_rank StatusA = 2"
| "pc_rank URIsA = 2"
| "pc_rank (URIsB _) = 1"
| "pc_rank (RemoveA _) = 8"
| "pc_rank (RemoveB _) = 7"
| "pc_rank (RemoveC _) = 6"
| "pc_rank (RemoveW _ w) = wait_rank w + 1"
| "pc_rank (RestartA _) = 9"
| "pc_rank (RestartB _) = 8"
| "pc_rank (RestartC _) = 7"
| "pc_rank (RestartW _ _ _ w) = wait_rank w + 2"
| "pc_rank (RestartD _ _) = 2"
| "pc_rank StopA = 5"
| "pc_rank (StopB _) = 4"
| "pc_rank (StopC _) = 3"
| "pc_rank (StopW _ _) = 2"
| "pc_rank (RunA _) = 5"
| "pc_rank (RunW _ w) = wait_rank w"
| "pc_rank WatchN = 5"
| "pc_rank (WatchM _) = 4"
| "pc_rank (WatchA _ _) = 3"
| "pc_rank WatchB = 2"
| "pc_rank WatchC = 1"
| "pc_rank (ReplyP _) = 1"
| "pc_rank (Replied _) = 0"
| "pc_rank Done = 0"

definition conc_rank :: "'nw conc \<Rightarrow> nat" where
  "conc_rank co = sum_list (map pc_rank (co_threads co)) + (if co_crashed co then 0 else 1)"

lemma pc_rank_le: "pc_rank p \<le> 14"
proof -
  have w: "wait_rank w \<le> 4" for w by (cases w) simp_all
  have "wait_rank w \<le> 14" "wait_rank w + 1 \<le> 14" "wait_rank w + 2 \<le> 14" "wait_rank w + 3 \<le> 14" for w
    using w [of w] by simp_all
  then show ?thesis by (cases p) simp_all
qed

lemma conc_rank_le: "conc_rank co \<le> 14 * length (co_threads co) + 1"
proof -
  have "sum_list (map pc_rank ts) \<le> 14 * length ts" for ts
    by (induction ts) (simp_all add: add_mono pc_rank_le)
  then show ?thesis by (simp add: conc_rank_def le_SucI)
qed

section \<open>Every step uses one up\<close>

lemma acquires_rank: "acquires p = Some p' \<Longrightarrow> pc_rank p' < pc_rank p"
  by (cases p) auto

lemma wait_step_rank: "wait_step E c n w s = (Ret (Some w'), s') \<Longrightarrow> wait_rank w' < wait_rank w"
  by (cases "(E, c, n, w, s)" rule: wait_step.cases) (auto split: and_then_split_asm if_splits)

lemma wait_rank_pos: "0 < wait_rank w"
  by (cases w) simp_all

lemma run_pc_rank:
  assumes "run_pc E c p s = (Ret (p', new), s')"
  shows "pc_rank p' + sum_list (map pc_rank new) < pc_rank p"
  using assms wait_rank_pos
  by (cases "(E, c, p, s)" rule: run_pc.cases)
     (auto simp: wait_step_rank
           split: and_then_split_asm option.split_asm if_split_asm outcome.split_asm prod.split_asm)

lemma pc_rank_0: "pc_rank p = 0 \<longleftrightarrow> p = Done \<or> (\<exists>r. p = Replied r)"
  using wait_rank_pos by (cases p) auto

lemma sum_list_moved:
  "i < length ts \<Longrightarrow> r + f p' < f (ts ! i) \<Longrightarrow>
   sum_list (map f (ts[i := p'])) + r < sum_list (map (f :: 'a \<Rightarrow> nat) ts)"
proof (induction ts arbitrary: i)
  case (Cons a ts)
  then show ?case by (cases i) fastforce+
qed simp

text \<open>A step of a thread, with whatever the scheduler decides for it.\<close>

inductive tstep :: "'nw ext \<Rightarrow> 'nw conc \<Rightarrow> 'nw conc \<Rightarrow> bool" for E where
  tstep_thread: "\<not> co_crashed co \<Longrightarrow> i < length (co_threads co) \<Longrightarrow> env_ok (fst c) \<Longrightarrow>
     step_thread E c i co = Some co' \<Longrightarrow> tstep E co co'"

inductive_cases tstepE: "tstep E co co'"

lemma tstep_cstep: "tstep E co co' \<Longrightarrow> cstep E co co'"
  by (auto elim: tstepE intro: cstep_thread)

lemma tstep_rank:
  assumes "tstep E co co'"
  shows "conc_rank co' < conc_rank co"
  using assms
proof cases
  case (tstep_thread i c)
  let ?p = "co_threads co ! i"
  have moved: "sum_list (map pc_rank ((co_threads co)[i := p'])) + r < sum_list (map pc_rank (co_threads co))"
    if "pc_rank p' + r < pc_rank ?p" for p' r
    using sum_list_moved [of i "co_threads co" r pc_rank p'] that tstep_thread(2) by (simp add: add.commute)
  show ?thesis
  proof (cases "acquires ?p")
    case (Some p')
    have "co' = co\<lparr>co_lock := Some i, co_threads := (co_threads co)[i := p']\<rparr>"
      using tstep_thread(4) Some by (auto simp: step_thread_def split: if_splits)
    then show ?thesis using moved [of p' 0] acquires_rank [OF Some] by (simp add: conc_rank_def)
  next
    case None
    obtain r s' where run: "run_pc E c ?p (co_srv co) = (r, s')" by (cases "run_pc E c ?p (co_srv co)")
    show ?thesis
    proof (cases r)
      case (Ret x)
      obtain p' new where x: "x = (p', new)" by (cases x)
      have "co_threads co' = (co_threads co)[i := p'] @ new" "co_crashed co' = co_crashed co"
        using tstep_thread(4) None run Ret x by (auto simp: step_thread_def Let_def split: if_splits)
      then show ?thesis
        using moved [OF run_pc_rank [OF run [unfolded Ret x]]] by (simp add: conc_rank_def)
    next
      case (Fail e)
      have "co_threads co' = (co_threads co)[i := failed e ?p]" "co_crashed co' = co_crashed co"
        using tstep_thread(4) None run Fail by (auto simp: step_thread_def Let_def split: if_splits)
      moreover have "?p \<noteq> Done" "\<And>r. ?p \<noteq> Replied r" using run Fail by (cases c; auto)+
      then have "0 < pc_rank ?p" using pc_rank_0 by blast
      moreover have "pc_rank (failed e ?p) = 0" by (cases ?p) simp_all
      ultimately show ?thesis using moved [of "failed e ?p" 0] by (simp add: conc_rank_def)
    next
      case Panic
      have "co_threads co' = co_threads co" "co_crashed co'"
        using tstep_thread(4) None run Panic by (auto simp: step_thread_def Let_def split: if_splits)
      then show ?thesis using tstep_thread(1) by (simp add: conc_rank_def)
    next
      case Block
      then show ?thesis using tstep_thread(4) None run by (auto simp: step_thread_def Let_def split: if_splits)
    qed
  qed
qed

lemma tsteps_rank: "(tstep E ^^ k) co co' \<Longrightarrow> conc_rank co' + k \<le> conc_rank co"
proof (induction k arbitrary: co')
  case (Suc k)
  then obtain d where "(tstep E ^^ k) co d" "tstep E d co'" by auto
  then show ?case using Suc.IH [of d] tstep_rank [of E d co'] by linarith
qed simp

lemma tsteps_reaches: "(tstep E ^^ k) co co' \<Longrightarrow> reaches E co co'"
proof (induction k arbitrary: co')
  case (Suc k)
  then obtain d where "(tstep E ^^ k) co d" "tstep E d co'" by auto
  then show ?case using Suc.IH [of d] tstep_cstep by (meson rtranclp.rtrancl_into_rtrancl)
qed simp

section \<open>Requests come to an end\<close>

lemma watcher_steps:
  assumes "\<not> co_crashed co" and "i < length (co_threads co)" and "co_threads co ! i = WatchA n m"
    and "sv_closed (co_srv co) \<or> ln_stopc (net (co_srv co) n) \<or> oc_closed (ln_ready (net (co_srv co) m))"
  shows "\<exists>co'. tstep E co co'"
proof -
  have "\<exists>pick co'. step_thread E (timeout_env, pick) i co = Some co'"
    using assms(3,4)
    by (cases "sv_closed (co_srv co) \<or> ln_stopc (net (co_srv co) n)")
       (auto simp: step_thread_def Let_def intro: exI [of _ True] exI [of _ False])
  then show ?thesis using tstep_thread assms(1,2) timeout_env_ok(1) by (metis fst_conv)
qed

text \<open>A process in which no thread can take a step has crashed or is at rest.\<close>

definition at_rest :: "'nw conc \<Rightarrow> bool" where
  "at_rest co \<longleftrightarrow>
     (\<forall>p \<in> set (co_threads co). p = Done \<or> (\<exists>r. p = Replied r) \<or>
        (\<exists>n m. p = WatchA n m \<and> \<not> sv_closed (co_srv co) \<and> \<not> ln_stopc (net (co_srv co) n) \<and>
             \<not> oc_closed (ln_ready (net (co_srv co) m))))"

lemma no_tstep_at_rest:
  assumes "reaches E init_conc co" and "\<not> co_crashed co" and "\<And>d. \<not> tstep E co d"
  shows "at_rest co"
proof (rule ccontr)
  assume "\<not> at_rest co"
  then obtain i where i: "i < length (co_threads co)" "co_threads co ! i \<noteq> Done"
      "\<And>r. co_threads co ! i \<noteq> Replied r"
      "\<And>n m. co_threads co ! i = WatchA n m \<Longrightarrow> sv_closed (co_srv co) \<or> ln_stopc (net (co_srv co) n) \<or>
           oc_closed (ln_ready (net (co_srv co) m))"
    by (auto simp: at_rest_def in_set_conv_nth)
  show False
  proof (cases "\<exists>n m. co_threads co ! i = WatchA n m")
    case True
    then show ?thesis using watcher_steps [OF assms(2) i(1)] i(4) assms(3) by blast
  next
    case False
    then show ?thesis using process_never_stuck [OF assms(1,2) i(1-3)] tstep_thread [OF assms(2)] assms(3) by blast
  qed
qed

text \<open>From any reachable state of the process, as long as no new request arrives, the process takes at
  most fourteen steps for each of its threads and one for a crash, whatever the interleaving and
  whatever the libraries do; and when it cannot take another step it has crashed, or every request has
  been replied to and every goroutine has ended, except for the watchers whose network is neither
  stopped nor ready.\<close>

theorem process_answers:
  assumes "reaches E init_conc co" and "(tstep E ^^ k) co co'"
  shows "k \<le> 14 * length (co_threads co) + 1 \<and>
    ((\<exists>d. tstep E co' d) \<or> co_crashed co' \<or>
     (\<forall>p \<in> set (co_threads co'). p = Done \<or> (\<exists>r. p = Replied r) \<or>
        (\<exists>n m. p = WatchA n m \<and> \<not> sv_closed (co_srv co') \<and> \<not> ln_stopc (net (co_srv co') n) \<and>
             \<not> oc_closed (ln_ready (net (co_srv co') m)))))"
proof (intro conjI)
  show "k \<le> 14 * length (co_threads co) + 1"
    using tsteps_rank [OF assms(2)] conc_rank_le [of co] by linarith
  have r: "reaches E init_conc co'" using assms(1) tsteps_reaches [OF assms(2)] by (rule rtranclp_trans)
  show "(\<exists>d. tstep E co' d) \<or> co_crashed co' \<or>
     (\<forall>p \<in> set (co_threads co'). p = Done \<or> (\<exists>r. p = Replied r) \<or>
        (\<exists>n m. p = WatchA n m \<and> \<not> sv_closed (co_srv co') \<and> \<not> ln_stopc (net (co_srv co') n) \<and>
             \<not> oc_closed (ln_ready (net (co_srv co') m))))"
    using no_tstep_at_rest [OF r] unfolding at_rest_def by blast
qed

text \<open>The stop request of the sample is refused, and nothing is left to do.\<close>

lemma process_answers_witness:
  "1 \<le> 12 * length (co_threads sample_stop) + 1 \<and>
   ((\<exists>d. tstep sample_ext (sample_stop\<lparr>co_threads := [Replied (Fail ErrNotBootstrapped)]\<rparr>) d) \<or>
    (\<forall>p \<in> set (co_threads (sample_stop\<lparr>co_threads := [Replied (Fail ErrNotBootstrapped)]\<rparr>)).
       p = Done \<or> (\<exists>r. p = Replied r)))"
proof -
  have "tstep sample_ext sample_stop (sample_stop\<lparr>co_threads := [Replied (Fail ErrNotBootstrapped)]\<rparr>)"
    by (rule tstep_thread [of _ 0 "(timeout_env, True)"])
       (simp_all add: sample_stop_def init_conc_def step_thread_def getClusterInfo_def init_server_def)
  then have "(tstep sample_ext ^^ 1) sample_stop (sample_stop\<lparr>co_threads := [Replied (Fail ErrNotBootstrapped)]\<rparr>)" by (simp add: eq_OO)
  from process_answers [OF sample_stop_reached this] show ?thesis
    by (simp add: sample_stop_def init_conc_def)
qed

end
