(* ===== verification/Conc_Infos.thy ===== *)
theory Conc_Infos
  imports Conc_Progress
begin

text \<open>
  How the cluster information of the server changes in the interleaved process: a new one is made by a
  start and is the newest, a stop clears it, and every other segment leaves the choice as it is.  So
  what a reader gets never goes back to an earlier cluster.
\<close>

section \<open>What a segment does to the choice of the cluster information\<close>

definition shell :: "'nw server \<Rightarrow> bool \<times> nat \<times> nat option" where
  "shell s = (sv_closed s, length (sv_infos s), sv_clusterInfo s)"

lemma shell_upd [simp]:
  "shell (upd_net n f s) = shell s" "shell (upd_map m g s) = shell s" "shell (upd_info c h s) = shell s"
  "shell (s\<lparr>sv_network := x\<rparr>) = shell s" "shell (s\<lparr>sv_dirs := d\<rparr>) = shell s"
  "shell (refresh_names env n s) = shell s"
  by (simp_all add: shell_def refresh_names_def)

lemma wait_step_shell: "wait_step E c n w s = (r, s') \<Longrightarrow> shell s' = shell s"
  by (cases "(E, c, n, w, s)" rule: wait_step.cases)
     (auto simp: wfh_nodes_def wfh_publish_def Let_def
           split: and_then_split_asm if_splits option.splits sum.splits outcome.splits prod.splits)

lemma locked_shell:
  "health_locked c s = (r1, s') \<Longrightarrow> shell s' = shell s"
  "remove_locked E c x s = (r2, s') \<Longrightarrow> shell s' = shell s"
  "restart_locked E req s = (r3, s') \<Longrightarrow> shell s' = shell s"
  "restart_finish idx cfg s = (r4, s') \<Longrightarrow> shell s' = shell s"
  "stop_locked E s = (r5, s') \<Longrightarrow> shell s' = shell s"
  "watch_ready s = (r6, s') \<Longrightarrow> shell s' = shell s"
  "start_create E n s = (r7, s') \<Longrightarrow> shell s' = shell s"
  "start_prepare E c req1 s = (r8, s') \<Longrightarrow> shell s' = shell s"
  by (auto simp: health_locked_def publish_nodes_def remove_locked_def restart_locked_def restart_find_def
                 restart_update_def restart_config_def restart_swap_def restart_finish_def stop_locked_def
                 stop_begin_def watch_ready_def start_create_def start_prepare_def Let_def
           split: option.splits prod.splits and_then_split_asm implConfig.splits if_splits outcome.splits sum.splits)

lemma newNetwork_shell: "newNetwork E b d w l s = (r, s') \<Longrightarrow> shell s' = shell s"
  by (auto simp: newNetwork_def shell_def Let_def split: option.splits prod.splits if_splits)

text \<open>The three ways in which a segment changes it.\<close>

definition infos_step :: "'nw server \<Rightarrow> 'nw server \<Rightarrow> bool" where
  "infos_step s s' \<longleftrightarrow>
     sv_closed s' = sv_closed s \<and>
     (length (sv_infos s') = length (sv_infos s) \<and>
        (sv_clusterInfo s' = sv_clusterInfo s \<or> sv_clusterInfo s' = None) \<or>
      length (sv_infos s') = Suc (length (sv_infos s)) \<and> sv_clusterInfo s' = Some (length (sv_infos s)))"

lemma infos_step_shell: "shell s' = shell s \<Longrightarrow> infos_step s s'"
  by (auto simp: shell_def infos_step_def)

lemma infos_step_upd_net [simp]: "infos_step s (upd_net n f s') = infos_step s s'"
  by (simp add: infos_step_def)

lemma start_locked_infos:
  assumes "start_locked E dir req s = (r, s')"
  shows "infos_step s s'"
proof -
  let ?args = "newNetwork E (sr_ExecPath req) dir (StartRequest_GetWhitelistedSubnets (Some req))
     (StartRequest_GetLogLevel (Some req)) s"
  obtain rn sn where nn: "?args = (rn, sn)" by (cases ?args)
  have "shell sn = shell s" using newNetwork_shell [OF nn] .
  then show ?thesis
    using assms nn
    by (auto simp: start_locked_def infos_step_def shell_def Let_def split: option.splits outcome.splits)
qed

lemma stop_finish_infos: "stop_finish i s = (r, s') \<Longrightarrow> infos_step s s'"
  by (auto simp: stop_finish_def infos_step_def upd_info_def)

lemma run_pc_infos:
  assumes "run_pc E c p s = (r, s')"
  shows "infos_step s s'"
  using assms
  by (cases "(E, c, p, s)" rule: run_pc.cases)
     (auto intro: infos_step_shell
           dest: locked_shell wait_step_shell [THEN infos_step_shell] start_locked_infos stop_finish_infos
           split: and_then_split_asm option.splits if_splits outcome.splits prod.splits)

section \<open>The choice along an execution\<close>

lemma step_thread_infos: "step_thread E c i co = Some co' \<Longrightarrow> infos_step (co_srv co) (co_srv co')"
  by (auto simp: step_thread_def Let_def infos_step_shell
           split: option.splits if_splits prod.splits outcome.splits dest: run_pc_infos)

lemma tstep_closed: "tstep E co co' \<Longrightarrow> sv_closed (co_srv co') = sv_closed (co_srv co)"
  by (auto elim!: tstepE dest: step_thread_infos simp: infos_step_def)

text \<open>The server refers to its newest cluster information, or to none.\<close>

definition newest :: "'nw server \<Rightarrow> bool" where
  "newest s \<longleftrightarrow> (\<forall>i. sv_clusterInfo s = Some i \<longrightarrow> Suc i = length (sv_infos s))"

lemma newest_init: "newest init_server"
  by (simp add: newest_def init_server_def)

lemma infos_step_newest: "infos_step s s' \<Longrightarrow> newest s \<Longrightarrow> newest s'"
  by (auto simp: infos_step_def newest_def)

lemma infos_step_grows: "infos_step s s' \<Longrightarrow> length (sv_infos s) \<le> length (sv_infos s')"
  by (auto simp: infos_step_def)

lemma cstep_infos:
  assumes "cstep E co co'"
  shows "sv_closed (co_srv co) \<Longrightarrow> sv_closed (co_srv co')"
    and "length (sv_infos (co_srv co)) \<le> length (sv_infos (co_srv co'))"
    and "newest (co_srv co) \<Longrightarrow> newest (co_srv co')"
    and "sv_clusterInfo (co_srv co') = Some b \<Longrightarrow> sv_clusterInfo (co_srv co) = Some b \<or>
         b = length (sv_infos (co_srv co)) \<and> b < length (sv_infos (co_srv co'))"
proof -
  have "infos_step (co_srv co) (co_srv co') \<or> co_srv co' = co_srv co \<or> co_srv co' = (co_srv co)\<lparr>sv_closed := True\<rparr>"
    using assms by cases (auto dest: step_thread_infos)
  then show "sv_closed (co_srv co) \<Longrightarrow> sv_closed (co_srv co')"
    and "length (sv_infos (co_srv co)) \<le> length (sv_infos (co_srv co'))"
    and "newest (co_srv co) \<Longrightarrow> newest (co_srv co')"
    and "sv_clusterInfo (co_srv co') = Some b \<Longrightarrow> sv_clusterInfo (co_srv co) = Some b \<or>
         b = length (sv_infos (co_srv co)) \<and> b < length (sv_infos (co_srv co'))"
    using infos_step_newest by (auto simp: infos_step_def) (auto simp: newest_def)
qed

end
