(* ===== verification/Conc_Late.thy ===== *)
theory Conc_Late
  imports Conc_Infos Conc_Serial
begin

text \<open>
  A stop request that is late: \<open>Stop\<close> takes the cluster information before it takes the lock, so a
  second stop that has to wait acts on whatever cluster the server has when it gets the lock, and
  answers with the one it saw before.
\<close>

section \<open>The references of a start\<close>

lemma Start_Ret_info:
  assumes "Start E c req s = (Ret (i, n), s')"
  shows "i = length (sv_infos s)"
proof -
  obtain dir s1 where p: "start_prepare E c req s = (Ret dir, s1)" and l: "start_locked E dir req s1 = (Ret (i, n), s')"
    using assms by (auto simp: Start_def split: and_then_split_asm)
  have "length (sv_infos s1) = length (sv_infos s)"
    using locked_shell(8) [OF p] by (simp add: shell_def)
  moreover have "i = length (sv_infos s1)"
    using l newNetwork_shell by (fastforce simp: start_locked_def shell_def Let_def split: option.splits outcome.splits prod.splits)
  ultimately show ?thesis by simp
qed

lemma Stop_Ret_info:
  assumes "Stop E s = (Ret i, s')"
  shows "sv_clusterInfo s = Some i" and "length (sv_infos s') = length (sv_infos s)"
  using assms locked_shell(5)
  by (fastforce simp: Stop_def getClusterInfo_def stop_finish_def upd_info_def shell_def
                split: option.splits and_then_split_asm if_splits)+

text \<open>A stop that has seen the cluster information \<open>i\<close>, run on after the lock is free.\<close>

lemma late_stop_alone:
  assumes "Stop E s = (Ret j, s')"
  obtains s2 where "alone 5 E (c, b) (StopB i) s = (Ret (answered_with i s2, []), s2)"
    and "sv_network s2 = None" and "sv_clusterInfo s2 = None"
proof -
  obtain n s1 where "stop_locked E s = (Ret n, s1)" and "ln_donec (net s1 n)"
    using assms by (auto simp: Stop_def split: option.splits and_then_split_asm if_splits)
  then have "alone 5 E (c, b) (StopB i) s =
      (Ret (answered_with i (snd (stop_finish i s1)), []), snd (stop_finish i s1))"
    by (simp add: numeral_eq_Suc stop_finish_def)
  then show thesis using that by (simp add: stop_finish_def)
qed

section \<open>The late stop\<close>

text \<open>C29: A stop request that arrives while another one is about to stop the cluster can stop the next
  cluster: when the first stop succeeds, a new cluster is started and boots, and a stop would succeed
  again, the late one stops the new cluster but answers with the information of the old one, which
  had been stopped before.\<close>

theorem late_Stop_stops_next_cluster:
  assumes "Stop E s = (Ret i, s1)" and "i < length (sv_infos s)"
    and "Start E c req s1 = (Ret (j, n), s2)" and "env_ok c"
    and "localNetwork_start E d n s2 = (Ret u, s3)" and "env_ok d" and "ce_event d \<noteq> HStopc"
    and "Stop E s3 = (Ret j, s4)"
  shows "i \<noteq> j \<and> (\<exists>s'. sv_network s' = None \<and> sv_clusterInfo s' = None \<and>
    reaches E (proc s None ts)
      (proc s' None (ts @ [answered_with i s', answered_with i s1, answered_with j s2, Done, WatchN])))"
proof
  show "i \<noteq> j" using assms(2) Stop_Ret_info(2) [OF assms(1)] Start_Ret_info [OF assms(3)] by simp
  let ?c = "(timeout_env, True)" and ?k = "length ts"
  obtain s' where late: "alone 5 E ?c (StopB i) s3 = (Ret (answered_with i s', []), s')"
    and s': "sv_network s' = None" "sv_clusterInfo s' = None"
    using late_stop_alone [OF assms(8)] .
  have "reaches E (proc s None ts) (proc s None (ts @ [StopB i]))"
    using proc_begin [of StopA E ?c s "StopB i" "[]" s ts] Stop_Ret_info(1) [OF assms(1)]
    by (simp add: getClusterInfo_def)
  also have "reaches E (proc s None (ts @ [StopB i])) (proc s1 None ((ts @ [StopB i]) @ [answered_with i s1]))"
    by (rule Stop_reaches [OF assms(1)])
  also have "reaches E (proc s1 None ((ts @ [StopB i]) @ [answered_with i s1]))
      (proc s2 None (ts @ [StopB i, answered_with i s1, answered_with j s2, RunA n, WatchN]))"
    using Start_reaches [OF assms(3,4), of "(ts @ [StopB i]) @ [answered_with i s1]"] by simp
  also have "reaches E (proc s2 None (ts @ [StopB i, answered_with i s1, answered_with j s2, RunA n, WatchN]))
      (proc s3 None (ts @ [StopB i, answered_with i s1, answered_with j s2, Done, WatchN]))"
    using alone_reaches [OF localNetwork_start_alone [OF assms(5,7), unfolded outcome.map], of "?k + 3"
        "ts @ [StopB i, answered_with i s1, answered_with j s2, RunA n, WatchN]"] assms(6)
    by (simp add: nth_append list_update_append numeral_eq_Suc)
  also have "reaches E (proc s3 None (ts @ [StopB i, answered_with i s1, answered_with j s2, Done, WatchN]))
      (proc s' None (ts @ [answered_with i s', answered_with i s1, answered_with j s2, Done, WatchN]))"
    using alone_reaches [OF late, of ?k "ts @ [StopB i, answered_with i s1, answered_with j s2, Done, WatchN]"]
    by (simp add: nth_append list_update_append)
  finally show "\<exists>s'. sv_network s' = None \<and> sv_clusterInfo s' = None \<and>
    reaches E (proc s None ts)
      (proc s' None (ts @ [answered_with i s', answered_with i s1, answered_with j s2, Done, WatchN]))"
    using s' by blast
qed

lemma late_Stop_stops_next_cluster_witness:
  "\<exists>i j p q s'. i \<noteq> j \<and> sv_network s' = None \<and>
     reaches sample_ext (proc sample_up None [])
       (proc s' None [answered_with i s', p, q :: pc, Done, WatchN])"
proof -
  obtain i s1 j n s2 dir where stop: "Stop sample_ext sample_up = (Ret i, s1)"
      and start: "Start sample_ext sample_env sample_start s1 = (Ret (j, n), s2)"
      and s2: "store_ok s2" "fresh n s2" "sv_network s2 = Some n" "sv_clusterInfo s2 = Some j"
        "info_at s2 j = new_info sample_ext dir"
    by (rule sample_restarts)
  have i: "i < length (sv_infos sample_up)"
    using Stop_Ret_info(1) [OF stop] store_okD(3) [of sample_up i] sample_up_ok by (simp add: cluster_ok_def)
  obtain nw where nw: "x_NewNetwork sample_ext (ln_cfg (net s2 n)) = Inr nw"
    using sample_boots by (auto simp: boots_def)
  obtain s3 where s3: "localNetwork_start sample_ext timeout_env n s2 = (Ret (), s3)" "cluster_ok set s3"
      "sv_network s3 = Some n" "sv_clusterInfo s3 = Some j"
    using localNetwork_start_fresh [OF s2 sample_laws timeout_env_ok(1) nw] by metis
  obtain S where "abs_cluster s3 = Up S" using s3(3) by (cases "abs_cluster s3") (simp_all add: abs_cluster_Down_iff)
  moreover obtain r s4 where "Stop sample_ext s3 = (r, s4)" by (cases "Stop sample_ext s3")
  ultimately have again: "Stop sample_ext s3 = (Ret j, s4)" using Stop_ok [OF s3(2)] s3(4) by fastforce
  have "ce_event timeout_env \<noteq> HStopc" by simp
  note late = late_Stop_stops_next_cluster [OF stop i start sample_env_ok s3(1) timeout_env_ok(1) this again, of "[]",
      unfolded append_Nil]
  obtain s' where "sv_network s' = None"
      "reaches sample_ext (proc sample_up None [])
         (proc s' None [answered_with i s', answered_with i s1, answered_with j s2, Done, WatchN])"
    using conjunct2 [OF late] by (elim exE conjE)
  with conjunct1 [OF late] show ?thesis by blast
qed

end
