(* ===== verification/Machines.thy ===== *)
theory Machines
  imports Prelude
begin

text \<open>
  The goroutines of the streams, of \<open>Run\<close> and of the commands are machines driven by events: a step
  takes an event and a state, and is \<open>None\<close> when the event is not possible there.  What their proofs
  share: an invariant of the steps holds after every run, and a rank that goes down bounds its length.
\<close>

fun run_events :: "('e \<Rightarrow> 's \<Rightarrow> 's option) \<Rightarrow> 'e list \<Rightarrow> 's \<Rightarrow> 's option" where
  "run_events step [] st = Some st"
| "run_events step (ev # evs) st =
     (case step ev st of None \<Rightarrow> None | Some st' \<Rightarrow> run_events step evs st')"

lemma run_events_append:
  "run_events step (evs @ evs') st =
     (case run_events step evs st of None \<Rightarrow> None | Some st' \<Rightarrow> run_events step evs' st')"
  by (induction evs arbitrary: st) (auto split: option.splits)

lemma run_events_Cons_Some:
  "run_events step (ev # evs) st = Some st' \<longleftrightarrow>
   (\<exists>st1. step ev st = Some st1 \<and> run_events step evs st1 = Some st')"
  by (auto split: option.splits)

locale machine =
  fixes step :: "'e \<Rightarrow> 's \<Rightarrow> 's option"
    and inv :: "'s \<Rightarrow> bool"
  assumes step_keeps: "step ev st = Some st' \<Longrightarrow> inv st \<Longrightarrow> inv st'"
begin

lemma events_keep: "run_events step evs st = Some st' \<Longrightarrow> inv st \<Longrightarrow> inv st'"
  by (induction evs arbitrary: st) (auto dest: step_keeps split: option.splits)

end

locale ranked_machine = machine +
  fixes rank :: "'s \<Rightarrow> nat"
  assumes step_lowers: "step ev st = Some st' \<Longrightarrow> inv st \<Longrightarrow> rank st' < rank st"
begin

lemma events_bounded: "run_events step evs st = Some st' \<Longrightarrow> inv st \<Longrightarrow> rank st' + length evs \<le> rank st"
proof (induction evs arbitrary: st)
  case (Cons ev evs)
  then obtain st1 where s: "step ev st = Some st1" "run_events step evs st1 = Some st'"
    by (auto split: option.splits)
  show ?case
    using Cons.IH [OF s(2) step_keeps [OF s(1) Cons.prems(2)]] step_lowers [OF s(1) Cons.prems(2)] by simp
qed simp

lemma run_ends: "run_events step evs st = Some st' \<Longrightarrow> inv st \<Longrightarrow> length evs \<le> rank st"
  using events_bounded by fastforce

end

end
