(* ===== verification/Status_Stream.thy ===== *)
theory Status_Stream
  imports Session Machines
begin

text \<open>
  The stream of status updates: \<open>StreamStatus\<close>, \<open>sendLoop\<close> and \<open>recvLoop\<close> of
  \<open>src/server/server.go\<close>, and \<open>StreamStatus\<close> of \<open>src/client/client.go\<close>.  The three goroutines of the
  server's side, and the goroutine and the consumer of the client's side, are state machines; a step
  is driven by an event, which says which case a \<open>select\<close> takes and what a call of the stream
  returns.  An event that is not possible has the result \<open>None\<close>.
\<close>

section \<open>Cancelled by the client\<close>

text \<open>
  \<open>isClientCanceled\<close> of the server and of the client, two copies.  \<open>F\<close> is \<open>status.FromError\<close>: the
  code and message of an error that carries a status.
\<close>

definition isClientCanceled ::
  "(go_error \<Rightarrow> (grpc_code \<times> string) option) \<Rightarrow> go_error option \<Rightarrow> go_error \<Rightarrow> bool" where
  "isClientCanceled F ctxErr err =
     (if ctxErr \<noteq> None then True
      else
        (case F err of
           None \<Rightarrow> False
         | Some (code, msg) \<Rightarrow>
             (case code of
                CodeCanceled \<Rightarrow> True
              | CodeDeadlineExceeded \<Rightarrow> True
              | CodeUnavailable \<Rightarrow>
                  (if msg = ''client disconnected'' then True
                   else strings_HasPrefix msg ''stream error: '' \<and> strings_HasSuffix msg ''; CANCEL'')
              | _ \<Rightarrow> False)))"

definition client_isClientCanceled ::
  "(go_error \<Rightarrow> (grpc_code \<times> string) option) \<Rightarrow> go_error option \<Rightarrow> go_error \<Rightarrow> bool" where
  "client_isClientCanceled F ctxErr err =
     (if ctxErr \<noteq> None then True
      else
        (case F err of
           None \<Rightarrow> False
         | Some (code, msg) \<Rightarrow>
             (case code of
                CodeCanceled \<Rightarrow> True
              | CodeDeadlineExceeded \<Rightarrow> True
              | CodeUnavailable \<Rightarrow>
                  (if msg = ''client disconnected'' then True
                   else strings_HasPrefix msg ''stream error: '' \<and> strings_HasSuffix msg ''; CANCEL'')
              | _ \<Rightarrow> False)))"

section \<open>The server's side\<close>

datatype send_pc = SSelect | SInfo | SSend "nat option" | SEnd
datatype recv_pc = RCheck | RRecv | RPut "go_error option" | REnd
datatype main_pc = MSelect | MWait "go_error option" | MRet "go_error option"

record stream =
  sm_interval :: int64
  sm_crashed :: bool
  sm_root :: "go_error option"
  sm_closed :: bool
  sm_ctx :: "go_error option"
  sm_send :: send_pc
  sm_recv :: recv_pc
  sm_main :: main_pc
  sm_errc :: "go_error option list"
  sm_sent :: "wire_info option list"

text \<open>
  The events: the end of the root context, of the server, of the stream's context; the cases of
  \<open>sendLoop\<close>'s select, the call of \<open>getClusterInfo\<close> (with the state of the server in which it reads
  the pointer) and the results of \<open>Send\<close> (with the state in which it marshals what the pointer
  refers to); the cases of \<open>recvLoop\<close>'s select and the results of \<open>RecvMsg\<close>; the send on \<open>errc\<close>; the cases of the select of \<open>StreamStatus\<close> and the end of
  its wait for \<open>sendLoop\<close>.
\<close>

datatype 'nw stream_event =
    EvRoot go_error | EvClosed | EvCtx go_error
  | SendStop | SendTick | SendInfo "'nw server" | SendOk "'nw server" | SendErr go_error
  | RecvRoot | RecvClosed | RecvDefault | RecvMsg | RecvErr go_error | RecvPut
  | MainErrc | MainCtx | MainDone

definition new_stream :: "int64 \<Rightarrow> stream" where
  "new_stream interval = \<lparr>sm_interval = interval, sm_crashed = False, sm_root = None, sm_closed = False, sm_ctx = None, sm_send = SSelect, sm_recv = RCheck,
                 sm_main = MSelect, sm_errc = [], sm_sent = []\<rparr>"

text \<open>
  The check at the beginning of \<open>StreamStatus\<close>; the interval of the request is taken as a duration
  as it is.
\<close>

definition StreamStatus :: "StreamStatusRequest \<Rightarrow> 'nw server \<Rightarrow> stream outcome" where
  "StreamStatus req s =
     (if getClusterInfo s = None then Fail ErrNotBootstrapped else Ret (new_stream (ss_PushInterval req)))"

text \<open>
  \<open>Ticker.Reset\<close> of the standard library, in the Go release that \<open>src/go.mod\<close> and the workflows name
  (1.17): a negative period is a fatal error of the runtime's timers; a period of zero is taken, and
  since every tick resets the ticker it then ticks without a pause.  Later releases panic at zero too.
\<close>

definition ticker_Reset_ok :: "int64 \<Rightarrow> bool" where
  "ticker_Reset_ok d = (0 \<le> sint d)"

text \<open>\<open>errors.Is(err, context.Canceled)\<close> replaces the error.\<close>

definition stream_err :: "go_error option \<Rightarrow> go_error option" where
  "stream_err err = (if err = Some CtxCanceled then Some ErrStatusCanceled else err)"

fun env_event :: "'nw stream_event \<Rightarrow> stream \<Rightarrow> stream option" where
  "env_event (EvRoot e) st = (if sm_root st = None then Some (st\<lparr>sm_root := Some e\<rparr>) else None)"
| "env_event EvClosed st = (if \<not> sm_closed st then Some (st\<lparr>sm_closed := True\<rparr>) else None)"
| "env_event (EvCtx e) st = (if sm_ctx st = None then Some (st\<lparr>sm_ctx := Some e\<rparr>) else None)"
| "env_event _ st = None"

text \<open>
  \<open>sendLoop\<close>: the first tick comes at once, and every tick resets the ticker to the interval; the
  pointer to the cluster information is read under the read lock, what it refers to only when \<open>Send\<close>
  marshals the update; a failed \<open>Send\<close> ends the loop, whether the client cancelled or not.
\<close>

fun sendLoop_event :: "'nw stream_event \<Rightarrow> stream \<Rightarrow> stream option" where
  "sendLoop_event SendStop st =
     (if sm_send st = SSelect \<and> (sm_root st \<noteq> None \<or> sm_closed st)
      then Some (st\<lparr>sm_send := SEnd\<rparr>) else None)"
| "sendLoop_event SendTick st =
     (if sm_send st = SSelect
      then Some (if ticker_Reset_ok (sm_interval st) then st\<lparr>sm_send := SInfo\<rparr> else st\<lparr>sm_crashed := True\<rparr>)
      else None)"
| "sendLoop_event (SendInfo srv) st =
     (if sm_send st = SInfo then Some (st\<lparr>sm_send := SSend (getClusterInfo srv)\<rparr>) else None)"
| "sendLoop_event (SendOk srv) st =
     (case sm_send st of
        SSend i \<Rightarrow> Some (st\<lparr>sm_send := SSelect, sm_sent := sm_sent st @ [map_option (wire srv) i]\<rparr>)
      | _ \<Rightarrow> None)"
| "sendLoop_event (SendErr e) st =
     (case sm_send st of SSend i \<Rightarrow> Some (st\<lparr>sm_send := SEnd\<rparr>) | _ \<Rightarrow> None)"
| "sendLoop_event _ st = None"

text \<open>
  \<open>recvLoop\<close> and the goroutine around it: what it returns is put into \<open>errc\<close>, a channel with room
  for one value.
\<close>

fun recvLoop_event :: "'nw stream_event \<Rightarrow> stream \<Rightarrow> stream option" where
  "recvLoop_event RecvRoot st =
     (if sm_recv st = RCheck \<and> sm_root st \<noteq> None then Some (st\<lparr>sm_recv := RPut (sm_root st)\<rparr>) else None)"
| "recvLoop_event RecvClosed st =
     (if sm_recv st = RCheck \<and> sm_closed st then Some (st\<lparr>sm_recv := RPut (Some ErrClosed)\<rparr>) else None)"
| "recvLoop_event RecvDefault st =
     (if sm_recv st = RCheck \<and> sm_root st = None \<and> \<not> sm_closed st
      then Some (st\<lparr>sm_recv := RRecv\<rparr>) else None)"
| "recvLoop_event RecvMsg st =
     (if sm_recv st = RRecv then Some (st\<lparr>sm_recv := RCheck\<rparr>) else None)"
| "recvLoop_event (RecvErr e) st =
     (if sm_recv st = RRecv
      then Some (st\<lparr>sm_recv := RPut (if e = IoEOF then None else Some e)\<rparr>) else None)"
| "recvLoop_event RecvPut st =
     (case sm_recv st of
        RPut r \<Rightarrow> (if length (sm_errc st) < 1
                   then Some (st\<lparr>sm_recv := REnd, sm_errc := sm_errc st @ [r]\<rparr>) else None)
      | _ \<Rightarrow> None)"
| "recvLoop_event _ st = None"

fun main_event :: "'nw stream_event \<Rightarrow> stream \<Rightarrow> stream option" where
  "main_event MainErrc st =
     (case (sm_main st, sm_errc st) of
        (MSelect, r # rest) \<Rightarrow> Some (st\<lparr>sm_main := MWait (stream_err r), sm_errc := rest\<rparr>)
      | _ \<Rightarrow> None)"
| "main_event MainCtx st =
     (case (sm_main st, sm_ctx st) of
        (MSelect, Some e) \<Rightarrow> Some (st\<lparr>sm_main := MWait (stream_err (Some e))\<rparr>)
      | _ \<Rightarrow> None)"
| "main_event MainDone st =
     (case sm_main st of
        MWait r \<Rightarrow> (if sm_send st = SEnd then Some (st\<lparr>sm_main := MRet r\<rparr>) else None)
      | _ \<Rightarrow> None)"
| "main_event _ st = None"

definition stream_step :: "'nw stream_event \<Rightarrow> stream \<Rightarrow> stream option" where
  "stream_step ev st =
     (if sm_crashed st then None
      else
        (case env_event ev st of Some st' \<Rightarrow> Some st' | None \<Rightarrow>
         (case sendLoop_event ev st of Some st' \<Rightarrow> Some st' | None \<Rightarrow>
          (case recvLoop_event ev st of Some st' \<Rightarrow> Some st' | None \<Rightarrow> main_event ev st))))"

abbreviation stream_run :: "'nw stream_event list \<Rightarrow> stream \<Rightarrow> stream option" where
  "stream_run \<equiv> run_events stream_step"

section \<open>The client's side\<close>

text \<open>
  The goroutine that receives from the stream and sends into the channel \<open>ch\<close>, which has room for
  one value, and the consumer that ranges over \<open>ch\<close>, which may stop at any time.
\<close>

datatype 'm client_pc = CCheck | CRecv | CSend 'm | CEnd

record 'm client_stream =
  cl_ctx :: bool
  cl_closed :: bool
  cl_pc :: "'m client_pc"
  cl_ch :: "'m list"
  cl_chClosed :: bool
  cl_received :: "'m list"
  cl_consumed :: "'m list"
  cl_reading :: bool

datatype 'm client_event =
    CtxDone | ClientClosed
  | CSelStop | CSelDefault | CRecvOk 'm | CRecvErr go_error | CPut
  | Take | Quit

definition new_client_stream :: "'m client_stream" where
  "new_client_stream = \<lparr>cl_ctx = False, cl_closed = False, cl_pc = CCheck, cl_ch = [],
     cl_chClosed = False, cl_received = [], cl_consumed = [], cl_reading = True\<rparr>"

text \<open>
  \<open>CRecvErr\<close>: end of file or any other error returns; the deferred function closes the channel.
  \<open>Take\<close> is the receive of the consumer, which also ends when the channel is closed and empty.
\<close>

definition client_end :: "'m client_stream \<Rightarrow> 'm client_stream" where
  "client_end cs = cs\<lparr>cl_pc := CEnd, cl_chClosed := True\<rparr>"

fun client_step :: "'m client_event \<Rightarrow> 'm client_stream \<Rightarrow> 'm client_stream option" where
  "client_step CtxDone cs = Some (cs\<lparr>cl_ctx := True\<rparr>)"
| "client_step ClientClosed cs = Some (cs\<lparr>cl_closed := True\<rparr>)"
| "client_step CSelStop cs =
     (if cl_pc cs = CCheck \<and> (cl_ctx cs \<or> cl_closed cs) then Some (client_end cs) else None)"
| "client_step CSelDefault cs =
     (if cl_pc cs = CCheck \<and> \<not> cl_ctx cs \<and> \<not> cl_closed cs then Some (cs\<lparr>cl_pc := CRecv\<rparr>) else None)"
| "client_step (CRecvOk m) cs =
     (if cl_pc cs = CRecv then Some (cs\<lparr>cl_pc := CSend m, cl_received := cl_received cs @ [m]\<rparr>) else None)"
| "client_step (CRecvErr e) cs = (if cl_pc cs = CRecv then Some (client_end cs) else None)"
| "client_step CPut cs =
     (case cl_pc cs of
        CSend m \<Rightarrow> (if length (cl_ch cs) < 1
                    then Some (cs\<lparr>cl_pc := CCheck, cl_ch := cl_ch cs @ [m]\<rparr>) else None)
      | _ \<Rightarrow> None)"
| "client_step Take cs =
     (if \<not> cl_reading cs then None
      else
        (case cl_ch cs of
           m # rest \<Rightarrow> Some (cs\<lparr>cl_ch := rest, cl_consumed := cl_consumed cs @ [m]\<rparr>)
         | [] \<Rightarrow> (if cl_chClosed cs then Some (cs\<lparr>cl_reading := False\<rparr>) else None)))"
| "client_step Quit cs = (if cl_reading cs then Some (cs\<lparr>cl_reading := False\<rparr>) else None)"

abbreviation client_run :: "'m client_event list \<Rightarrow> 'm client_stream \<Rightarrow> 'm client_stream option" where
  "client_run \<equiv> run_events client_step"

end
