(* ===== verification/Stream_Props.thy ===== *)
theory Stream_Props
  imports Status_Stream Sample
begin

text \<open>
  Properties of the stream of status updates, on both sides: when the call returns and with what,
  that its goroutines are not left behind by the server, that the client delivers what it received
  in order, and when the client's goroutine is left behind.
\<close>

section \<open>Cancelled by the client\<close>

lemma prefix_suffix_split:
  assumes "prefix p m" and "suffix q m" and "length p + length q \<le> length m"
  shows "\<exists>mid. m = p @ mid @ q"
proof -
  obtain u where u: "m = p @ u" using assms(1) by (auto simp: prefix_def)
  obtain v where v: "m = v @ q" using assms(2) by (auto simp: suffix_def)
  have "length p \<le> length v" using assms(3) v by simp
  then obtain mid where "v = p @ mid" using u v by (metis append_eq_append_conv_if append_take_drop_id)
  then show ?thesis using v by auto
qed

lemma cancel_message:
  "strings_HasPrefix m ''stream error: '' \<and> strings_HasSuffix m ''; CANCEL'' \<longleftrightarrow>
   (\<exists>mid. m = ''stream error: '' @ mid @ ''; CANCEL'')"
  (is "?l \<longleftrightarrow> ?r")
proof
  assume l: ?l
  have "length ''stream error: '' + length ''; CANCEL'' \<le> length m"
  proof (rule ccontr)
    assume short: "\<not> ?thesis"
    obtain u where u: "m = ''stream error: '' @ u" using l by (auto simp: strings_HasPrefix_def prefix_def)
    then obtain v where v: "''stream error: '' @ u = v @ ''; CANCEL''"
      using l by (auto simp: strings_HasSuffix_def suffix_def)
    have "length u < 8" using short u by simp
    moreover have "length v = length u + 6" using arg_cong [OF v, of length] by simp
    ultimately have "length v < 14" "6 \<le> length v" by simp_all
    have "(''stream error: '' @ u) ! length v = CHR '';''" unfolding v by (simp add: nth_append)
    then have "''stream error: '' ! length v = CHR '';''"
      using \<open>length v < 14\<close> by (simp add: nth_append del: append.simps)
    moreover have "length v \<in> {6, 7, 8, 9, 10, 11, 12, 13}" using \<open>length v < 14\<close> \<open>6 \<le> length v\<close> by auto
    ultimately show False by auto
  qed
  then show ?r
    using l prefix_suffix_split unfolding strings_HasPrefix_def strings_HasSuffix_def by blast
next
  assume ?r
  then show ?l by (auto simp: strings_HasPrefix_def strings_HasSuffix_def suffix_def)
qed

text \<open>An error counts as cancelled by the client exactly when the context of the stream has ended,
  or the error carries the status canceled or deadline exceeded, or it carries the status
  unavailable with one of the two messages the transport uses for cancelled streams.  The copies of
  the function in the server and in the client agree.\<close>

theorem isClientCanceled_iff:
  "(isClientCanceled F ctxErr err \<longleftrightarrow>
     ctxErr \<noteq> None \<or>
     (\<exists>msg. F err = Some (CodeCanceled, msg) \<or> F err = Some (CodeDeadlineExceeded, msg)) \<or>
     F err = Some (CodeUnavailable, ''client disconnected'') \<or>
     (\<exists>mid. F err = Some (CodeUnavailable, ''stream error: '' @ mid @ ''; CANCEL''))) \<and>
   client_isClientCanceled F ctxErr err = isClientCanceled F ctxErr err"
proof
  show "client_isClientCanceled F ctxErr err = isClientCanceled F ctxErr err"
    unfolding isClientCanceled_def client_isClientCanceled_def ..
  show "isClientCanceled F ctxErr err \<longleftrightarrow>
     ctxErr \<noteq> None \<or>
     (\<exists>msg. F err = Some (CodeCanceled, msg) \<or> F err = Some (CodeDeadlineExceeded, msg)) \<or>
     F err = Some (CodeUnavailable, ''client disconnected'') \<or>
     (\<exists>mid. F err = Some (CodeUnavailable, ''stream error: '' @ mid @ ''; CANCEL''))"
  proof (cases "F err")
    case None
    then show ?thesis by (simp add: isClientCanceled_def)
  next
    case (Some r)
    obtain code msg where r: "r = (code, msg)" by (cases r)
    show ?thesis
      using Some r cancel_message [of msg]
      by (cases code) (auto simp: isClientCanceled_def simp del: append.simps)
  qed
qed

lemma isClientCanceled_iff_witness:
  "isClientCanceled (\<lambda>_. Some (CodeUnavailable, ''stream error: '' @ ''stream ID 21'' @ ''; CANCEL'')) None IoEOF"
  by (rule isClientCanceled_iff [THEN conjunct1, THEN iffD2]) blast

section \<open>The server's side\<close>

definition stream_inv :: "stream \<Rightarrow> bool" where
  "stream_inv st \<longleftrightarrow>
     (sm_recv st \<noteq> REnd \<longrightarrow> sm_errc st = []) \<and>
     (\<forall>r. sm_main st = MWait r \<or> sm_main st = MRet r \<longrightarrow> r \<noteq> Some CtxCanceled) \<and>
     (\<forall>r. sm_main st = MRet r \<longrightarrow> sm_send st = SEnd)"

lemma stream_err_not_canceled [simp]: "stream_err e \<noteq> Some CtxCanceled"
  by (simp add: stream_err_def)

lemma stream_step_inv:
  assumes "stream_step ev st = Some st'" and "stream_inv st"
  shows "stream_inv st'" and "sm_send st = SEnd \<Longrightarrow> sm_send st' = SEnd \<and> sm_sent st' = sm_sent st"
    and "sm_main st = MRet r \<Longrightarrow> sm_main st' = MRet r"
proof -
  show "stream_inv st'"
    using assms
    by (cases ev) (auto simp: stream_step_def stream_inv_def
        split: if_splits option.splits send_pc.splits recv_pc.splits main_pc.splits list.splits)
  show "sm_send st = SEnd \<Longrightarrow> sm_send st' = SEnd \<and> sm_sent st' = sm_sent st"
    using assms(1)
    by (cases ev) (auto simp: stream_step_def split: if_splits option.splits send_pc.splits recv_pc.splits main_pc.splits list.splits)
  show "sm_main st = MRet r \<Longrightarrow> sm_main st' = MRet r"
    using assms(1)
    by (cases ev) (auto simp: stream_step_def split: if_splits option.splits send_pc.splits recv_pc.splits main_pc.splits list.splits)
qed

interpretation stream: machine stream_step stream_inv
  by unfold_locales (rule stream_step_inv(1))

text \<open>A sender that has ended sends nothing more, and a call that has returned has returned.\<close>

interpretation ended: machine stream_step "\<lambda>st. stream_inv st \<and> sm_send st = SEnd \<and> sm_sent st = sent" for sent
  by unfold_locales (use stream_step_inv in blast)

interpretation returned: machine stream_step "\<lambda>st. stream_inv st \<and> sm_main st = MRet r" for r
  by unfold_locales (use stream_step_inv in blast)

lemma stream_inv_new: "stream_inv (new_stream iv)"
  by (simp add: stream_inv_def new_stream_def)

text \<open>C17: When the call returns, the goroutine that sends has ended and nothing is sent afterwards; the
  error it returns is never the bare cancellation of a context; and the goroutine that receives,
  whenever it has something to report, can put it into the channel at once, so it is not left
  behind when nobody reads.\<close>

theorem stream_returns_clean:
  assumes "stream_run evs (new_stream iv) = Some st"
  shows "(\<forall>r. sm_main st = MRet r \<longrightarrow> sm_send st = SEnd \<and> r \<noteq> Some CtxCanceled \<and>
            (\<forall>evs' st'. stream_run evs' st = Some st' \<longrightarrow> sm_sent st' = sm_sent st \<and> sm_main st' = MRet r)) \<and>
         (\<forall>r. sm_recv st = RPut r \<longrightarrow> sm_crashed st \<or> stream_step RecvPut st =
            Some (st\<lparr>sm_recv := REnd, sm_errc := [r]\<rparr>))"
proof -
  have inv: "stream_inv st" using stream.events_keep [OF assms stream_inv_new] .
  then have put: "stream_step RecvPut st = Some (st\<lparr>sm_recv := REnd, sm_errc := [r]\<rparr>)"
    if "sm_recv st = RPut r" and "\<not> sm_crashed st" for r
    using that inv by (simp add: stream_inv_def stream_step_def)
  have ret: "sm_send st = SEnd \<and> r \<noteq> Some CtxCanceled" if "sm_main st = MRet r" for r
    using inv that by (auto simp: stream_inv_def)
  show ?thesis using put ret ended.events_keep [of _ st] returned.events_keep [of _ st] inv by blast
qed

definition sample_stream_events :: "string list stream_event list" where
  "sample_stream_events =
     [SendTick, SendInfo sample_up, SendOk sample_up, RecvDefault, EvCtx CtxCanceled, MainCtx, SendTick, SendInfo sample_up, SendErr CtxCanceled,
      RecvErr CtxCanceled, MainDone]"

lemma stream_returns_clean_witness:
  "\<exists>st. stream_run sample_stream_events (new_stream 5) = Some st \<and>
        sm_main st = MRet (Some ErrStatusCanceled) \<and> sm_send st = SEnd \<and>
        stream_step (RecvPut :: string list stream_event) st =
          Some (st\<lparr>sm_recv := REnd, sm_errc := [Some CtxCanceled]\<rparr>)"
proof -
  obtain st where st: "stream_run sample_stream_events (new_stream 5) = Some st"
      "sm_main st = MRet (Some ErrStatusCanceled)" "sm_recv st = RPut (Some CtxCanceled)" "\<not> sm_crashed st"
    by (simp add: sample_stream_events_def stream_step_def new_stream_def stream_err_def ticker_Reset_ok_def)
  show ?thesis using stream_returns_clean [OF st(1)] st by blast
qed

lemma half_closed_run:
  "\<not> sm_crashed st \<Longrightarrow> ticker_Reset_ok (sm_interval st) \<Longrightarrow> sm_main st = MWait None \<Longrightarrow> sm_send st = SSelect \<Longrightarrow>
   stream_run (concat (map (\<lambda>s. [SendTick, SendInfo s, SendOk s]) srvs)) st =
     Some (st\<lparr>sm_sent := sm_sent st @ map (\<lambda>s. map_option (wire s) (getClusterInfo s)) srvs\<rparr>)"
  by (induction srvs arbitrary: st) (simp_all add: stream_step_def)

text \<open>C37: A client that closes its sending side does not end the stream: after the end of file the
  call waits for the goroutine that sends, which goes on for as many updates as the ticker fires.\<close>

theorem half_close_keeps_streaming:
  assumes "ticker_Reset_ok iv"
  shows "\<exists>st. stream_run ([RecvDefault, RecvErr IoEOF, RecvPut, MainErrc] :: 'nw stream_event list) (new_stream iv) = Some st \<and>
     sm_main st = MWait None \<and>
     (\<forall>srvs :: 'nw server list. \<exists>st'. stream_run (concat (map (\<lambda>s. [SendTick, SendInfo s, SendOk s]) srvs)) st = Some st' \<and>
        sm_main st' = MWait None \<and> length (sm_sent st') = length srvs)"
proof -
  obtain st where st: "stream_run ([RecvDefault, RecvErr IoEOF, RecvPut, MainErrc] :: 'nw stream_event list)
        (new_stream iv) = Some st"
      "sm_main st = MWait None" "sm_send st = SSelect" "sm_sent st = []" "\<not> sm_crashed st" "sm_interval st = iv"
    by (simp add: stream_step_def new_stream_def stream_err_def)
  show ?thesis
    using st assms by (intro exI [of _ st]) (simp add: half_closed_run)
qed

lemma half_close_keeps_streaming_witness:
  "\<exists>st. stream_run ([RecvDefault, RecvErr IoEOF, RecvPut, MainErrc] :: string list stream_event list)
       (new_stream 5) = Some st \<and> sm_main st = MWait None"
proof -
  have "ticker_Reset_ok 5" by (simp add: ticker_Reset_ok_def)
  then show ?thesis using half_close_keeps_streaming [of 5] by blast
qed

lemma stream_step_interval:
  assumes "stream_step ev st = Some st'"
  shows "sm_interval st' = sm_interval st"
    and "sm_crashed st' \<longleftrightarrow> ev = SendTick \<and> \<not> ticker_Reset_ok (sm_interval st)"
  using assms
  by (cases ev; auto simp: stream_step_def split: if_splits option.splits send_pc.splits recv_pc.splits main_pc.splits list.splits)+

lemma stream_run_crash:
  "stream_run evs st = Some st' \<Longrightarrow> \<not> sm_crashed st \<Longrightarrow>
   sm_crashed st' \<longleftrightarrow> SendTick \<in> set evs \<and> \<not> ticker_Reset_ok (sm_interval st)"
proof (induction evs arbitrary: st)
  case Nil
  then show ?case by simp
next
  case (Cons ev evs)
  then obtain st1 where s: "stream_step ev st = Some st1" "stream_run evs st1 = Some st'"
    by (auto split: option.splits)
  note i = stream_step_interval [OF s(1)]
  show ?case
  proof (cases "sm_crashed st1")
    case True
    then have "evs = []" using s(2) by (cases evs) (auto simp: stream_step_def)
    then show ?thesis using True i s(2) by auto
  next
    case False
    then show ?thesis using Cons.IH [OF s(2) False] i by auto
  qed
qed

text \<open>C19: The interval is not checked: a stream asked for with a negative interval is accepted and ends
  the whole process with the first tick of its ticker; any other stream never does, whatever happens
  on it.\<close>

theorem bad_interval_crashes:
  assumes "StreamStatus req s = Ret st0" and "stream_run evs st0 = Some st"
  shows "sm_crashed st \<longleftrightarrow> SendTick \<in> set evs \<and> sint (ss_PushInterval req) < 0"
proof -
  have "\<not> sm_crashed st0" "sm_interval st0 = ss_PushInterval req"
    using assms(1) by (auto simp: StreamStatus_def new_stream_def split: if_splits)
  then show ?thesis using stream_run_crash [OF assms(2)] by (simp add: ticker_Reset_ok_def not_le)
qed

lemma bad_interval_crashes_witness:
  "\<exists>st0 st. StreamStatus \<lparr>ss_PushInterval = - 1\<rparr> sample_up = Ret st0 \<and>
     stream_run ([RecvDefault, SendTick] :: string list stream_event list) st0 = Some st \<and> sm_crashed st"
proof -
  obtain st0 st where st: "StreamStatus \<lparr>ss_PushInterval = - 1\<rparr> sample_up = Ret st0"
      "stream_run ([RecvDefault, SendTick] :: string list stream_event list) st0 = Some st"
    by (simp add: StreamStatus_def getClusterInfo_def sample_up_def stream_step_def new_stream_def)
  then show ?thesis using bad_interval_crashes [OF st] by auto
qed

section \<open>The client's side\<close>

definition client_inv :: "'m client_stream \<Rightarrow> bool" where
  "client_inv cs \<longleftrightarrow>
     cl_received cs = cl_consumed cs @ cl_ch cs @ (case cl_pc cs of CSend m \<Rightarrow> [m] | _ \<Rightarrow> []) \<and>
     length (cl_ch cs) \<le> 1 \<and> (cl_chClosed cs \<longleftrightarrow> cl_pc cs = CEnd)"

lemma client_step_inv: "client_step ev cs = Some cs' \<Longrightarrow> client_inv cs \<Longrightarrow> client_inv cs'"
  by (cases ev) (auto simp: client_inv_def client_end_def split: if_splits client_pc.splits list.splits)

interpretation client_side: machine client_step client_inv
  by unfold_locales (rule client_step_inv)

text \<open>C20: The consumer of the client's channel gets the messages in the order in which they were
  received, none twice and none lost: what it has consumed, what is in the channel and what the
  goroutine holds is what was received; the channel is closed exactly when the goroutine has ended,
  so a consumer that finds the channel closed and empty has got everything.\<close>

theorem client_stream_in_order:
  assumes "client_run evs new_client_stream = Some cs"
  shows "cl_received cs = cl_consumed cs @ cl_ch cs @ (case cl_pc cs of CSend m \<Rightarrow> [m] | _ \<Rightarrow> []) \<and>
    cl_chClosed cs = (cl_pc cs = CEnd) \<and>
    (cl_chClosed cs \<and> cl_ch cs = [] \<longrightarrow> cl_consumed cs = cl_received cs)"
proof -
  have "client_inv (new_client_stream :: 'a client_stream)"
    by (simp add: client_inv_def new_client_stream_def)
  then have "client_inv cs" by (rule client_side.events_keep [OF assms])
  then show ?thesis by (auto simp: client_inv_def)
qed

lemma client_stream_in_order_witness:
  "\<exists>cs. client_run [CSelDefault, CRecvOk (1::nat), CPut, CSelDefault, CRecvOk 2, Take, CPut,
          CSelDefault, CRecvErr IoEOF, Take, Take] new_client_stream = Some cs \<and>
        cl_consumed cs = cl_received cs"
proof -
  obtain cs where cs: "client_run [CSelDefault, CRecvOk (1::nat), CPut, CSelDefault, CRecvOk 2, Take, CPut,
          CSelDefault, CRecvErr IoEOF, Take, Take] new_client_stream = Some cs"
      "cl_chClosed cs" "cl_ch cs = []"
    by (simp add: new_client_stream_def client_end_def)
  then show ?thesis using client_stream_in_order [OF cs(1)] by blast
qed

text \<open>The goroutine of a client whose channel nobody reads any more.\<close>

interpretation left_behind: machine client_step "\<lambda>cs. cl_pc cs = CSend m \<and> cl_ch cs = x # xs \<and> \<not> cl_reading cs"
    for m :: 'm and x xs
proof
  show "cl_pc cs' = CSend m \<and> cl_ch cs' = x # xs \<and> \<not> cl_reading cs'"
    if "client_step ev cs = Some cs'" "cl_pc cs = CSend m \<and> cl_ch cs = x # xs \<and> \<not> cl_reading cs" for ev cs cs'
    using that by (cases ev) (auto split: if_splits)
qed

text \<open>C38: When the consumer stops reading while the channel is full, the goroutine that holds the next
  message is left behind for ever: neither the end of the context nor closing the client wakes it.\<close>

theorem client_stream_leaks:
  assumes "cl_pc cs = CSend m" and "cl_ch cs \<noteq> []" and "\<not> cl_reading cs"
    and "client_run evs cs = Some cs'"
  shows "cl_pc cs' = CSend m \<and> cl_ch cs' = cl_ch cs \<and> \<not> cl_reading cs'"
  using left_behind.events_keep [OF assms(4)] assms(1-3) by (cases "cl_ch cs") auto

lemma client_stream_leaks_witness:
  "\<exists>cs cs'. client_run [CSelDefault, CRecvOk (1::nat), CPut, CSelDefault, CRecvOk 2, Quit] new_client_stream
        = Some cs \<and>
      client_run [CtxDone, ClientClosed] cs = Some cs' \<and> cl_pc cs' = CSend 2"
proof -
  obtain cs cs' where cs: "client_run [CSelDefault, CRecvOk (1::nat), CPut, CSelDefault, CRecvOk 2, Quit]
        new_client_stream = Some cs"
      "cl_pc cs = CSend 2" "cl_ch cs \<noteq> []" "\<not> cl_reading cs" "client_run [CtxDone, ClientClosed] cs = Some cs'"
    by (simp add: new_client_stream_def)
  then show ?thesis using client_stream_leaks [OF cs(2-5)] by blast
qed

end
