(* ===== verification/Conc_Stream.thy ===== *)
theory Conc_Stream
  imports Conc_Infos Conc_Maps Stream_Props
begin

text \<open>
  The whole server: the interleaved process together with the status streams that are open.  The
  streams read the cluster information under the read lock and marshal it without a lock; they see
  the end of the root context and of the server, and share the fate of the process.  Runs of the
  whole are projected to runs of the process alone and to runs of each stream alone, so what is
  known of both holds here too.
\<close>

section \<open>The process and its streams\<close>

record 'nw whole =
  wh_conc :: "'nw conc"
  wh_root :: "go_error option"
  wh_streams :: "stream list"

definition init_whole :: "'nw whole" where
  "init_whole = \<lparr>wh_conc = init_conc, wh_root = None, wh_streams = []\<rparr>"

abbreviation wh_srv :: "'nw whole \<Rightarrow> 'nw server" where
  "wh_srv w \<equiv> co_srv (wh_conc w)"

text \<open>
  Which events a stream can have while the process is in a state: it reads the information of the
  server when nobody holds the write lock, and marshals what the server holds then.  The ends of the
  root context and of the server are the same for all streams and are steps of their own.
\<close>

fun event_at :: "'nw stream_event \<Rightarrow> 'nw conc \<Rightarrow> bool" where
  "event_at (SendInfo s) co = (s = co_srv co \<and> co_lock co = None)"
| "event_at (SendOk s) co = (s = co_srv co)"
| "event_at (EvRoot e) co = False"
| "event_at EvClosed co = False"
| "event_at ev co = True"

definition closed_now :: "bool \<Rightarrow> stream list \<Rightarrow> stream list" where
  "closed_now b sts = map (\<lambda>st. st\<lparr>sm_closed := b\<rparr>) sts"

text \<open>
  The steps: one of the process, which may close the server; the end of the root context; a request
  for a stream that is accepted; and an event of a stream, which ends the process when it panics.
\<close>

inductive wstep :: "'nw ext \<Rightarrow> 'nw whole \<Rightarrow> 'nw whole \<Rightarrow> bool" for E where
  wstep_process: "cstep E (wh_conc w) co' \<Longrightarrow>
     wstep E w (w\<lparr>wh_conc := co', wh_streams := closed_now (sv_closed (co_srv co')) (wh_streams w)\<rparr>)"
| wstep_root: "\<not> co_crashed (wh_conc w) \<Longrightarrow> wh_root w = None \<Longrightarrow>
     wstep E w (w\<lparr>wh_root := Some e, wh_streams := map (\<lambda>st. st\<lparr>sm_root := Some e\<rparr>) (wh_streams w)\<rparr>)"
| wstep_open: "\<not> co_crashed (wh_conc w) \<Longrightarrow> co_lock (wh_conc w) = None \<Longrightarrow>
     StreamStatus req (wh_srv w) = Ret st \<Longrightarrow>
     wstep E w (w\<lparr>wh_streams := wh_streams w @ [st\<lparr>sm_root := wh_root w, sm_closed := sv_closed (wh_srv w)\<rparr>]\<rparr>)"
| wstep_stream: "\<not> co_crashed (wh_conc w) \<Longrightarrow> k < length (wh_streams w) \<Longrightarrow> event_at ev (wh_conc w) \<Longrightarrow>
     stream_step ev (wh_streams w ! k) = Some st' \<Longrightarrow>
     wstep E w (w\<lparr>wh_conc := (wh_conc w)\<lparr>co_crashed := sm_crashed st'\<rparr>,
                  wh_streams := (wh_streams w)[k := st']\<rparr>)"

inductive_cases wstepE: "wstep E w w'"

abbreviation wreaches :: "'nw ext \<Rightarrow> 'nw whole \<Rightarrow> 'nw whole \<Rightarrow> bool" where
  "wreaches E \<equiv> (wstep E)\<^sup>*\<^sup>*"

section \<open>Projections\<close>

text \<open>The states a stream can come to by events with a server of the given type.\<close>

definition stream_runs :: "'nw itself \<Rightarrow> stream \<Rightarrow> bool" where
  "stream_runs T st \<longleftrightarrow> (\<exists>evs :: 'nw stream_event list. stream_run evs (new_stream (sm_interval st)) = Some st)"

lemma stream_runs_new: "stream_runs T (new_stream iv)"
  unfolding stream_runs_def by (intro exI [of _ "[]"]) (simp add: new_stream_def)

lemma stream_runs_step:
  assumes "stream_runs TYPE('nw) st" and "stream_step (ev :: 'nw stream_event) st = Some st'"
  shows "stream_runs TYPE('nw) st'"
proof -
  obtain evs :: "'nw stream_event list" where "stream_run evs (new_stream (sm_interval st)) = Some st"
    using assms(1) by (auto simp: stream_runs_def)
  then have "stream_run (evs @ [ev]) (new_stream (sm_interval st')) = Some st'"
    using assms(2) stream_step_interval(1) [OF assms(2)] by (simp add: run_events_append)
  then show ?thesis unfolding stream_runs_def by blast
qed

text \<open>What a stream sees of the whole.\<close>

definition stream_at :: "'nw whole \<Rightarrow> stream \<Rightarrow> bool" where
  "stream_at w st \<longleftrightarrow>
     sm_root st = wh_root w \<and> sm_closed st = sv_closed (wh_srv w) \<and>
     (co_crashed (wh_conc w) \<or> \<not> sm_crashed st) \<and> stream_runs TYPE('nw) st"

lemma stream_step_env:
  assumes "stream_step ev st = Some st'"
  shows "sm_root st' = sm_root st \<or> (\<exists>e. ev = EvRoot e)"
    and "sm_closed st' = sm_closed st \<or> ev = EvClosed"
  using assms
  by (cases ev; auto simp: stream_step_def
        split: if_splits option.splits send_pc.splits recv_pc.splits main_pc.splits list.splits)+

lemma runs_closed:
  assumes "stream_runs TYPE('nw) st" and "\<not> sm_crashed st" and "sm_closed st \<longrightarrow> b"
  shows "stream_runs TYPE('nw) (st\<lparr>sm_closed := b\<rparr>)"
proof (cases "sm_closed st = b")
  case True
  then have "st\<lparr>sm_closed := b\<rparr> = st" by (cases st) simp
  then show ?thesis using assms(1) by simp
next
  case False
  then have "stream_step (EvClosed :: 'nw stream_event) st = Some (st\<lparr>sm_closed := b\<rparr>)"
    using assms(2,3) by (simp add: stream_step_def)
  with assms(1) show ?thesis by (rule stream_runs_step)
qed

lemma runs_root:
  assumes "stream_runs TYPE('nw) st" and "\<not> sm_crashed st" and "sm_root st = None"
  shows "stream_runs TYPE('nw) (st\<lparr>sm_root := r\<rparr>)"
proof (cases r)
  case None
  then have "st\<lparr>sm_root := r\<rparr> = st" using assms(3) by (cases st) simp
  then show ?thesis using assms(1) by simp
next
  case (Some e)
  then have "stream_step (EvRoot e :: 'nw stream_event) st = Some (st\<lparr>sm_root := r\<rparr>)"
    using assms(2,3) by (simp add: stream_step_def)
  with assms(1) show ?thesis by (rule stream_runs_step)
qed

definition whole_ok :: "'nw ext \<Rightarrow> 'nw whole \<Rightarrow> bool" where
  "whole_ok E w \<longleftrightarrow>
     (co_crashed (wh_conc w) \<or> reaches E init_conc (wh_conc w)) \<and> (\<forall>st \<in> set (wh_streams w). stream_at w st)"

lemma whole_ok_init: "whole_ok E init_whole"
  by (simp add: whole_ok_def init_whole_def)

lemma stream_at_process:
  fixes w :: "'nw whole"
  assumes "cstep E (wh_conc w) co'" and "\<not> co_crashed (wh_conc w)" and "stream_at w st"
  shows "stream_at (w\<lparr>wh_conc := co', wh_streams := sts\<rparr>) (st\<lparr>sm_closed := sv_closed (co_srv co')\<rparr>)"
  using assms runs_closed [where 'nw = 'nw, of st "sv_closed (co_srv co')"] cstep_infos(1) [OF assms(1)]
  by (simp add: stream_at_def)

lemma stream_at_event:
  assumes "stream_at w st" and "event_at ev (wh_conc w)" and "stream_step ev st = Some st'"
  shows "stream_at (w\<lparr>wh_conc := (wh_conc w)\<lparr>co_crashed := sm_crashed st'\<rparr>, wh_streams := sts\<rparr>) st'"
proof -
  have "sm_root st' = sm_root st" "sm_closed st' = sm_closed st"
    using stream_step_env [OF assms(3)] assms(2) by auto
  then show ?thesis using assms(1) stream_runs_step [OF _ assms(3)] by (simp add: stream_at_def)
qed

lemma stream_at_open:
  fixes w :: "'nw whole"
  assumes "StreamStatus req (wh_srv w) = Ret st" and "\<not> co_crashed (wh_conc w)"
  shows "stream_at (w\<lparr>wh_streams := sts\<rparr>) (st\<lparr>sm_root := wh_root w, sm_closed := sv_closed (wh_srv w)\<rparr>)"
proof -
  have st: "st = new_stream (ss_PushInterval req)"
    using assms(1) by (auto simp: StreamStatus_def split: if_splits)
  have "stream_runs TYPE('nw) (st\<lparr>sm_root := wh_root w\<rparr>)"
    unfolding st by (rule runs_root [OF stream_runs_new]) (simp_all add: new_stream_def)
  then have "stream_runs TYPE('nw) (st\<lparr>sm_root := wh_root w, sm_closed := sv_closed (wh_srv w)\<rparr>)"
    by (rule runs_closed) (simp_all add: st new_stream_def)
  then show ?thesis by (simp add: stream_at_def st new_stream_def)
qed

lemma wstep_ok:
  assumes "wstep E w w'" and "whole_ok E w"
  shows "whole_ok E w'"
  using assms(1)
proof cases
  case (wstep_process co')
  have nc: "\<not> co_crashed (wh_conc w)" using wstep_process(2) by (auto elim: cstepE)
  then have "reaches E init_conc co'" using wstep_process(2) assms(2) by (auto simp: whole_ok_def)
  then show ?thesis
    using wstep_process stream_at_process [OF wstep_process(2) nc] assms(2)
    by (auto simp: whole_ok_def closed_now_def)
next
  case (wstep_root e)
  have "stream_at (w\<lparr>wh_root := Some e, wh_streams := sts\<rparr>) (st\<lparr>sm_root := Some e\<rparr>)" if "stream_at w st" for st sts
    using that wstep_root runs_root [where 'nw = 'a, of st "Some e"] by (simp add: stream_at_def)
  then show ?thesis using wstep_root assms(2) by (auto simp: whole_ok_def)
next
  case (wstep_open req st)
  have "stream_at (w\<lparr>wh_streams := sts\<rparr>) st" if "stream_at w st" for st sts
    using that by (simp add: stream_at_def)
  then show ?thesis
    using wstep_open stream_at_open [OF wstep_open(4) wstep_open(2)] assms(2) by (auto simp: whole_ok_def)
next
  case (wstep_stream k ev st')
  let ?w = "w\<lparr>wh_conc := (wh_conc w)\<lparr>co_crashed := sm_crashed st'\<rparr>, wh_streams := (wh_streams w)[k := st']\<rparr>"
  have all: "\<forall>st \<in> set (wh_streams w). stream_at w st" using assms(2) by (simp add: whole_ok_def)
  have "stream_at ?w st'"
    using stream_at_event [OF _ wstep_stream(4,5)] all wstep_stream(3) by simp
  moreover have "stream_at ?w st" if "st \<in> set (wh_streams w)" for st
    using all that wstep_stream(2) by (fastforce simp: stream_at_def)
  moreover have "reaches E init_conc (wh_conc w)" using assms(2) wstep_stream(2) by (simp add: whole_ok_def)
  moreover have "(wh_conc w)\<lparr>co_crashed := False\<rparr> = wh_conc w" using wstep_stream(2) by (cases "wh_conc w") simp
  ultimately show ?thesis
    using set_update_subset_insert [of "wh_streams w" k st'] wstep_stream(1)
    by (cases "sm_crashed st'") (auto simp: whole_ok_def)
qed

lemma wreaches_ok: "wreaches E w w' \<Longrightarrow> whole_ok E w \<Longrightarrow> whole_ok E w'"
  by (induction rule: rtranclp_induct) (auto intro: wstep_ok)

section \<open>The process with its streams\<close>

text \<open>The process can go on whatever the streams do.\<close>

lemma process_wreaches:
  assumes "reaches E co co'" and "closed_now (sv_closed (co_srv co)) sts = sts"
  shows "wreaches E \<lparr>wh_conc = co, wh_root = r, wh_streams = sts\<rparr>
    \<lparr>wh_conc = co', wh_root = r, wh_streams = closed_now (sv_closed (co_srv co')) sts\<rparr>"
  using assms(1)
proof (induction rule: rtranclp_induct)
  case base
  then show ?case using assms(2) by simp
next
  case (step co1 co2)
  let ?w = "\<lambda>co. \<lparr>wh_conc = co, wh_root = r, wh_streams = closed_now (sv_closed (co_srv co)) sts\<rparr>"
  have "wstep E (?w co1) (?w co2)"
    using wstep_process [of E "?w co1" co2] step.hyps(2) by (simp add: closed_now_def comp_def)
  then show ?case using step.IH by (rule rtranclp.rtrancl_into_rtrancl [rotated])
qed

lemma process_to_whole:
  "reaches E init_conc co \<Longrightarrow> wreaches E init_whole \<lparr>wh_conc = co, wh_root = None, wh_streams = []\<rparr>"
  using process_wreaches [of E init_conc co "[]" None] by (simp add: init_whole_def closed_now_def)

text \<open>
  So what holds of the process alone and of a stream alone holds for them together: as long as the
  process has not ended, its state with streams is one that the requests and goroutines alone can
  come to, and every stream is in a state of its own machine.
\<close>

lemma streams_only_read:
  fixes w :: "'nw whole"
  assumes "wreaches E init_whole w" and "\<not> co_crashed (wh_conc w)"
  shows "reaches E init_conc (wh_conc w) \<and>
    (\<forall>st \<in> set (wh_streams w). sm_root st = wh_root w \<and> sm_closed st = sv_closed (wh_srv w) \<and>
       \<not> sm_crashed st \<and>
       (\<exists>evs :: 'nw stream_event list. stream_run evs (new_stream (sm_interval st)) = Some st)) \<and>
    (\<forall>co. reaches E init_conc co \<longrightarrow> wreaches E init_whole (init_whole\<lparr>wh_conc := co\<rparr>))"
proof -
  have "whole_ok E w" using wreaches_ok [OF assms(1) whole_ok_init] .
  moreover have "wreaches E init_whole (init_whole\<lparr>wh_conc := co\<rparr>)" if "reaches E init_conc co" for co
    using process_to_whole [OF that] by (simp add: init_whole_def)
  ultimately show ?thesis using assms(2) by (auto simp: whole_ok_def stream_at_def stream_runs_def)
qed

text \<open>A started server of the sample with one stream, and what happens on a stream.\<close>

lemma whole_event:
  assumes "\<not> co_crashed co" and "k < length sts" and "event_at ev co" and "stream_step ev (sts ! k) = Some st'"
    and "\<not> sm_crashed st'"
  shows "wstep E \<lparr>wh_conc = co, wh_root = r, wh_streams = sts\<rparr> \<lparr>wh_conc = co, wh_root = r, wh_streams = sts[k := st']\<rparr>"
proof -
  have "co\<lparr>co_crashed := False\<rparr> = co" using assms(1) by (cases co) simp
  then show ?thesis
    using wstep_stream [of "\<lparr>wh_conc = co, wh_root = r, wh_streams = sts\<rparr>" k ev st' E] assms
    by (simp only: whole.simps) simp
qed

lemma sample_streaming:
  "\<exists>co i. reaches sample_ext init_conc co \<and> \<not> co_crashed co \<and> co_lock co = None \<and>
     getClusterInfo (co_srv co) = Some i \<and> \<not> sv_closed (co_srv co) \<and>
     wreaches sample_ext init_whole \<lparr>wh_conc = co, wh_root = None, wh_streams = [new_stream 5]\<rparr>"
proof -
  obtain i n s' where st: "Start sample_ext sample_env sample_start init_server = (Ret (i, n), s')"
    using sample_Start by blast
  let ?co = "proc s' None [answered_with i s', RunA n, WatchN]"
  have r: "reaches sample_ext init_conc ?co"
    using Start_reaches [OF st sample_env_ok, of "[]"] by (simp add: init_conc_def)
  have info: "getClusterInfo s' = Some i" using Start_Ret_net(2) [OF st] by (simp add: getClusterInfo_def)
  have closed: "\<not> sv_closed s'"
    using st locked_shell(8) start_locked_infos
    by (fastforce simp: Start_def init_server_def infos_step_def shell_def split: and_then_split_asm)
  let ?w = "\<lparr>wh_conc = ?co, wh_root = None, wh_streams = []\<rparr>"
  have "StreamStatus \<lparr>ss_PushInterval = 5\<rparr> (wh_srv ?w) = Ret (new_stream 5)"
    using info by (simp add: StreamStatus_def)
  from wstep_open [OF _ _ this, of sample_ext] closed
  have "wstep sample_ext ?w \<lparr>wh_conc = ?co, wh_root = None, wh_streams = [new_stream 5]\<rparr>"
    by (simp add: new_stream_def)
  with process_to_whole [OF r]
  have "wreaches sample_ext init_whole \<lparr>wh_conc = ?co, wh_root = None, wh_streams = [new_stream 5]\<rparr>"
    by (rule rtranclp.rtrancl_into_rtrancl)
  then show ?thesis using r info closed by (intro exI [of _ ?co]) simp
qed

section \<open>What a stream sends\<close>

text \<open>What a stream holds at the next state: what it held, or what the server refers to now.\<close>

lemma stream_step_holds:
  assumes "stream_step ev st = Some st'" and "event_at ev co" and "sm_send st' = SSend b"
  shows "sm_send st = SSend b \<or> b = getClusterInfo (co_srv co)"
  using assms
  by (cases ev) (auto simp: stream_step_def
        split: if_splits option.splits send_pc.splits recv_pc.splits main_pc.splits list.splits)

lemma wstep_holds:
  assumes "wstep E w w'" and "k < length (wh_streams w)"
  shows "k < length (wh_streams w')" and "length (sv_infos (wh_srv w)) \<le> length (sv_infos (wh_srv w'))"
    and "newest (wh_srv w) \<Longrightarrow> newest (wh_srv w')"
    and "getClusterInfo (wh_srv w') = Some a \<Longrightarrow> getClusterInfo (wh_srv w) = Some a \<or>
         a = length (sv_infos (wh_srv w)) \<and> a < length (sv_infos (wh_srv w'))"
    and "sm_send (wh_streams w' ! k) = SSend b \<Longrightarrow>
         sm_send (wh_streams w ! k) = SSend b \<or> b = getClusterInfo (wh_srv w)"
proof -
  show "k < length (wh_streams w')"
    using assms by cases (simp_all add: closed_now_def)
  show "length (sv_infos (wh_srv w)) \<le> length (sv_infos (wh_srv w'))"
    and "newest (wh_srv w) \<Longrightarrow> newest (wh_srv w')"
    and "getClusterInfo (wh_srv w') = Some a \<Longrightarrow> getClusterInfo (wh_srv w) = Some a \<or>
         a = length (sv_infos (wh_srv w)) \<and> a < length (sv_infos (wh_srv w'))"
    using assms(1) by (cases; simp add: cstep_infos getClusterInfo_def)+
  show "sm_send (wh_streams w ! k) = SSend b \<or> b = getClusterInfo (wh_srv w)"
    if "sm_send (wh_streams w' ! k) = SSend b"
    using assms(1)
  proof cases
    case (wstep_stream j ev st')
    then show ?thesis
      using that assms(2) stream_step_holds [OF wstep_stream(5,4)] by (cases "j = k") auto
  qed (use that assms(2) in \<open>simp_all add: closed_now_def nth_append\<close>)
qed

lemma wreaches_newest: "wreaches E init_whole w \<Longrightarrow> newest (wh_srv w)"
proof (induction rule: rtranclp_induct)
  case (step w w')
  from step.hyps(2) step.IH show ?case by cases (simp_all add: cstep_infos)
qed (simp add: init_whole_def init_conc_def newest_init)

text \<open>What is not older than a state of the server.\<close>

definition not_older :: "'nw server \<Rightarrow> nat \<Rightarrow> bool" where
  "not_older s b \<longleftrightarrow> (\<forall>a. getClusterInfo s = Some a \<longrightarrow> a \<le> b) \<and>
     (getClusterInfo s = None \<longrightarrow> length (sv_infos s) \<le> b)"

lemma not_older_next: "newest s \<Longrightarrow> length (sv_infos s) \<le> b \<Longrightarrow> not_older s b"
  by (auto simp: not_older_def newest_def getClusterInfo_def)

lemma holds_not_older:
  assumes "wreaches E w0 w1" and "newest (wh_srv w0)" and "k < length (wh_streams w0)"
    and "\<And>b. sm_send (wh_streams w0 ! k) \<noteq> SSend b"
  defines "ok w b \<equiv> not_older (wh_srv w0) b \<and> b < length (sv_infos (wh_srv w))"
  shows "k < length (wh_streams w1) \<and> length (sv_infos (wh_srv w0)) \<le> length (sv_infos (wh_srv w1)) \<and>
    (\<forall>b. getClusterInfo (wh_srv w1) = Some b \<longrightarrow> ok w1 b) \<and>
    (\<forall>b. sm_send (wh_streams w1 ! k) = SSend (Some b) \<longrightarrow> ok w1 b)"
  using assms(1)
proof (induction rule: rtranclp_induct)
  case base
  then show ?case
    using assms(2-4) by (auto simp: ok_def not_older_def newest_def getClusterInfo_def)
next
  case (step w w')
  have k: "k < length (wh_streams w)" and IH: "length (sv_infos (wh_srv w0)) \<le> length (sv_infos (wh_srv w))"
    "\<And>b. getClusterInfo (wh_srv w) = Some b \<Longrightarrow> ok w b"
    "\<And>b. sm_send (wh_streams w ! k) = SSend (Some b) \<Longrightarrow> ok w b"
    using step.IH by auto
  note h = wstep_holds [OF step.hyps(2) k]
  have up: "ok w b \<Longrightarrow> ok w' b" for b using h(2) by (simp add: ok_def)
  have "ok w' b" if "getClusterInfo (wh_srv w') = Some b" for b
    using h(4) [OF that] IH(1,2) up not_older_next [OF assms(2)] by (auto simp: ok_def)
  moreover have "ok w' b" if "sm_send (wh_streams w' ! k) = SSend (Some b)" for b
    using h(5) [OF that] IH(2,3) up by auto
  ultimately show ?case using h(1,2) IH(1) by simp
qed

text \<open>C18: An update is never out of date when the stream asks for it: what a stream sends after a given
  state refers to the cluster the server has in that state or to one started later, and to one started
  later when the server has none in that state.  So the updates of a stream follow the order in which
  the clusters were started, and after a stop none of them refers to the stopped cluster.\<close>

theorem stream_updates_fresh:
  assumes "wreaches E init_whole w0" and "wreaches E w0 w1" and "k < length (wh_streams w0)"
    and "\<And>b. sm_send (wh_streams w0 ! k) \<noteq> SSend b" and "sm_send (wh_streams w1 ! k) = SSend (Some b)"
  shows "b < length (sv_infos (wh_srv w1)) \<and>
    (\<forall>a. getClusterInfo (wh_srv w0) = Some a \<longrightarrow> a \<le> b) \<and>
    (getClusterInfo (wh_srv w0) = None \<longrightarrow> length (sv_infos (wh_srv w0)) \<le> b)"
  using holds_not_older [OF assms(2) wreaches_newest [OF assms(1)] assms(3,4)] assms(5) by (auto simp: not_older_def)

text \<open>The stream of the sample, which asks for the information after its first tick.\<close>

lemma asks_for_info:
  assumes "\<not> co_crashed co" and "co_lock co = None" and "getClusterInfo (co_srv co) = Some i"
    and "k < length sts" and "sm_send (sts ! k) = SInfo" and "\<not> sm_crashed (sts ! k)"
  shows "wstep E \<lparr>wh_conc = co, wh_root = r, wh_streams = sts\<rparr>
    \<lparr>wh_conc = co, wh_root = r, wh_streams = sts[k := (sts ! k)\<lparr>sm_send := SSend (Some i)\<rparr>]\<rparr>"
  by (rule whole_event [where ev = "SendInfo (co_srv co)"]) (use assms in \<open>simp_all add: stream_step_def\<close>)

lemma first_tick:
  assumes "\<not> co_crashed co"
  shows "wstep E \<lparr>wh_conc = co, wh_root = r, wh_streams = [new_stream 5]\<rparr>
    \<lparr>wh_conc = co, wh_root = r, wh_streams = [(new_stream 5)\<lparr>sm_send := SInfo\<rparr>]\<rparr>"
  using whole_event [of co 0 "[new_stream 5]" SendTick] assms
  by (simp add: stream_step_def new_stream_def ticker_Reset_ok_def)

lemma stream_updates_fresh_witness:
  "\<exists>w0 w1 a b. wreaches sample_ext init_whole w0 \<and> getClusterInfo (wh_srv w0) = Some a \<and>
     wreaches sample_ext w0 w1 \<and> sm_send (wh_streams w1 ! 0) = SSend (Some b) \<and> a \<le> b"
proof -
  obtain co i where co: "\<not> co_crashed co" "co_lock co = None" "getClusterInfo (co_srv co) = Some i"
      "wreaches sample_ext init_whole \<lparr>wh_conc = co, wh_root = None, wh_streams = [new_stream 5]\<rparr>"
    using sample_streaming by blast
  let ?w = "\<lambda>sts. \<lparr>wh_conc = co, wh_root = None, wh_streams = sts\<rparr>"
  let ?st = "(new_stream 5)\<lparr>sm_send := SSend (Some i)\<rparr>"
  have "wstep sample_ext (?w [(new_stream 5)\<lparr>sm_send := SInfo\<rparr>]) (?w [?st])"
    using asks_for_info [OF co(1-3), of 0 "[(new_stream 5)\<lparr>sm_send := SInfo\<rparr>]"] by (simp add: new_stream_def)
  with first_tick [OF co(1)] have r: "wreaches sample_ext (?w [new_stream 5]) (?w [?st])"
    by (meson converse_rtranclp_into_rtranclp r_into_rtranclp)
  have "sm_send (wh_streams (?w [new_stream 5]) ! 0) \<noteq> SSend b" for b by (simp add: new_stream_def)
  from stream_updates_fresh [OF co(4) r _ this, of i] show ?thesis
    using co(3,4) r by (intro exI [of _ "?w [new_stream 5]"] exI [of _ "?w [?st]"] exI [of _ i]) simp
qed

end
