(* ===== verification/Conc_Ends.thy ===== *)
theory Conc_Ends
  imports Conc_Stream
begin

text \<open>
  The end of the whole server: when the contexts of its streams have ended and no new requests arrive,
  requests, goroutines and streams come to an end, within a bound.  And the complete list of
  the unsynchronised accesses to maps, of threads and streams, with the race of a stream with a remove
  request.
\<close>

section \<open>A stream whose context has ended\<close>

text \<open>
  When the context of a stream has ended, gRPC delivers nothing more: \<open>Send\<close> and \<open>RecvMsg\<close> return an error.
\<close>

fun delivers :: "'nw stream_event \<Rightarrow> bool" where
  "delivers (SendOk s) = True"
| "delivers RecvMsg = True"
| "delivers ev = False"

fun send_rank :: "send_pc \<Rightarrow> nat" where
  "send_rank SSelect = 3"
| "send_rank SInfo = 2"
| "send_rank (SSend i) = 1"
| "send_rank SEnd = 0"

fun recv_rank :: "recv_pc \<Rightarrow> nat" where
  "recv_rank RCheck = 3"
| "recv_rank RRecv = 2"
| "recv_rank (RPut r) = 1"
| "recv_rank REnd = 0"

fun main_rank :: "main_pc \<Rightarrow> nat" where
  "main_rank MSelect = 2"
| "main_rank (MWait r) = 1"
| "main_rank (MRet r) = 0"

definition stream_rank :: "stream \<Rightarrow> nat" where
  "stream_rank st = send_rank (sm_send st) + recv_rank (sm_recv st) + main_rank (sm_main st)"

lemma stream_rank_le: "stream_rank st \<le> 8"
proof -
  have "send_rank (sm_send st) \<le> 3" by (cases "sm_send st") simp_all
  moreover have "recv_rank (sm_recv st) \<le> 3" by (cases "sm_recv st") simp_all
  moreover have "main_rank (sm_main st) \<le> 2" by (cases "sm_main st") simp_all
  ultimately show ?thesis by (simp add: stream_rank_def)
qed

lemma stream_step_rank:
  assumes "stream_step ev st = Some st'" and "sm_ctx st \<noteq> None" and "\<not> delivers ev" and "event_at ev co"
  shows "sm_ctx st' \<noteq> None" and "sm_crashed st' \<and> stream_rank st' = stream_rank st \<or> \<not> sm_crashed st' \<and> stream_rank st' < stream_rank st"
  using assms
  by (cases ev; auto simp: stream_step_def stream_rank_def
        split: if_splits option.splits send_pc.splits recv_pc.splits main_pc.splits list.splits)+

definition stream_over :: "stream \<Rightarrow> bool" where
  "stream_over st \<longleftrightarrow> sm_send st = SEnd \<and> sm_recv st = REnd \<and> (\<exists>r. sm_main st = MRet r)"

lemma stream_rank_0: "stream_rank st = 0 \<longleftrightarrow> stream_over st"
  by (cases "sm_send st"; cases "sm_recv st"; cases "sm_main st") (simp_all add: stream_rank_def stream_over_def)

text \<open>It can take a step until it is over, when nobody holds the lock.\<close>

lemma stream_goes_on:
  assumes "stream_inv st" and "\<not> sm_crashed st" and "sm_ctx st \<noteq> None" and "co_lock co = None"
    and "\<not> stream_over st"
  shows "\<exists>ev st'. \<not> delivers ev \<and> event_at ev co \<and> stream_step ev st = Some st'"
proof -
  have step: ?thesis if "\<not> delivers ev" "event_at ev co" "stream_step ev st \<noteq> None" for ev
    using that by blast
  show ?thesis
  proof (cases "sm_send st")
    case SSelect
    then show ?thesis using assms(2) by (intro step [of SendTick]) (simp_all add: stream_step_def)
  next
    case SInfo
    then show ?thesis using assms(2,4) by (intro step [of "SendInfo (co_srv co)"]) (simp_all add: stream_step_def)
  next
    case (SSend i)
    then show ?thesis using assms(2) by (intro step [of "SendErr CtxCanceled"]) (simp_all add: stream_step_def)
  next
    case send: SEnd
    show ?thesis
    proof (cases "sm_main st")
      case MSelect
      then show ?thesis using assms(2,3) by (intro step [of MainCtx]) (auto simp: stream_step_def)
    next
      case (MWait r)
      then show ?thesis using assms(2) send by (intro step [of MainDone]) (simp_all add: stream_step_def)
    next
      case main: (MRet r)
      show ?thesis
      proof (cases "sm_recv st")
        case RCheck
        then show ?thesis
          using assms(2) step [of RecvRoot] step [of RecvClosed] step [of RecvDefault]
          by (cases "sm_root st = None"; cases "sm_closed st") (simp_all add: stream_step_def)
      next
        case RRecv
        then show ?thesis using assms(2) by (intro step [of "RecvErr CtxCanceled"]) (simp_all add: stream_step_def)
      next
        case (RPut x)
        then show ?thesis using assms(1,2) by (intro step [of RecvPut]) (simp_all add: stream_step_def stream_inv_def)
      next
        case REnd
        then show ?thesis using assms(5) send main by (simp add: stream_over_def)
      qed
    qed
  qed
qed

section \<open>The whole comes to an end\<close>

text \<open>The steps without new requests, in which the streams deliver nothing.\<close>

inductive wtstep :: "'nw ext \<Rightarrow> 'nw whole \<Rightarrow> 'nw whole \<Rightarrow> bool" for E where
  wtstep_process: "tstep E (wh_conc w) co' \<Longrightarrow> wtstep E w (w\<lparr>wh_conc := co'\<rparr>)"
| wtstep_stream: "\<not> co_crashed (wh_conc w) \<Longrightarrow> k < length (wh_streams w) \<Longrightarrow> event_at ev (wh_conc w) \<Longrightarrow>
     \<not> delivers ev \<Longrightarrow> stream_step ev (wh_streams w ! k) = Some st' \<Longrightarrow>
     wtstep E w (w\<lparr>wh_conc := (wh_conc w)\<lparr>co_crashed := sm_crashed st'\<rparr>,
                   wh_streams := (wh_streams w)[k := st']\<rparr>)"

text \<open>In a reachable state these are steps of the whole.\<close>

lemma wtstep_wstep:
  assumes "wtstep E w w'" and "whole_ok E w"
  shows "wstep E w w'"
  using assms(1)
proof cases
  case (wtstep_process co')
  have "closed_now (sv_closed (co_srv co')) (wh_streams w) = wh_streams w"
    using assms(2) tstep_closed [OF wtstep_process(2)]
    by (auto simp: closed_now_def whole_ok_def stream_at_def intro!: map_idI)
  then show ?thesis
    using wtstep_process(1) wstep_process [OF tstep_cstep [OF wtstep_process(2)]] by simp
next
  case (wtstep_stream k ev st')
  then show ?thesis using wstep_stream by blast
qed

definition whole_rank :: "'nw whole \<Rightarrow> nat" where
  "whole_rank w = conc_rank (wh_conc w) + sum_list (map stream_rank (wh_streams w))"

lemma whole_rank_le:
  "whole_rank w \<le> 14 * length (co_threads (wh_conc w)) + 8 * length (wh_streams w) + 1"
proof -
  have "sum_list (map stream_rank sts) \<le> 8 * length sts" for sts
    by (induction sts) (simp_all add: add_mono stream_rank_le)
  from this [of "wh_streams w"] conc_rank_le [of "wh_conc w"] show ?thesis by (simp add: whole_rank_def)
qed

definition ctx_ended :: "'nw whole \<Rightarrow> bool" where
  "ctx_ended w \<longleftrightarrow> (\<forall>st \<in> set (wh_streams w). sm_ctx st \<noteq> None)"

lemma wtstep_rank:
  assumes "wtstep E w w'" and "ctx_ended w"
  shows "ctx_ended w'" and "whole_rank w' < whole_rank w"
proof -
  have "ctx_ended w' \<and> whole_rank w' < whole_rank w"
    using assms(1)
  proof cases
    case (wtstep_process co')
    then show ?thesis using tstep_rank assms(2) by (simp add: whole_rank_def ctx_ended_def)
  next
    case (wtstep_stream k ev st')
    have "sm_ctx (wh_streams w ! k) \<noteq> None" using assms(2) wtstep_stream(3) by (simp add: ctx_ended_def)
    note r = stream_step_rank [OF wtstep_stream(6) this wtstep_stream(5,4)]
    have "ctx_ended w'"
      using r(1) assms(2) set_update_subset_insert [of "wh_streams w" k st'] wtstep_stream(1)
      by (auto simp: ctx_ended_def)
    moreover have "whole_rank w' < whole_rank w"
    proof (cases "sm_crashed st'")
      case True
      then have "stream_rank st' = stream_rank (wh_streams w ! k)" using r(2) by simp
      then have "map stream_rank ((wh_streams w)[k := st']) = map stream_rank (wh_streams w)"
        using list_update_id [of "map stream_rank (wh_streams w)" k] wtstep_stream(3) by (simp add: map_update)
      then show ?thesis using wtstep_stream(1,2) True by (simp add: whole_rank_def conc_rank_def)
    next
      case False
      then show ?thesis
        using r(2) wtstep_stream(1-3) sum_list_moved [of k "wh_streams w" 0 stream_rank st']
        by (simp add: whole_rank_def conc_rank_def)
    qed
    ultimately show ?thesis ..
  qed
  then show "ctx_ended w'" and "whole_rank w' < whole_rank w" by simp_all
qed

lemma wtsteps:
  assumes "(wtstep E ^^ k) w w'" and "ctx_ended w" and "whole_ok E w"
  shows "whole_rank w' + k \<le> whole_rank w" and "ctx_ended w'" and "whole_ok E w'"
proof -
  have "whole_rank w' + k \<le> whole_rank w \<and> ctx_ended w' \<and> whole_ok E w'"
    using assms(1)
  proof (induction k arbitrary: w')
    case (Suc k)
    then obtain d where d: "(wtstep E ^^ k) w d" "wtstep E d w'" by auto
    then have IH: "whole_rank d + k \<le> whole_rank w" "ctx_ended d" "whole_ok E d" using Suc.IH by auto
    then show ?case
      using wtstep_rank [OF d(2) IH(2)] wstep_ok [OF wtstep_wstep [OF d(2) IH(3)] IH(3)] by simp
  qed (use assms(2,3) in simp)
  then show "whole_rank w' + k \<le> whole_rank w" and "ctx_ended w'" and "whole_ok E w'" by simp_all
qed

text \<open>A process at rest does not hold the lock, so its streams can go on.\<close>

lemma at_rest_unlocked: "conc_ok co \<Longrightarrow> at_rest co \<Longrightarrow> co_lock co = None"
proof (rule ccontr)
  assume ok: "conc_ok co" "at_rest co" and "co_lock co \<noteq> None"
  then obtain i where "co_lock co = Some i" by blast
  then have h: "co_threads co ! i \<in> set (co_threads co)" "holds (co_threads co ! i)"
    using ok(1) by (auto simp: conc_ok_def)
  then show False using bspec [OF ok(2) [unfolded at_rest_def] h(1)] by auto
qed

lemma no_wtstep_over:
  assumes "whole_ok E w" and "\<not> co_crashed (wh_conc w)" and "ctx_ended w" and "\<And>d. \<not> wtstep E w d"
  shows "at_rest (wh_conc w) \<and> (\<forall>st \<in> set (wh_streams w). stream_over st)"
proof (intro conjI ballI)
  have r: "reaches E init_conc (wh_conc w)" using assms(1,2) by (simp add: whole_ok_def)
  show rest: "at_rest (wh_conc w)"
    using no_tstep_at_rest [OF r assms(2)] assms(4) wtstep_process by blast
  have lock: "co_lock (wh_conc w) = None"
    using at_rest_unlocked [OF reaches_ok [OF r conc_ok_init assms(2)] rest] .
  fix st assume st: "st \<in> set (wh_streams w)"
  then obtain k where k: "k < length (wh_streams w)" "wh_streams w ! k = st" by (auto simp: in_set_conv_nth)
  have at: "stream_at w st" using assms(1) st by (simp add: whole_ok_def)
  then obtain evs :: "'a stream_event list" where "stream_run evs (new_stream (sm_interval st)) = Some st"
    by (auto simp: stream_at_def stream_runs_def)
  then have "stream_inv st" using stream.events_keep stream_inv_new by blast
  moreover have "\<not> sm_crashed st" "sm_ctx st \<noteq> None"
    using at assms(2,3) st by (simp_all add: stream_at_def ctx_ended_def)
  ultimately show "stream_over st"
    using stream_goes_on [OF _ _ _ lock] wtstep_stream [OF assms(2) k(1)] k(2) assms(4) by blast
qed

text \<open>C7: From any reachable state in which the contexts of the open streams have ended, as long as no new
  request arrives and gRPC delivers nothing more on these streams, the server takes at most fourteen
  steps for each thread, eight for each stream and one for a crash, whatever the interleaving; and in
  a state in which it cannot take another step either a panic has ended the process, or every request
  has been replied to, every goroutine has ended except for the watchers whose networks are neither
  stopped nor ready, and every call of \<open>StreamStatus\<close> has returned with its two goroutines ended.\<close>

theorem server_ends:
  assumes "wreaches E init_whole w" and "\<forall>st \<in> set (wh_streams w). sm_ctx st \<noteq> None"
    and "(wtstep E ^^ k) w w'"
  shows "k \<le> 14 * length (co_threads (wh_conc w)) + 8 * length (wh_streams w) + 1 \<and>
    ((\<exists>d. wtstep E w' d) \<or> co_crashed (wh_conc w') \<or>
     at_rest (wh_conc w') \<and>
     (\<forall>st \<in> set (wh_streams w'). sm_send st = SEnd \<and> sm_recv st = REnd \<and> (\<exists>r. sm_main st = MRet r)))"
proof -
  have ok: "whole_ok E w" using wreaches_ok [OF assms(1) whole_ok_init] .
  have ended: "ctx_ended w" using assms(2) by (simp add: ctx_ended_def)
  note ends = wtsteps [OF assms(3) ended ok]
  show ?thesis
    using ends(1) whole_rank_le [of w] no_wtstep_over [OF ends(3) _ ends(2)] unfolding stream_over_def
    by (intro conjI) (linarith, blast)
qed

text \<open>
  A run to the end: the network of the start cannot be created, so the goroutine of the start ends and
  the watcher waits, and the client of the one stream has cancelled it.
\<close>

lemma no_tstep_when_at_rest:
  assumes "at_rest co"
  shows "\<not> tstep E co d"
proof
  assume "tstep E co d"
  then show False
  proof cases
    case (tstep_thread i c)
    have "co_threads co ! i \<in> set (co_threads co)" using tstep_thread(2) by simp
    then show False
      using tstep_thread(4) assms
      by (cases c) (fastforce simp: at_rest_def step_thread_def Let_def split: if_splits)
  qed
qed

lemma no_wtstep_when_over:
  assumes "at_rest (wh_conc w)" and "\<forall>st \<in> set (wh_streams w). stream_over st \<and> sm_ctx st \<noteq> None"
  shows "\<not> wtstep E w d"
proof
  assume "wtstep E w d"
  then show False
  proof cases
    case (wtstep_process co')
    then show False using no_tstep_when_at_rest [OF assms(1)] by blast
  next
    case (wtstep_stream k ev st')
    then have over: "stream_over (wh_streams w ! k)" "sm_ctx (wh_streams w ! k) \<noteq> None" using assms(2) by simp_all
    have "stream_rank (wh_streams w ! k) = 0" using over(1) stream_rank_0 by blast
    moreover have "\<not> sm_crashed st'"
      using over(1) wtstep_stream(6) stream_step_interval(2) [OF wtstep_stream(6)]
      by (auto simp: stream_over_def stream_step_def split: if_splits)
    ultimately show False
      using stream_step_rank(2) [OF wtstep_stream(6) over(2) wtstep_stream(5,4)] by simp
  qed
qed

lemma wtreaches_stream:
  assumes "stream_run evs st = Some st'" and "\<not> sm_crashed st'" and "\<not> co_crashed co"
    and "\<forall>ev \<in> set evs. event_at ev co \<and> \<not> delivers ev"
  shows "(wtstep E)\<^sup>*\<^sup>* \<lparr>wh_conc = co, wh_root = r, wh_streams = [st]\<rparr> \<lparr>wh_conc = co, wh_root = r, wh_streams = [st']\<rparr>"
  using assms(1,4)
proof (induction evs arbitrary: st)
  case (Cons ev evs)
  then obtain st1 where s: "stream_step ev st = Some st1" "stream_run evs st1 = Some st'"
    by (auto split: option.splits)
  have nc: "\<not> sm_crashed st1"
    using s(2) assms(2) by (cases evs) (auto simp: stream_step_def)
  have "co\<lparr>co_crashed := False\<rparr> = co" using assms(3) by (cases co) simp
  then have "wtstep E \<lparr>wh_conc = co, wh_root = r, wh_streams = [st]\<rparr> \<lparr>wh_conc = co, wh_root = r, wh_streams = [st1]\<rparr>"
    using wtstep_stream [of "\<lparr>wh_conc = co, wh_root = r, wh_streams = [st]\<rparr>" 0 ev st1 E] Cons.prems(2) s(1) nc assms(3)
    by (simp only: whole.simps) simp
  with Cons.IH [OF s(2)] Cons.prems(2) show ?case by (simp add: converse_rtranclp_into_rtranclp)
qed simp

definition failing_ext :: "string list ext" where
  "failing_ext = sample_ext\<lparr>x_NewNetwork := (\<lambda>_. Inl IoEOF)\<rparr>"

lemma failing_start:
  obtains co where "reaches failing_ext init_conc co" and "\<not> co_crashed co" and "co_lock co = None"
    and "getClusterInfo (co_srv co) \<noteq> None" and "\<not> sv_closed (co_srv co)" and "at_rest co"
proof -
  obtain i n s' where st: "Start failing_ext sample_env sample_start init_server = (Ret (i, n), s')"
      and closed: "\<not> sv_closed s'"
    using sample_Start_any [of "\<lambda>_. Inl IoEOF"] by (auto simp: failing_ext_def)
  note net = Start_Ret_net [OF st] and valid = Start_Ret_valid [OF st]
  let ?s = "upd_net n (start_done [IoEOF]) s'"
  let ?p = "\<lambda>s ts. proc s None (answered_with i s' # ts)"
  let ?c = "(timeout_env, True)"
  have create: "start_create failing_ext n s' = (Fail IoEOF, ?s)"
    by (simp add: start_create_def failing_ext_def)
  have "reaches failing_ext init_conc (?p s' [RunA n, WatchN])"
    using Start_reaches [OF st sample_env_ok, of "[]"] by (simp add: init_conc_def)
  also have "cstep failing_ext (?p s' [RunA n, WatchN]) (?p ?s [Done, WatchN])"
    by (rule cstep_thread [where i = 1 and c = ?c]) (simp_all add: step_thread_def create)
  also (reaches_step) have "cstep failing_ext (?p ?s [Done, WatchN]) (?p ?s [Done, WatchM n])"
    by (rule cstep_thread [where i = 2 and c = ?c]) (simp_all add: step_thread_def net(1))
  also (reaches_step) have "cstep failing_ext (?p ?s [Done, WatchM n]) (?p ?s [Done, WatchA n n])"
    by (rule cstep_thread [where i = 2 and c = ?c]) (simp_all add: step_thread_def net(1))
  finally (reaches_step) have r: "reaches failing_ext init_conc (?p ?s [Done, WatchA n n])" .
  have "at_rest (?p ?s [Done, WatchA n n])"
    using valid net(4,6) closed by (simp add: at_rest_def start_done_def)
  with r show ?thesis
    using net(2) closed by (intro that [of "?p ?s [Done, WatchA n n]"]) (simp_all add: getClusterInfo_def)
qed

text \<open>The stream of a client that has cancelled, from the moment it was opened to its end.\<close>

definition cancelled_stream :: stream where
  "cancelled_stream = (new_stream 5)\<lparr>sm_ctx := Some CtxCanceled\<rparr>"

definition ending_events :: "'nw server \<Rightarrow> 'nw stream_event list" where
  "ending_events s =
     [SendTick, MainCtx, RecvDefault, SendInfo s, RecvErr CtxCanceled, SendErr CtxCanceled, MainDone, RecvPut]"

lemma cancelled_ends:
  "\<exists>st. stream_run (ending_events s) cancelled_stream = Some st \<and> stream_over st \<and> sm_ctx st \<noteq> None \<and> \<not> sm_crashed st"
  by (simp add: ending_events_def cancelled_stream_def stream_step_def new_stream_def stream_err_def
      ticker_Reset_ok_def stream_over_def)

lemma server_ends_witness:
  "\<exists>w w' k. wreaches failing_ext init_whole w \<and> wh_streams w = [cancelled_stream] \<and>
     (wtstep failing_ext ^^ k) w w' \<and> (\<nexists>d. wtstep failing_ext w' d) \<and> \<not> co_crashed (wh_conc w') \<and>
     at_rest (wh_conc w') \<and> (\<forall>st \<in> set (wh_streams w'). \<exists>r. sm_main st = MRet r)"
proof -
  obtain co where co: "reaches failing_ext init_conc co" "\<not> co_crashed co" "co_lock co = None"
      "getClusterInfo (co_srv co) \<noteq> None" "\<not> sv_closed (co_srv co)" "at_rest co"
    by (rule failing_start)
  let ?w = "\<lambda>sts. \<lparr>wh_conc = co, wh_root = None, wh_streams = sts\<rparr>"
  have "StreamStatus \<lparr>ss_PushInterval = 5\<rparr> (wh_srv (?w [])) = Ret (new_stream 5)"
    using co(4) by (simp add: StreamStatus_def)
  from wstep_open [OF _ _ this, of failing_ext] co(2,3,5)
  have "wstep failing_ext (?w []) (?w [new_stream 5])" by (simp add: new_stream_def)
  moreover have "wstep failing_ext (?w [new_stream 5]) (?w [cancelled_stream])"
    using whole_event [of co 0 "[new_stream 5]" "EvCtx CtxCanceled" cancelled_stream failing_ext None] co(2)
    by (simp add: stream_step_def new_stream_def cancelled_stream_def)
  ultimately have r: "wreaches failing_ext init_whole (?w [cancelled_stream])"
    using process_to_whole [OF co(1)] by (meson rtranclp.rtrancl_into_rtrancl)
  obtain st where st: "stream_run (ending_events (co_srv co)) cancelled_stream = Some st"
      "stream_over st" "sm_ctx st \<noteq> None" "\<not> sm_crashed st"
    using cancelled_ends by blast
  have "(wtstep failing_ext)\<^sup>*\<^sup>* (?w [cancelled_stream]) (?w [st])"
    using co(3) by (intro wtreaches_stream [OF st(1,4) co(2)]) (simp add: ending_events_def)
  then obtain k where k: "(wtstep failing_ext ^^ k) (?w [cancelled_stream]) (?w [st])"
    by (blast dest: rtranclp_imp_relpowp)
  have stop: "\<nexists>d. wtstep failing_ext (?w [st]) d"
    using no_wtstep_when_over [of "?w [st]"] st(2,3) co(6) by simp
  have "at_rest co \<and> (\<exists>r. sm_main st = MRet r)"
    using server_ends [OF r _ k] stop co(2) by (simp add: cancelled_stream_def)
  then show ?thesis
    using r k stop co(2) by (intro exI [of _ "?w [cancelled_stream]"] exI [of _ "?w [st]"] exI [of _ k]) simp
qed

section \<open>Streams and maps\<close>

text \<open>\<open>Send\<close> iterates over the map of the information it marshals, without the lock.\<close>

definition stream_reads :: "'nw server \<Rightarrow> stream \<Rightarrow> map_ref list" where
  "stream_reads s st = (case sm_send st of SSend (Some i) \<Rightarrow> info_map s i | _ \<Rightarrow> [])"

text \<open>Only a remove request can write it meanwhile.\<close>

lemma stream_reads_pc: "m \<in> set (stream_reads s st) \<Longrightarrow> m \<in> set (map_writes s p) \<Longrightarrow> \<exists>x. p = RemoveC x"
  using map_writes_pc [of m s p]
  by (auto simp: stream_reads_def info_map_def split: send_pc.splits option.splits)

text \<open>C30: In every reachable state of the server with its status streams, the only accesses to a map that
  can happen while a thread writes it are: a remove request, which deletes from \<open>nodeInfos\<close> under the
  lock, against \<open>URIs\<close>, the marshalling of a reply, a wait that runs without the lock, or the
  marshalling of an update by a stream; and two waits that both store the clients of the same network,
  one of them without the lock.  Everything else is excluded by the lock; streams only read maps.\<close>

theorem server_map_races:
  assumes "wreaches E init_whole w" and "\<not> co_crashed (wh_conc w)" and "ts = co_threads (wh_conc w)"
  shows "(\<forall>i j m. map_race (wh_conc w) i j m \<longrightarrow>
      (\<exists>x. ts ! i = RemoveC x \<and> co_lock (wh_conc w) = Some i \<and> (unlocked_reader (ts ! j) \<or> unlocked_wait (ts ! j))) \<or>
      (\<exists>n nodes nodes'. m = ApiClisMap n \<and> (unlocked_wait (ts ! i) \<or> unlocked_wait (ts ! j)) \<and>
         publishes (ts ! i) = Some (n, nodes) \<and> publishes (ts ! j) = Some (n, nodes'))) \<and>
    (\<forall>i k m. i < length ts \<and> k < length (wh_streams w) \<and> m \<in> set (map_writes (wh_srv w) (ts ! i)) \<and>
       m \<in> set (stream_reads (wh_srv w) (wh_streams w ! k)) \<longrightarrow>
       (\<exists>x. ts ! i = RemoveC x) \<and> co_lock (wh_conc w) = Some i \<and> (\<exists>b. sm_send (wh_streams w ! k) = SSend (Some b)))"
proof (intro conjI allI impI)
  have "whole_ok E w" using wreaches_ok [OF assms(1) whole_ok_init] .
  then have r: "reaches E init_conc (wh_conc w)" using assms(2) by (simp add: whole_ok_def)
  show "(\<exists>x. ts ! i = RemoveC x \<and> co_lock (wh_conc w) = Some i \<and> (unlocked_reader (ts ! j) \<or> unlocked_wait (ts ! j))) \<or>
      (\<exists>n nodes nodes'. m = ApiClisMap n \<and> (unlocked_wait (ts ! i) \<or> unlocked_wait (ts ! j)) \<and>
         publishes (ts ! i) = Some (n, nodes) \<and> publishes (ts ! j) = Some (n, nodes'))"
    if "map_race (wh_conc w) i j m" for i j m
    using map_races [OF r assms(2) that refl refl] assms(3) by blast
  fix i k m
  assume a: "i < length ts \<and> k < length (wh_streams w) \<and> m \<in> set (map_writes (wh_srv w) (ts ! i)) \<and>
       m \<in> set (stream_reads (wh_srv w) (wh_streams w ! k))"
  then show rm: "\<exists>x. ts ! i = RemoveC x" using stream_reads_pc by blast
  have "conc_ok (wh_conc w)" using reaches_ok [OF r conc_ok_init assms(2)] .
  then have "holds (ts ! i) = (co_lock (wh_conc w) = Some i)" using a assms(3) by (simp add: conc_ok_def)
  then show "co_lock (wh_conc w) = Some i" using rm by auto
  show "\<exists>b. sm_send (wh_streams w ! k) = SSend (Some b)"
    using a by (cases "sm_send (wh_streams w ! k)") (auto simp: stream_reads_def split: option.splits)
qed

text \<open>A health request and the goroutine of the start, about to store the clients of the same network.\<close>

lemma server_map_races_witness:
  "\<exists>w n nodes nodes'. wreaches sample_ext init_whole w \<and> map_race (wh_conc w) 1 3 (ApiClisMap n) \<and>
     publishes (co_threads (wh_conc w) ! 1) = Some (n, nodes) \<and> publishes (co_threads (wh_conc w) ! 3) = Some (n, nodes')"
proof -
  obtain i n s' nw nodes where st: "Start sample_ext sample_env sample_start init_server = (Ret (i, n), s')"
    "x_NewNetwork sample_ext (ln_cfg (net s' n)) = Inr nw" "x_GetAllNodes sample_ext nw = Inr nodes" "nodes \<noteq> []"
    using sample_Start_nodes by blast
  obtain co where co: "reaches sample_ext (proc init_server None []) co" "\<not> co_crashed co"
      "map_race co 1 3 (ApiClisMap n)"
    using start_and_health_race [OF st(1) sample_env_ok st(2-4), of "[]"] by auto
  let ?w = "\<lparr>wh_conc = co, wh_root = None, wh_streams = []\<rparr>"
  have r: "wreaches sample_ext init_whole ?w" using process_to_whole co(1) by (simp add: init_conc_def)
  have "ApiClisMap n \<in> set (map_writes (co_srv co) (co_threads co ! 1))" using co(3) by (simp add: map_race_def)
  then have "\<not> (\<exists>x. co_threads co ! 1 = RemoveC x)" by (auto simp: network_map_not_clis)
  then have "\<exists>nodes nodes'. publishes (co_threads co ! 1) = Some (n, nodes) \<and> publishes (co_threads co ! 3) = Some (n, nodes')"
    using conjunct1 [OF server_map_races [OF r _ refl], rule_format, of 1 3 "ApiClisMap n"] co(2,3) by auto
  then show ?thesis using r co(3) by (intro exI [of _ ?w]) auto
qed

text \<open>C32: A status stream races with a remove request: when the cluster publishes the map of its network and
  a node of it could be removed, a stream whose ticker has fired can come to marshal the map while
  \<open>RemoveNode\<close> is about to delete from it, and both can take their step; the Go runtime ends the process
  when it sees that.\<close>

theorem stream_races_RemoveNode:
  assumes "sv_clusterInfo s = Some i" and "sv_network s = Some n"
    and "ci_NodeInfos (info_at s i) = Some (ln_nodeInfos (net s n))"
    and "remove_locked E c x s = (Ret m, s')"
    and "k < length sts" and "sm_send (sts ! k) = SInfo" and "\<not> sm_crashed (sts ! k)"
    and "closed_now (sv_closed s) sts = sts"
  shows "\<exists>w. wreaches E \<lparr>wh_conc = proc s None ts, wh_root = r, wh_streams = sts\<rparr> w \<and>
    wh_srv w = s \<and> co_threads (wh_conc w) = ts @ [RemoveC x] \<and>
    NodeInfosMap (ln_nodeInfos (net s n)) \<in> set (stream_reads s (wh_streams w ! k)) \<and>
    NodeInfosMap (ln_nodeInfos (net s n)) \<in> set (map_writes s (RemoveC x)) \<and>
    (\<exists>st. event_at (SendOk s) (wh_conc w) \<and> stream_step (SendOk s) (wh_streams w ! k) = Some st) \<and>
    (\<exists>co. step_thread E (c, True) (length ts) (wh_conc w) = Some co)"
proof -
  let ?sts = "sts[k := (sts ! k)\<lparr>sm_send := SSend (Some i)\<rparr>]"
  let ?co = "proc s (Some (length ts)) (ts @ [RemoveC x])"
  have "wstep E \<lparr>wh_conc = proc s None ts, wh_root = r, wh_streams = sts\<rparr>
      \<lparr>wh_conc = proc s None ts, wh_root = r, wh_streams = ?sts\<rparr>"
    using asks_for_info [of "proc s None ts" i k sts E r] assms(1,5-7) by (simp add: getClusterInfo_def)
  moreover have "wreaches E \<lparr>wh_conc = proc s None ts, wh_root = r, wh_streams = ?sts\<rparr>
      \<lparr>wh_conc = ?co, wh_root = r, wh_streams = ?sts\<rparr>"
  proof -
    have closed: "closed_now (sv_closed s) ?sts = ?sts"
    proof -
      have "sm_closed (sts ! k) = sv_closed s"
        using arg_cong [OF assms(8), of "\<lambda>l. sm_closed (l ! k)"] assms(5) by (simp add: closed_now_def)
      then have "(sts ! k)\<lparr>sm_send := SSend (Some i), sm_closed := sv_closed s\<rparr> = (sts ! k)\<lparr>sm_send := SSend (Some i)\<rparr>"
        by (cases "sts ! k") simp
      then show ?thesis using assms(8) by (simp add: closed_now_def map_update)
    qed
    have "reaches E (proc s None ts) (proc s None (ts @ [RemoveB x]))"
      using proc_begin [of "RemoveA x" E "(timeout_env, True)" s "RemoveB x" "[]" s ts] assms(1)
      by (simp add: getClusterInfo_def)
    also have "cstep E (proc s None (ts @ [RemoveB x])) ?co" by (rule proc_last_lock) simp
    finally (reaches_step) have "reaches E (proc s None ts) ?co" .
    from process_wreaches [OF this, of ?sts r] show ?thesis using closed by simp
  qed
  ultimately have "wreaches E \<lparr>wh_conc = proc s None ts, wh_root = r, wh_streams = sts\<rparr>
      \<lparr>wh_conc = ?co, wh_root = r, wh_streams = ?sts\<rparr>"
    by (rule converse_rtranclp_into_rtranclp)
  moreover have "\<exists>co. step_thread E (c, True) (length ts) ?co = Some co"
    by (rule step_thread_runs) (simp_all add: nth_append assms(4))
  moreover have "\<exists>st. stream_step (SendOk s) (?sts ! k) = Some st"
    using assms(5,7) by (simp add: stream_step_def)
  ultimately show ?thesis
    using assms(2,3,5)
    by (intro exI [of _ "\<lparr>wh_conc = ?co, wh_root = r, wh_streams = ?sts\<rparr>"])
       (simp add: stream_reads_def info_map_def network_map_def)
qed

lemma stream_races_RemoveNode_witness:
  "\<exists>w. wreaches sample_ext \<lparr>wh_conc = proc sample_up None [], wh_root = None,
        wh_streams = [(new_stream 5)\<lparr>sm_send := SInfo\<rparr>]\<rparr> w \<and>
     NodeInfosMap (ln_nodeInfos (net sample_up 0)) \<in> set (stream_reads sample_up (wh_streams w ! 0))"
proof -
  obtain m s' where "remove_locked sample_ext sample_env ''node1'' sample_up = (Ret m, s')"
    using sample_remove by blast
  moreover have "closed_now (sv_closed sample_up) [(new_stream 5)\<lparr>sm_send := SInfo\<rparr>] = [(new_stream 5)\<lparr>sm_send := SInfo\<rparr>]"
    by (simp add: closed_now_def new_stream_def sample_up_def)
  ultimately show ?thesis
    using stream_races_RemoveNode [of sample_up 0 0 sample_ext sample_env "''node1''" m s' 0
        "[(new_stream 5)\<lparr>sm_send := SInfo\<rparr>]" "[]" None] sample_published
    by (fastforce simp: new_stream_def)
qed

end
