(* ===== verification/Conc_Nets.thy ===== *)
theory Conc_Nets
  imports Conc_Races
begin

text \<open>
  Properties of the networks in the store that every segment of the interleaved process keeps.  A
  segment changes the configurations of a network only at the end of \<open>RestartNode\<close>, and its stop
  channel only in \<open>stop\<close>; a property that survives these two survives every execution.
\<close>

section \<open>Configurations the threads carry\<close>

fun local_config :: "NodeConfig \<Rightarrow> bool" where
  "local_config cfg = (case nc_Impl cfg of ImplLocal _ \<Rightarrow> True | _ \<Rightarrow> False)"

fun pc_local :: "pc \<Rightarrow> bool" where
  "pc_local (RestartW idx cfg n w) = local_config cfg"
| "pc_local (RestartD idx cfg) = local_config cfg"
| "pc_local p = True"

lemma restart_config_local: "restart_config ni cfg = Ret cfg' \<Longrightarrow> local_config cfg'"
  by (auto simp: restart_config_def Let_def split: implConfig.splits)

lemma newNetwork_loop_local:
  "newNetwork_loop e r w l n i cfgs m = Some (cfgs', names, m') \<Longrightarrow> list_all local_config cfgs'"
  using newNetwork_loop_impl [of e r w l n i cfgs m cfgs' names m'] by (fastforce simp: list_all_iff)

section \<open>Properties of every network\<close>

definition all_nets :: "('nw localNetwork \<Rightarrow> bool) \<Rightarrow> 'nw server \<Rightarrow> bool" where
  "all_nets P s \<longleftrightarrow> (\<forall>l \<in> set (sv_nets s). P l)"

lemma all_nets_upd_net:
  assumes "all_nets P s" and "n < length (sv_nets s) \<Longrightarrow> P (net s n) \<Longrightarrow> P (f (net s n))"
  shows "all_nets P (upd_net n f s)"
proof (cases "n < length (sv_nets s)")
  case True
  then have "P (f (net s n))" using assms by (simp add: all_nets_def)
  then show ?thesis
    using assms(1) set_update_subset_insert [of "sv_nets s" n] by (fastforce simp: all_nets_def upd_net_def)
qed (use assms(1) in \<open>simp add: upd_net_def list_update_beyond\<close>)

lemma all_nets_simps [simp]:
  "all_nets P (upd_map m g s) = all_nets P s" "all_nets P (upd_info c h s) = all_nets P s"
  "all_nets P (s\<lparr>sv_network := x\<rparr>) = all_nets P s" "all_nets P (s\<lparr>sv_clusterInfo := y\<rparr>) = all_nets P s"
  "all_nets P (s\<lparr>sv_closed := b\<rparr>) = all_nets P s" "all_nets P (s\<lparr>sv_infos := is\<rparr>) = all_nets P s"
  "all_nets P (s\<lparr>sv_dirs := d\<rparr>) = all_nets P s"
  by (simp_all add: all_nets_def)

locale net_property =
  fixes P :: "'nw localNetwork \<Rightarrow> bool"
  assumes same: "ln_cfg l' = ln_cfg l \<Longrightarrow> ln_stopc l' = ln_stopc l \<Longrightarrow> ln_stopOnce l' = ln_stopOnce l \<Longrightarrow>
      P l \<Longrightarrow> P l'"
    and fresh: "list_all local_config (ln_cfg l) \<Longrightarrow> \<not> ln_stopc l \<Longrightarrow> \<not> ln_stopOnce l \<Longrightarrow> P l"
    and finish: "P l \<Longrightarrow> local_config cfg \<Longrightarrow> P (l\<lparr>ln_cfg := (ln_cfg l)[idx := cfg]\<rparr>)"
    and stopped: "P l \<Longrightarrow> ln_stopOnce l' \<Longrightarrow> ln_cfg l' = ln_cfg l \<Longrightarrow> P l'"
begin

abbreviation ok :: "'nw server \<Rightarrow> bool" where
  "ok \<equiv> all_nets P"

lemma upd_same [simp]:
  assumes "\<And>l. ln_cfg (f l) = ln_cfg l \<and> ln_stopc (f l) = ln_stopc l \<and> ln_stopOnce (f l) = ln_stopOnce l"
    and "ok s"
  shows "ok (upd_net n f s)"
  using assms(2) by (rule all_nets_upd_net) (use same assms(1) in blast)

lemma newNetwork_ok:
  assumes "newNetwork E execPath root ws lvl s = (r, s')" and "ok s"
  shows "ok s'"
proof (cases "\<exists>n. r = Ret n")
  case True
  then obtain n where "newNetwork E execPath root ws lvl s = (Ret n, s')" using assms(1) by blast
  then show ?thesis
    by (elim newNetwork_Ret)
       (use assms(2) in \<open>auto simp: all_nets_def dest!: newNetwork_loop_local intro!: fresh\<close>)
next
  case False
  then show ?thesis using newNetwork_other [OF assms(1)] assms(2) by blast
qed

lemma start_locked_ok: "start_locked E dir req s = (r, s') \<Longrightarrow> ok s \<Longrightarrow> ok s'"
  using newNetwork_ok
  by (fastforce simp: start_locked_def Let_def split: option.splits prod.splits outcome.splits)

lemma wfh_publish_ok:
  assumes "wfh_publish c n nodes s = (r, s')" and "ok s"
  shows "ok s'"
proof -
  have close: "ln_cfg l = ln_cfg k \<and> ln_stopc l = ln_stopc k \<and> ln_stopOnce l = ln_stopOnce k"
    if "close_ready k = Ret l" for k l :: "'nw localNetwork"
    using that by (auto simp: close_ready_def split: outcome.splits)
  have "ok (upd_net n (\<lambda>_. l) t)" if c: "close_ready (net t n) = Ret l" and t: "ok t"
    for l and t :: "'nw server"
    using t by (rule all_nets_upd_net) (use close [OF c] same in blast)
  then show ?thesis
    using assms by (auto simp: wfh_publish_def Let_def split: option.splits outcome.splits prod.splits)
qed

lemma wait_step_ok:
  assumes "wait_step E c n w s = (r, s')" and "ok s"
  shows "ok s'"
proof -
  have "ok s'" if "wfh_nodes E n s = (r, s')" for r :: "(string, Node) gomap outcome" and s'
    using that assms(2) by (auto simp: wfh_nodes_def split: option.splits sum.splits)
  then show ?thesis
    using assms wfh_publish_ok
    by (cases "(E, c, n, w, s)" rule: wait_step.cases) (auto split: and_then_split_asm if_splits)
qed

lemma locked_ok:
  "health_locked c s = (rh, s') \<Longrightarrow> ok s \<Longrightarrow> ok s'"
  "remove_locked E c x s = (rr, s') \<Longrightarrow> ok s \<Longrightarrow> ok s'"
  "stop_finish i s = (rf, s') \<Longrightarrow> ok s \<Longrightarrow> ok s'"
  "watch_ready s = (rw, s') \<Longrightarrow> ok s \<Longrightarrow> ok s'"
  by (auto simp: health_locked_def remove_locked_def refresh_names_def publish_nodes_def
                 stop_finish_def watch_ready_def Let_def
           split: option.splits prod.splits outcome.splits if_splits)

lemma stop_begin_ok:
  assumes "stop_begin E n s = (r, s')" and "ok s" and "r \<noteq> Panic"
  shows "ok s'"
proof -
  have "upd_net n f (upd_net n g s) = upd_net n (f \<circ> g) s" for f g and s :: "'nw server"
    by (cases "n < length (sv_nets s)") (simp_all add: upd_net_def list_update_beyond)
  moreover have "ok (upd_net n (\<lambda>l. l\<lparr>ln_stopc := b, ln_nw := nw, ln_stopOnce := True\<rparr>) s)" for b nw
    using assms(2) by (rule all_nets_upd_net) (rule stopped, simp_all)
  ultimately show ?thesis
    using assms by (auto simp: stop_begin_def Let_def comp_def split: option.splits outcome.splits if_splits)
qed

lemma restart_locked_ok:
  assumes "restart_locked E req s = (r, s')" and "ok s"
  shows "ok s'" and "r = Ret (n, idx, cfg) \<Longrightarrow> local_config cfg"
proof -
  have upd: "ok s'" if "restart_update req n s = (r, s')" "ok s" for n s s' and r :: "NodeInfo outcome"
    using that by (auto simp: restart_update_def Let_def split: option.splits)
  have swap: "ok s'" if "restart_swap E x n cfg s = (r, s')" "ok s" for x n cfg s s' and r :: "unit outcome"
    using that by (auto simp: restart_swap_def split: option.splits prod.splits)
  show "ok s'" and "r = Ret (n, idx, cfg) \<Longrightarrow> local_config cfg"
    using assms upd swap restart_config_local unfolding restart_locked_def
    by (fastforce split: and_then_split_asm)+
qed

lemma finish_keeps_nets:
  assumes "restart_finish idx cfg s = (r, s')" and "ok s" and "local_config cfg"
  shows "ok s'"
proof -
  have "ok (upd_net n (\<lambda>l. l\<lparr>ln_cfg := (ln_cfg l)[idx := cfg]\<rparr>) s)" for n
    using assms(2) by (rule all_nets_upd_net) (use finish assms(3) in blast)
  then show ?thesis
    using assms(1,2) by (auto simp: restart_finish_def Let_def split: option.splits)
qed

lemma run_pc_ok:
  assumes "run_pc E (c, pick) p s = (r, s')" and "ok s" and "pc_local p" and "acquires p = None"
    and "r \<noteq> Panic"
  shows "ok s' \<and> (\<forall>p' new. r = Ret (p', new) \<longrightarrow> pc_local p' \<and> list_all pc_local new)"
proof (cases p)
  case (StartA req)
  then show ?thesis
    using assms start_prepare_state(1) [of E c req s]
    by (fastforce simp: all_nets_def split: and_then_split_asm)
next
  case (StartC dir req)
  then show ?thesis using assms start_locked_ok by (fastforce split: and_then_split_asm)
next
  case (RestartC req)
  then show ?thesis using assms restart_locked_ok by (fastforce split: and_then_split_asm)
next
  case (RestartD idx cfg)
  then show ?thesis using assms finish_keeps_nets by (fastforce split: and_then_split_asm)
next
  case (StopC i)
  then show ?thesis
    using assms stop_begin_ok by (fastforce simp: stop_locked_def split: and_then_split_asm option.splits)
next
  case (StopW i n)
  then show ?thesis using assms locked_ok(3) by (fastforce split: and_then_split_asm if_splits)
next
  case (RunA n)
  then show ?thesis
    using assms by (auto simp: start_create_def start_done_def split: and_then_split_asm sum.splits)
next
  case (RunW n w)
  obtain r1 s1 where w: "wait_step E c n w s = (r1, s1)" by (cases "wait_step E c n w s")
  have "ok s1" using wait_step_ok [OF w assms(2)] .
  then show ?thesis
    using assms RunW w by (auto simp: start_done_def split: outcome.splits option.splits)
next
  case (HealthW n w)
  then show ?thesis using assms wait_step_ok by (fastforce split: and_then_split_asm option.splits)
next
  case (RemoveW n w)
  then show ?thesis using assms wait_step_ok by (fastforce split: and_then_split_asm option.splits)
next
  case (RestartW idx cfg n w)
  then show ?thesis using assms wait_step_ok by (fastforce split: and_then_split_asm option.splits)
qed (use assms locked_ok in \<open>fastforce split: and_then_split_asm option.splits if_splits\<close>)+

lemma step_thread_keeps:
  assumes "step_thread E c i co = Some co'" and "i < length (co_threads co)" and "\<not> co_crashed co'"
    and "ok (co_srv co)" and "list_all pc_local (co_threads co)"
  shows "ok (co_srv co') \<and> list_all pc_local (co_threads co')"
proof -
  let ?p = "co_threads co ! i"
  have p: "pc_local ?p" using assms(2,5) by (simp add: list_all_length)
  have upd: "list_all pc_local (ts[i := q])" if "list_all pc_local ts" "pc_local q" for ts q
    using that set_update_subset_insert [of ts i q] by (auto simp: list_all_iff)
  show ?thesis
  proof (cases "acquires ?p")
    case (Some p')
    then have "pc_local p'" by (cases ?p) auto
    then show ?thesis using assms Some upd by (auto simp: step_thread_def split: if_splits)
  next
    case None
    obtain r s' where run: "run_pc E c ?p (co_srv co) = (r, s')" by (cases "run_pc E c ?p (co_srv co)")
    have "r \<noteq> Panic"
      using assms(1,3) None run by (auto simp: step_thread_def Let_def split: if_splits)
    then have "ok s' \<and> (\<forall>p' new. r = Ret (p', new) \<longrightarrow> pc_local p' \<and> list_all pc_local new)"
      using run_pc_ok [OF _ assms(4) p None, of E "fst c" "snd c" r s'] run by simp
    moreover have "pc_local (failed e ?p)" for e by (cases ?p) simp_all
    ultimately show ?thesis
      using assms(1,5) None run upd \<open>r \<noteq> Panic\<close>
      by (cases r) (auto simp: step_thread_def Let_def split: if_splits)
  qed
qed

lemma reaches_keeps:
  "reaches E init_conc co \<Longrightarrow> \<not> co_crashed co \<Longrightarrow> ok (co_srv co) \<and> list_all pc_local (co_threads co)"
proof (induction rule: rtranclp_induct)
  case base
  then show ?case by (simp add: init_conc_def init_server_def all_nets_def)
next
  case (step co co')
  note IH = step.IH [OF cstep_crashed [OF step.hyps(2)]]
  from step.hyps(2) show ?case
  proof cases
    case (cstep_request p)
    then have "pc_local p" by (cases p) auto
    then show ?thesis using IH cstep_request by simp
  next
    case (cstep_thread i c)
    then show ?thesis using step_thread_keeps IH step.prems by blast
  qed (use IH in simp)
qed

end

section \<open>Two of them\<close>

text \<open>
  The field \<open>ImplSpecificConfig\<close> of a configuration is an interface; it always holds a
  \<open>local.NodeConfig\<close>.  The stop channel is closed only inside the \<open>stopOnce\<close>, which is then done.
\<close>

interpretation typed: net_property "\<lambda>l. list_all local_config (ln_cfg l)"
proof
  show "list_all local_config (ln_cfg (l\<lparr>ln_cfg := (ln_cfg l)[idx := cfg]\<rparr>))"
    if "list_all local_config (ln_cfg l)" "local_config cfg" for l :: "'a localNetwork" and cfg idx
    using that set_update_subset_insert [of "ln_cfg l" idx cfg] by (simp add: list_all_iff) blast
qed simp_all

interpretation stopping: net_property "\<lambda>l. ln_stopc l \<longrightarrow> ln_stopOnce l"
  by unfold_locales simp_all

end
