(* ===== verification/Conc_Types.thy ===== *)
theory Conc_Types
  imports Conc_Nets
begin

text \<open>
  \<open>RestartNode\<close> asserts that the field \<open>ImplSpecificConfig\<close> of a configuration holds a
  \<open>local.NodeConfig\<close>.  In every state the process can reach, it does.
\<close>

text \<open>C34: In every reachable state of the interleaved process every
  configuration of every network holds a \<open>local.NodeConfig\<close>.  So the type assertion of \<open>RestartNode\<close>
  never fails: it always gets a new configuration of that type, with the executable of the entry and
  the writers of the old one.\<close>

theorem restart_assertion_holds:
  assumes "reaches E init_conc co" and "\<not> co_crashed co" and "l \<in> set (sv_nets (co_srv co))" and "cfg \<in> set (ln_cfg l)"
  shows "\<exists>lcfg cfg'. nc_Impl cfg = ImplLocal lcfg \<and> restart_config ni cfg = Ret cfg' \<and>
    nc_Name cfg' = nc_Name cfg \<and>
    nc_Impl cfg' = ImplLocal (lcfg\<lparr>lnc_BinaryPath := ni_ExecPath ni\<rparr>)"
proof -
  have "local_config cfg"
    using typed.reaches_keeps [OF assms(1,2)] assms(3,4) by (auto simp: all_nets_def list_all_iff)
  then show ?thesis by (cases "nc_Impl cfg") (simp_all add: restart_config_def Let_def)
qed

lemma restart_assertion_holds_witness:
  "\<exists>co cfg cfg' lcfg. reaches sample_ext init_conc co \<and> cfg \<in> \<Union> ((set \<circ> ln_cfg) ` set (sv_nets (co_srv co))) \<and>
     restart_config (sample_entry ''node1'') cfg = Ret cfg' \<and>
     nc_Impl cfg' = ImplLocal (lcfg\<lparr>lnc_BinaryPath := ''/bin/avalanchego''\<rparr>)"
proof -
  obtain i n s' where st: "Start sample_ext sample_env sample_start init_server = (Ret (i, n), s')"
    and cfg: "ln_cfg (net s' n) \<noteq> []"
    using sample_Start_cfg by blast
  let ?co = "proc s' None [answered_with i s', RunA n, WatchN]"
  have r: "reaches sample_ext init_conc ?co"
    using Start_reaches [OF st sample_env_ok, of "[]"] by (simp add: init_conc_def)
  have l: "net s' n \<in> set (sv_nets (co_srv ?co))" using Start_Ret_valid [OF st] by simp
  have c: "hd (ln_cfg (net s' n)) \<in> set (ln_cfg (net s' n))" using cfg by simp
  obtain lcfg cfg' where "restart_config (sample_entry ''node1'') (hd (ln_cfg (net s' n))) = Ret cfg'"
      "nc_Impl cfg' = ImplLocal (lcfg\<lparr>lnc_BinaryPath := ni_ExecPath (sample_entry ''node1'')\<rparr>)"
    using restart_assertion_holds [OF r _ l c, of "sample_entry ''node1''"] by auto
  moreover have "ni_ExecPath (sample_entry ''node1'') = ''/bin/avalanchego''" by (simp add: sample_entry_def)
  ultimately show ?thesis using r l c
    by (intro exI [of _ ?co] exI [of _ "hd (ln_cfg (net s' n))"] exI [of _ cfg'] exI [of _ lcfg]) auto
qed

end
