(* ===== verification/Conc_Panics.thy ===== *)
theory Conc_Panics
  imports Conc_Nets Restart_Props
begin

text \<open>
  Which steps of the interleaved process panic, and why: a complete list.  In particular no channel
  is ever closed twice, no type assertion fails, and \<open>URIs\<close>, \<open>Status\<close> and the end of \<open>RestartNode\<close>
  never panic.
\<close>

section \<open>The causes\<close>

text \<open>In a wait: the network is not there yet, or it reports a node that has no entry.\<close>

fun wait_panics :: "nat \<Rightarrow> wait \<Rightarrow> 'nw server \<Rightarrow> bool" where
  "wait_panics n WEnter s = (ln_nw (net s n) = None)"
| "wait_panics n WSelect s = False"
| "wait_panics n WNodes s = (ln_nw (net s n) = None)"
| "wait_panics n (WPublish nodes) s = (\<not> keys nodes \<subseteq> keys (net_map s n))"

text \<open>
  A start with more nodes than colours; a request or watcher that finds the network forgotten; one
  that finds it not created; a restart request without its optional fields; and the waits.
\<close>

fun panics :: "'nw ext \<Rightarrow> pc \<Rightarrow> 'nw server \<Rightarrow> bool" where
  "panics E (StartC dir req) s =
     (sv_network s = None \<and> x_DefaultConfig E = None \<and> x_MakeLogger E dir = None \<and>
      length colors < length (x_NewDefaultConfig E (sr_ExecPath req)))"
| "panics E HealthN s = (sv_network s = None)"
| "panics E (HealthW n w) s = wait_panics n w s"
| "panics E HealthC s = (sv_network s = None)"
| "panics E (RemoveC x) s =
     (case sv_network s of None \<Rightarrow> True | Some n \<Rightarrow> x \<in> keys (net_map s n) \<and> ln_nw (net s n) = None)"
| "panics E (RemoveW n w) s = wait_panics n w s"
| "panics E (RestartC req) s =
     (case sv_network s of
        None \<Rightarrow> True
      | Some n \<Rightarrow>
          rr_Name req \<in> keys (net_map s n) \<and> rr_Name req \<in> nc_Name ` set (ln_cfg (net s n)) \<and>
          (case rr_StartRequest req of
             None \<Rightarrow> True
           | Some sr \<Rightarrow> sr_WhitelistedSubnets sr = None \<or> ln_nw (net s n) = None))"
| "panics E (RestartW idx cfg n w) s = wait_panics n w s"
| "panics E (StopC i) s =
     (case sv_network s of None \<Rightarrow> True | Some n \<Rightarrow> \<not> ln_stopOnce (net s n) \<and> ln_nw (net s n) = None)"
| "panics E (RunW n w) s = wait_panics n w s"
| "panics E WatchN s = (sv_network s = None)"
| "panics E (WatchM n) s = (sv_network s = None)"
| "panics E WatchC s = (sv_network s = None)"
| "panics E _ s = False"

section \<open>A restart in progress keeps its network\<close>

fun restarting :: "pc \<Rightarrow> bool" where
  "restarting (RestartW _ _ _ _) = True"
| "restarting (RestartD _ _) = True"
| "restarting _ = False"

lemma restarting_holds: "restarting p \<Longrightarrow> holds p"
  by (cases p) simp_all

lemma wait_step_network: "wait_step E c n w s = (r, s') \<Longrightarrow> sv_network s' = sv_network s"
  by (cases "(E, c, n, w, s)" rule: wait_step.cases)
     (auto simp: wfh_nodes_def wfh_publish_def Let_def
           split: and_then_split_asm if_splits option.splits sum.splits outcome.splits prod.splits)

lemma run_pc_network:
  assumes "run_pc E (c, pick) p s = (r, s')" and "acquires p = None" and "\<not> holds p \<or> restarting p"
    and "\<And>idx cfg. p \<noteq> RestartD idx cfg"
  shows "sv_network s' = sv_network s"
proof (cases p)
  case (StartA req)
  then show ?thesis
    using assms(1) start_prepare_state(1) [of E c req s] by (fastforce split: and_then_split_asm)
next
  case (RunA n)
  then show ?thesis
    using assms(1) by (auto simp: start_create_def split: and_then_split_asm sum.splits)
next
  case (RunW n w)
  obtain r1 s1 where w: "wait_step E c n w s = (r1, s1)" by (cases "wait_step E c n w s")
  then show ?thesis
    using assms(1) RunW wait_step_network [OF w] by (auto split: outcome.splits option.splits)
qed (use assms wait_step_network in \<open>fastforce split: and_then_split_asm option.splits if_splits\<close>)+

lemma restart_locked_network:
  assumes "restart_locked E req s = (Ret x, s')"
  shows "sv_network s' \<noteq> None"
proof -
  obtain n idx cfg where x: "x = (n, idx, cfg)" by (cases x)
  have upd: "sv_network s' = sv_network s" if "restart_update req n s = (r, s')" for n s s' and r :: "NodeInfo outcome"
    using that by (auto simp: restart_update_def Let_def split: option.splits)
  have swap: "sv_network s' = sv_network s" if "restart_swap E x n cfg s = (r, s')" for x n cfg s s' and r :: "unit outcome"
    using that by (auto simp: restart_swap_def split: option.splits prod.splits)
  show ?thesis
    using assms upd swap restart_locked_store(2) [OF assms [unfolded x] refl] unfolding restart_locked_def
    by (fastforce split: and_then_split_asm)
qed

definition restarts_ok :: "'nw conc \<Rightarrow> bool" where
  "restarts_ok co \<longleftrightarrow> (\<forall>p \<in> set (co_threads co). restarting p \<longrightarrow> sv_network (co_srv co) \<noteq> None)"

lemma run_pc_restarting:
  assumes "run_pc E (c, pick) p s = (Ret (p', new), s')" and "acquires p = None"
    and "restarting p \<longrightarrow> sv_network s \<noteq> None"
  shows "(restarting p' \<longrightarrow> sv_network s' \<noteq> None) \<and> (\<forall>q \<in> set new. \<not> restarting q)"
proof (cases p)
  case (RestartC req)
  then show ?thesis using assms restart_locked_network by (fastforce split: and_then_split_asm)
next
  case (RestartW idx cfg n w)
  then show ?thesis
    using assms wait_step_network by (fastforce split: and_then_split_asm option.splits)
qed (use assms in \<open>auto split: and_then_split_asm option.splits if_splits outcome.splits prod.splits\<close>)

lemma step_thread_restarts:
  assumes "step_thread E c i co = Some co'" and "i < length (co_threads co)" and "conc_ok co"
    and "\<not> co_crashed co'" and "restarts_ok co"
  shows "restarts_ok co'"
proof -
  let ?p = "co_threads co ! i" and ?ts = "co_threads co"
  obtain c1 pick where c: "c = (c1, pick)" by (cases c)
  have in_upd: "q = p' \<or> q \<in> set new \<or> (\<exists>j < length ?ts. j \<noteq> i \<and> q = ?ts ! j)"
    if q: "q \<in> set (?ts[i := p'] @ new)" for q p' new
  proof (cases "q \<in> set new")
    case False
    then obtain j where "j < length ?ts" "q = (?ts[i := p']) ! j" using q by (auto simp: in_set_conv_nth)
    then show ?thesis by (cases "j = i") auto
  qed simp
  have p: "restarting ?p \<longrightarrow> sv_network (co_srv co) \<noteq> None"
    using assms(5) nth_mem [OF assms(2)] unfolding restarts_ok_def by blast
  show ?thesis
  proof (cases "acquires ?p")
    case (Some p')
    then have "\<not> restarting p'" by (cases ?p) auto
    then show ?thesis
      using assms(1,5) Some in_upd [of _ p' "[]"]
      by (fastforce simp: restarts_ok_def step_thread_def split: if_splits)
  next
    case None
    obtain r s' where run: "run_pc E (c1, pick) ?p (co_srv co) = (r, s')"
      by (cases "run_pc E (c1, pick) ?p (co_srv co)")
    have other: "sv_network s' \<noteq> None" if "j < length ?ts" "j \<noteq> i" "restarting (?ts ! j)" for j
    proof -
      have "\<not> holds ?p"
        using that assms(2,3) restarting_holds [OF that(3)] by (auto simp: conc_ok_def)
      then have "sv_network s' = sv_network (co_srv co)"
        by (intro run_pc_network [OF run None]) auto
      then show ?thesis using assms(5) that by (auto simp: restarts_ok_def)
    qed
    show ?thesis
    proof (cases r)
      case (Ret x)
      obtain p' new where x: "x = (p', new)" by (cases x)
      have co': "co_srv co' = s'" "co_threads co' = ?ts[i := p'] @ new"
        using assms(1) None run c Ret x by (auto simp: step_thread_def Let_def split: if_splits)
      show ?thesis
        unfolding restarts_ok_def co'
        using run_pc_restarting [OF run [unfolded Ret x] None p] other in_upd [of _ p' new] by blast
    next
      case (Fail e)
      have co': "co_srv co' = s'" "co_threads co' = ?ts[i := failed e ?p] @ []"
        using assms(1) None run c Fail by (auto simp: step_thread_def Let_def split: if_splits)
      show ?thesis
        unfolding restarts_ok_def co'
      proof (intro ballI impI)
        fix q assume q: "q \<in> set (?ts[i := failed e ?p] @ [])" "restarting q"
        have "\<not> restarting (failed e ?p)" using restarting_holds failed_pc(2) by blast
        then show "sv_network s' \<noteq> None" using in_upd [OF q(1)] q(2) other by auto
      qed
    qed (use assms(1,4) None run c in \<open>auto simp: step_thread_def Let_def split: if_splits\<close>)
  qed
qed

lemma reaches_restarts: "reaches E init_conc co \<Longrightarrow> \<not> co_crashed co \<Longrightarrow> restarts_ok co"
proof (induction rule: rtranclp_induct)
  case base
  then show ?case by (simp add: init_conc_def restarts_ok_def)
next
  case (step co co')
  have nc: "\<not> co_crashed co" using step.hyps(2) by (rule cstep_crashed)
  note IH = step.IH [OF nc]
  have ok: "conc_ok co" using reaches_ok [OF step.hyps(1) conc_ok_init nc] .
  from step.hyps(2) show ?case
  proof cases
    case (cstep_request p)
    then have "\<not> restarting p" by (cases p) auto
    then show ?thesis using IH cstep_request by (auto simp: restarts_ok_def)
  next
    case cstep_close
    then show ?thesis using IH by (simp add: restarts_ok_def)
  next
    case (cstep_thread i c)
    then show ?thesis using step_thread_restarts [OF _ _ ok _ IH] step.prems by blast
  qed
qed

section \<open>Every segment panics exactly for its cause\<close>

lemma wait_step_panics:
  assumes "valid_net n s" and "env_ok c"
  shows "(\<exists>s'. wait_step E c n w s = (Panic, s')) \<longleftrightarrow> wait_panics n w s"
proof (cases w)
  case WEnter
  then show ?thesis by (auto simp: wfh_enter_def split: option.splits)
next
  case WSelect
  have "wfh_select ev \<noteq> Panic" for ev by (cases ev rule: wfh_select.cases) simp_all
  then show ?thesis using WSelect by (auto split: and_then_split_asm)
next
  case WNodes
  then show ?thesis by (auto simp: wfh_nodes_def split: option.splits sum.splits)
next
  case (WPublish nodes)
  have keys: "keys (ce_nodes c nodes) = keys nodes" using assms(2) by (simp add: env_ok_def)
  show ?thesis
  proof (cases "keys nodes \<subseteq> keys (net_map s n)")
    case True
    then have "wfh_loop (ce_nodes c nodes) (net_map s n, ln_apiClis (net s n)) \<noteq> None"
      unfolding wfh_loop_None_iff keys by blast
    then obtain infos clis where l: "wfh_loop (ce_nodes c nodes) (net_map s n, ln_apiClis (net s n)) = Some (infos, clis)"
      by (metis option.exhaust surj_pair)
    let ?s2 = "upd_net n (\<lambda>l. l\<lparr>ln_apiClis := clis\<rparr>) (upd_map (ln_nodeInfos (net s n)) (\<lambda>_. infos) s)"
    have "net ?s2 n = (net s n)\<lparr>ln_apiClis := clis\<rparr>" using assms(1) by (simp add: valid_net_def)
    then have "once_ok (ln_ready (net ?s2 n))" using assms(1) by (simp add: valid_net_def)
    then have "close_ready (net ?s2 n) = Ret ((net ?s2 n)\<lparr>ln_ready := \<lparr>oc_closed = True, oc_done = True\<rparr>\<rparr>)"
      by (rule close_ready_ok)
    then show ?thesis using True WPublish l by (simp add: wfh_publish_def Let_def)
  next
    case False
    then have "wfh_loop (ce_nodes c nodes) (net_map s n, ln_apiClis (net s n)) = None"
      unfolding wfh_loop_None_iff keys by blast
    then show ?thesis using False WPublish by (simp add: wfh_publish_def)
  qed
qed

text \<open>A panic of the first of two calls, or of the second.\<close>

lemma and_then_Panic:
  "(\<exists>s'. and_then p k = (Panic, s')) \<longleftrightarrow>
   (\<exists>s'. p = (Panic, s')) \<or> (\<exists>x s. p = (Ret x, s) \<and> (\<exists>s'. k x s = (Panic, s')))"
  by (cases "(p, k)" rule: and_then.cases) auto

lemma start_locked_panics:
  "(\<exists>s'. start_locked E dir req s = (Panic, s')) \<longleftrightarrow> panics E (StartC dir req) s"
proof -
  let ?args = "newNetwork E (sr_ExecPath req) dir (StartRequest_GetWhitelistedSubnets (Some req))
     (StartRequest_GetLogLevel (Some req)) s"
  have "x_DefaultConfig E \<noteq> None \<or> x_MakeLogger E dir \<noteq> None \<Longrightarrow> fst ?args \<noteq> Panic"
    by (auto simp: newNetwork_def split: option.splits)
  then have "fst ?args = Panic \<longleftrightarrow> x_DefaultConfig E = None \<and> x_MakeLogger E dir = None \<and>
      length colors < length (x_NewDefaultConfig E (sr_ExecPath req))"
    using newNetwork_Panic_iff [of E dir] by blast
  moreover have "(\<exists>s'. start_locked E dir req s = (Panic, s')) \<longleftrightarrow> sv_network s = None \<and> fst ?args = Panic"
    by (cases ?args) (auto simp: start_locked_def Let_def split: option.splits outcome.splits)
  ultimately show ?thesis by simp
qed

lemma health_locked_panics:
  "store_ok s \<Longrightarrow> (\<exists>s'. health_locked c s = (Panic, s')) \<longleftrightarrow> sv_network s = None"
  using store_okD(4) [of s]
  by (auto simp: health_locked_def refresh_names_def Let_def split: option.splits)

lemma watch_ready_panics:
  "store_ok s \<Longrightarrow> (\<exists>s'. watch_ready s = (Panic, s')) \<longleftrightarrow> sv_network s = None"
  using store_okD(4) [of s] by (auto simp: watch_ready_def split: option.splits)

lemma remove_locked_panics:
  assumes "store_ok s"
  shows "(\<exists>s'. remove_locked E c x s = (Panic, s')) \<longleftrightarrow> panics E (RemoveC x) s"
proof (cases "sv_network s")
  case (Some n)
  then obtain i where "sv_clusterInfo s = Some i" using store_okD(4) [OF assms] by auto
  moreover have "x \<in> keys (net_map s n)" if "map_of (net_map s n) x = Some ni" for ni
    using that by (rule map_of_in_keys)
  ultimately show ?thesis
    using Some
    by (auto simp: remove_locked_def refresh_names_def Let_def map_of_eq_None_iff
             split: option.splits prod.splits)
qed (simp add: remove_locked_def)

lemma stop_locked_panics:
  assumes "store_ok s" and "all_nets (\<lambda>l. ln_stopc l \<longrightarrow> ln_stopOnce l) s"
  shows "(\<exists>s'. stop_locked E s = (Panic, s')) \<longleftrightarrow> panics E (StopC i) s"
proof (cases "sv_network s")
  case (Some n)
  then have n: "n < length (sv_nets s)" using store_okD(1) [OF assms(1)] by simp
  then have "ln_stopc (net s n) \<longrightarrow> ln_stopOnce (net s n)" using assms(2) by (simp add: all_nets_def)
  then show ?thesis
    using Some n
    by (auto simp: stop_locked_def stop_begin_def Let_def split: option.splits and_then_split_asm if_splits)
qed (simp add: stop_locked_def)

lemma restart_locked_panics:
  assumes "store_ok s" and "all_nets (\<lambda>l. list_all local_config (ln_cfg l)) s"
  shows "(\<exists>s'. restart_locked E req s = (Panic, s')) \<longleftrightarrow> panics E (RestartC req) s"
proof (cases "sv_network s")
  case (Some n)
  then have valid: "valid_net n s" using store_okD(2) [OF assms(1)] by simp
  let ?x = "rr_Name req"
  show ?thesis
  proof (cases "?x \<in> keys (net_map s n) \<and> ?x \<in> nc_Name ` set (ln_cfg (net s n))")
    case False
    then have "map_of (net_map s n) ?x = None \<or> find_config ?x 0 (ln_cfg (net s n)) = None"
      by (auto simp: find_config_None_iff map_of_eq_None_iff)
    then have "\<exists>e. restart_find ?x s = Fail e"
      using Some by (auto simp: restart_find_def split: option.splits)
    then show ?thesis using False Some by (auto simp: restart_locked_def)
  next
    case True
    then obtain ni where ni: "map_of (net_map s n) ?x = Some ni" using map_of_keys_Some by fastforce
    obtain idx old where f: "find_config ?x 0 (ln_cfg (net s n)) = Some (idx, old)"
      using True by (cases "find_config ?x 0 (ln_cfg (net s n))") (auto simp: find_config_None_iff)
    have "old \<in> set (ln_cfg (net s n))" using find_config_Some [OF f] by (metis add_0 diff_zero nth_mem)
    then have "local_config old"
      using assms(2) valid by (auto simp: all_nets_def valid_net_def list_all_iff)
    then have conf: "\<exists>cfg. restart_config nodeInfo old = Ret cfg" for nodeInfo
      by (auto simp: restart_config_def Let_def split: implConfig.splits)
    have find: "restart_find ?x s = Ret (n, idx, old)"
      using Some ni f by (simp add: restart_find_def)
    show ?thesis
    proof (cases "\<exists>sr ws. rr_StartRequest req = Some sr \<and> sr_WhitelistedSubnets sr = Some ws")
      case False
      then have "\<exists>s'. restart_update req n s = (Panic, s')"
        by (auto simp: restart_update_def Let_def split: option.splits)
      then show ?thesis using find False True Some by (auto simp: restart_locked_def split: option.splits)
    next
      case full: True
      then obtain sr ws where sr: "rr_StartRequest req = Some sr" "sr_WhitelistedSubnets sr = Some ws" by blast
      obtain ni' s2 where u: "restart_update req n s = (Ret ni', s2)" "sv_nets s2 = sv_nets s"
        using restart_update_eq [OF valid ni sr] by blast
      obtain cfg where c: "restart_config ni' old = Ret cfg" using conf by blast
      have "(\<exists>s'. restart_locked E req s = (Panic, s')) \<longleftrightarrow>
          (\<exists>s'. restart_swap E ?x n cfg s2 = (Panic, s'))"
        using find u(1) c by (simp add: restart_locked_def and_then_Panic)
      also have "\<dots> \<longleftrightarrow> ln_nw (net s n) = None"
        using u(2) by (auto simp: restart_swap_def split: option.splits prod.splits)
      finally show ?thesis using True Some sr by simp
    qed
  qed
qed (simp add: restart_locked_def restart_find_def)

lemma start_prepare_not_Panic: "start_prepare E c req s \<noteq> (Panic, s')"
  by (auto simp: start_prepare_def Let_def split: option.splits sum.splits)

lemma run_pc_panics:
  assumes "store_ok s" and "pc_ok (length (sv_nets s)) p" and "env_ok c" and "acquires p = None"
    and "all_nets (\<lambda>l. list_all local_config (ln_cfg l)) s"
    and "all_nets (\<lambda>l. ln_stopc l \<longrightarrow> ln_stopOnce l) s"
    and "restarting p \<longrightarrow> sv_network s \<noteq> None"
  shows "(\<exists>s'. run_pc E (c, pick) p s = (Panic, s')) \<longleftrightarrow> panics E p s"
proof -
  have wait: "(\<exists>s'. wait_step E c n w s = (Panic, s')) \<longleftrightarrow> wait_panics n w s" if "n < length (sv_nets s)" for n w
  proof -
    have "valid_net n s" using assms(1) that by (simp add: store_ok_def)
    then show ?thesis using assms(3) by (rule wait_step_panics)
  qed
  show ?thesis
  proof (cases p)
    case (StartA req)
    then show ?thesis by (simp add: and_then_Panic start_prepare_not_Panic)
  next
    case (StartC dir req)
    then show ?thesis using start_locked_panics [of E dir req s] by (simp add: and_then_Panic case_prod_unfold)
  next
    case (HealthW n w)
    then show ?thesis using wait [of n w] assms(2) by (simp add: and_then_Panic)
  next
    case HealthC
    then show ?thesis using health_locked_panics [OF assms(1)] by (simp add: and_then_Panic)
  next
    case StatusA
    then show ?thesis by (simp add: and_then_Panic Status_def split: option.splits)
  next
    case (URIsB i)
    then show ?thesis by (auto simp: and_then_Panic URIs_collect_def Let_def split: option.splits)
  next
    case (RemoveC x)
    then show ?thesis using remove_locked_panics [OF assms(1)] by (simp add: and_then_Panic)
  next
    case (RemoveW n w)
    then show ?thesis using wait [of n w] assms(2) by (simp add: and_then_Panic)
  next
    case (RestartC req)
    then show ?thesis
      using restart_locked_panics [OF assms(1,5)] by (simp add: and_then_Panic case_prod_unfold)
  next
    case (RestartW idx cfg n w)
    then show ?thesis using wait [of n w] assms(2) by (simp add: and_then_Panic)
  next
    case (RestartD idx cfg)
    then obtain n where n: "sv_network s = Some n" using assms(7) by auto
    then obtain i where "sv_clusterInfo s = Some i" using store_okD(4) [OF assms(1)] by auto
    then show ?thesis using RestartD n by (simp add: and_then_Panic restart_finish_def Let_def)
  next
    case (StopC i)
    then show ?thesis using stop_locked_panics [OF assms(1,6)] by (simp add: and_then_Panic)
  next
    case (StopW i n)
    then show ?thesis by (simp add: stop_finish_def)
  next
    case (RunA n)
    then show ?thesis by (auto simp: and_then_Panic start_create_def split: sum.splits)
  next
    case (RunW n w)
    obtain r1 s1 where w: "wait_step E c n w s = (r1, s1)" by (cases "wait_step E c n w s")
    then have "(\<exists>s'. run_pc E (c, pick) p s = (Panic, s')) \<longleftrightarrow> r1 = Panic"
      using RunW by (cases r1) (auto split: option.splits)
    then show ?thesis using wait [of n w] assms(2) RunW w by simp
  next
    case WatchC
    then show ?thesis using watch_ready_panics [OF assms(1)] by (simp add: and_then_Panic)
  qed (use assms(4) in \<open>auto split: option.splits\<close>)
qed

section \<open>Steps that end the process\<close>

text \<open>C8: In every reachable state a thread that takes its next step panics in exactly these cases: a
  start with more default nodes than colours; a health, remove, restart or stop request or a watcher
  that finds the network forgotten by a stop since its check; one that finds the network not created
  yet, or never, unless the name of the node is refused first; a restart request without its optional
  fields; and a wait whose network reports a node without an entry.  No other step panics: channels
  are closed once, type assertions hold, and a restart in progress keeps its network.  (The runtime
  may in addition end the process when two threads use a map at once; that is not a panic of a step.)\<close>

theorem process_panics_iff:
  assumes "reaches E init_conc co" and "\<not> co_crashed co" and "env_ok (fst c)"
    and "i < length (co_threads co)" and "p = co_threads co ! i"
    and "step_thread E c i co = Some co'"
  shows "co_crashed co' \<longleftrightarrow> panics E p (co_srv co)"
proof (cases "acquires p")
  case (Some p')
  then have "\<not> co_crashed co'"
    using assms(2,5,6) by (auto simp: step_thread_def split: if_splits)
  moreover have "\<not> panics E p (co_srv co)" using Some by (cases p) auto
  ultimately show ?thesis by simp
next
  case None
  have ok: "conc_ok co" using reaches_ok [OF assms(1) conc_ok_init assms(2)] .
  have "(\<exists>s'. run_pc E (fst c, snd c) p (co_srv co) = (Panic, s')) \<longleftrightarrow> panics E p (co_srv co)"
  proof (rule run_pc_panics [OF _ _ assms(3) None])
    show "store_ok (co_srv co)" "pc_ok (length (sv_nets (co_srv co))) p"
      using ok assms(4,5) by (simp_all add: conc_ok_def)
    show "all_nets (\<lambda>l. list_all local_config (ln_cfg l)) (co_srv co)"
      using typed.reaches_keeps [OF assms(1,2)] by simp
    show "all_nets (\<lambda>l. ln_stopc l \<longrightarrow> ln_stopOnce l) (co_srv co)"
      using stopping.reaches_keeps [OF assms(1,2)] by simp
    show "restarting p \<longrightarrow> sv_network (co_srv co) \<noteq> None"
      using reaches_restarts [OF assms(1,2)] nth_mem [OF assms(4)] assms(5) unfolding restarts_ok_def by blast
  qed
  moreover have "co_crashed co' \<longleftrightarrow> (\<exists>s'. run_pc E (fst c, snd c) p (co_srv co) = (Panic, s'))"
    using assms(2,5,6) None
    by (cases "run_pc E c p (co_srv co)") (auto simp: step_thread_def Let_def split: if_splits outcome.splits)
  ultimately show ?thesis by simp
qed

text \<open>A health request right after a start, before the network is created: both sides hold.\<close>

lemma process_panics_iff_witness:
  "\<exists>co co' n. reaches sample_ext init_conc co \<and> co_threads co ! 3 = HealthW n WEnter \<and>
     step_thread sample_ext (timeout_env, True) 3 co = Some co' \<and>
     panics sample_ext (HealthW n WEnter) (co_srv co) \<and> co_crashed co'"
proof -
  obtain i n s' where st: "Start sample_ext sample_env sample_start init_server = (Ret (i, n), s')"
    using sample_Start by blast
  let ?co = "proc s' None [answered_with i s', RunA n, WatchN, HealthW n WEnter]"
  note early = early_health [OF st sample_env_ok, of "[]", simplified]
  have r: "reaches sample_ext init_conc ?co" using early by (simp add: init_conc_def)
  obtain co' where co': "step_thread sample_ext (timeout_env, True) 3 ?co = Some co'"
    using early by (metis numeral_3_eq_3)
  have "panics sample_ext (HealthW n WEnter) s'" using early by simp
  moreover have "co_crashed co' \<longleftrightarrow> panics sample_ext (HealthW n WEnter) s'"
    using process_panics_iff [OF r _ _ _ refl co'] by simp
  ultimately show ?thesis using r co' by (intro exI [of _ ?co] exI [of _ co'] exI [of _ n]) simp
qed

end
