(* ===== verification/Lifecycle.thy ===== *)
theory Lifecycle
  imports Machines
begin

text \<open>
  The life of the server process, \<open>New\<close> and \<open>Run\<close> of \<open>src/server/server.go\<close>: the goroutine that
  serves gRPC, the goroutine that dials it, registers the gateway and serves HTTP, and the \<open>select\<close>
  that reacts to whatever ends first, shuts the other one down and waits for it.  The channels
  \<open>gRPCErrc\<close> and \<open>gwErrc\<close> are not buffered: a send and its receive are one step of both sides, after
  which the sending goroutine still has to return, and \<open>Run\<close> may return before it does.
\<close>

section \<open>\<open>New\<close>\<close>

record Config =
  cf_Port :: string
  cf_GwPort :: string
  cf_DialTimeout :: int

datatype serve_pc = GServe | GSend "go_error option" | GSent | GEnd
datatype gateway_pc = WDial | WRegPing | WRegControl | WServe | WSend "go_error option" | WSent | WEnd
datatype runner_pc =
    RSelect
  | RRootClose | RRootWaitGw | RRootStop | RRootWaitGrpc
  | RGrpcClose | RGrpcWaitGw
  | RGwStop | RGwWaitGrpc
  | RClose | RReturn

record run =
  ru_cfg :: Config
  ru_root :: bool
  ru_stopped :: bool
  ru_gwClosed :: bool
  ru_conn :: bool
  ru_grpc :: serve_pc
  ru_gw :: gateway_pc
  ru_main :: runner_pc
  ru_err :: "go_error option"
  ru_closed :: once_chan

text \<open>\<open>listen\<close> is the result of \<open>net.Listen\<close> on the port.\<close>

definition New :: "(string \<Rightarrow> go_error option) \<Rightarrow> Config \<Rightarrow> run outcome" where
  "New listen cfg =
     (if cf_Port cfg = [] \<or> cf_GwPort cfg = [] then Fail ErrInvalidPort
      else
        (case listen (cf_Port cfg) of
           Some e \<Rightarrow> Fail e
         | None \<Rightarrow>
             Ret \<lparr>ru_cfg = cfg, ru_root = False, ru_stopped = False, ru_gwClosed = False,
                  ru_conn = False, ru_grpc = GServe, ru_gw = WDial, ru_main = RSelect,
                  ru_err = None, ru_closed = new_once_chan\<rparr>))"

section \<open>The three goroutines of \<open>Run\<close>\<close>

text \<open>
  The events: the root context ends; a call of a library returns, with its error; a step of \<open>Run\<close>
  itself; a goroutine returns.  Two events are faults: \<open>Serve\<close> and \<open>ListenAndServe\<close> return on their
  own, with the error that made them fail.  Without a fault \<open>Serve\<close> returns only after \<open>Stop\<close> (without
  an error, or with one when it had not begun to serve), and \<open>ListenAndServe\<close> only after \<open>Close\<close> of
  the HTTP server, before or after its call.  The dial is bounded by its timeout.
\<close>

datatype run_event =
    RootDone
  | GrpcFault go_error | GrpcServe "go_error option" | GrpcReturn
  | GwDial "go_error option" | GwRegPing "go_error option" | GwRegControl "go_error option"
  | GwFault go_error | GwServe go_error | GwReturn
  | SelRoot | SelGrpc | SelGw
  | CloseGw | StopGrpc | RecvGw | RecvGrpc | CloseOnce

fun is_fault :: "run_event \<Rightarrow> bool" where
  "is_fault (GrpcFault _) = True"
| "is_fault (GwFault _) = True"
| "is_fault _ = False"

text \<open>
  The gateway goroutine reports the first error and returns; the deferred \<open>gwConn.Close\<close> runs when
  it returns, some time after its report was received.
\<close>

fun gateway_event :: "run_event \<Rightarrow> run \<Rightarrow> run option" where
  "gateway_event (GwDial e) st =
     (if ru_gw st = WDial
      then Some (case e of Some err \<Rightarrow> st\<lparr>ru_gw := WSend (Some err)\<rparr>
                 | None \<Rightarrow> st\<lparr>ru_gw := WRegPing, ru_conn := True\<rparr>)
      else None)"
| "gateway_event (GwRegPing e) st =
     (if ru_gw st = WRegPing
      then Some (st\<lparr>ru_gw := (case e of Some err \<Rightarrow> WSend (Some err) | None \<Rightarrow> WRegControl)\<rparr>) else None)"
| "gateway_event (GwRegControl e) st =
     (if ru_gw st = WRegControl
      then Some (st\<lparr>ru_gw := (case e of Some err \<Rightarrow> WSend (Some err) | None \<Rightarrow> WServe)\<rparr>) else None)"
| "gateway_event (GwServe err) st =
     (if ru_gw st = WServe \<and> ru_gwClosed st then Some (st\<lparr>ru_gw := WSend (Some err)\<rparr>) else None)"
| "gateway_event (GwFault err) st =
     (if ru_gw st = WServe then Some (st\<lparr>ru_gw := WSend (Some err)\<rparr>) else None)"
| "gateway_event GwReturn st =
     (if ru_gw st = WSent then Some (st\<lparr>ru_gw := WEnd, ru_conn := False\<rparr>) else None)"
| "gateway_event _ st = None"

fun grpc_event :: "run_event \<Rightarrow> run \<Rightarrow> run option" where
  "grpc_event (GrpcServe e) st =
     (if ru_grpc st = GServe \<and> ru_stopped st then Some (st\<lparr>ru_grpc := GSend e\<rparr>) else None)"
| "grpc_event (GrpcFault err) st =
     (if ru_grpc st = GServe then Some (st\<lparr>ru_grpc := GSend (Some err)\<rparr>) else None)"
| "grpc_event GrpcReturn st = (if ru_grpc st = GSent then Some (st\<lparr>ru_grpc := GEnd\<rparr>) else None)"
| "grpc_event _ st = None"

text \<open>The receive of a report lets its goroutine go on, to its return.\<close>

definition take_gw :: "run \<Rightarrow> run" where
  "take_gw st = st\<lparr>ru_gw := WSent\<rparr>"

definition take_grpc :: "run \<Rightarrow> run" where
  "take_grpc st = st\<lparr>ru_grpc := GSent\<rparr>"

definition server_close :: "run \<Rightarrow> run outcome" where
  "server_close st =
     (case once_close (ru_closed st) of
        Ret c \<Rightarrow> Ret (st\<lparr>ru_closed := c\<rparr>) | Fail e \<Rightarrow> Fail e | Panic \<Rightarrow> Panic | Block \<Rightarrow> Block)"

fun main_run_event :: "run_event \<Rightarrow> run \<Rightarrow> run option" where
  "main_run_event SelRoot st =
     (if ru_main st = RSelect \<and> ru_root st then Some (st\<lparr>ru_main := RRootClose\<rparr>) else None)"
| "main_run_event SelGrpc st =
     (case (ru_main st, ru_grpc st) of
        (RSelect, GSend e) \<Rightarrow> Some ((take_grpc st)\<lparr>ru_main := RGrpcClose, ru_err := e\<rparr>)
      | _ \<Rightarrow> None)"
| "main_run_event SelGw st =
     (case (ru_main st, ru_gw st) of
        (RSelect, WSend e) \<Rightarrow> Some ((take_gw st)\<lparr>ru_main := RGwStop, ru_err := e\<rparr>)
      | _ \<Rightarrow> None)"
| "main_run_event CloseGw st =
     (case ru_main st of
        RRootClose \<Rightarrow> Some (st\<lparr>ru_main := RRootWaitGw, ru_gwClosed := True\<rparr>)
      | RGrpcClose \<Rightarrow> Some (st\<lparr>ru_main := RGrpcWaitGw, ru_gwClosed := True\<rparr>)
      | _ \<Rightarrow> None)"
| "main_run_event RecvGw st =
     (case (ru_main st, ru_gw st) of
        (RRootWaitGw, WSend _) \<Rightarrow> Some ((take_gw st)\<lparr>ru_main := RRootStop\<rparr>)
      | (RGrpcWaitGw, WSend _) \<Rightarrow> Some ((take_gw st)\<lparr>ru_main := RClose\<rparr>)
      | _ \<Rightarrow> None)"
| "main_run_event StopGrpc st =
     (case ru_main st of
        RRootStop \<Rightarrow> Some (st\<lparr>ru_main := RRootWaitGrpc, ru_stopped := True\<rparr>)
      | RGwStop \<Rightarrow> Some (st\<lparr>ru_main := RGwWaitGrpc, ru_stopped := True\<rparr>)
      | _ \<Rightarrow> None)"
| "main_run_event RecvGrpc st =
     (case (ru_main st, ru_grpc st) of
        (RRootWaitGrpc, GSend _) \<Rightarrow> Some ((take_grpc st)\<lparr>ru_main := RClose\<rparr>)
      | (RGwWaitGrpc, GSend _) \<Rightarrow> Some ((take_grpc st)\<lparr>ru_main := RClose\<rparr>)
      | _ \<Rightarrow> None)"
| "main_run_event CloseOnce st =
     (if ru_main st = RClose
      then (case server_close st of Ret st' \<Rightarrow> Some (st'\<lparr>ru_main := RReturn\<rparr>) | _ \<Rightarrow> None)
      else None)"
| "main_run_event _ st = None"

definition run_step :: "run_event \<Rightarrow> run \<Rightarrow> run option" where
  "run_step ev st =
     (if ev = RootDone then (if ru_root st then None else Some (st\<lparr>ru_root := True\<rparr>))
      else
        (case gateway_event ev st of Some st' \<Rightarrow> Some st' | None \<Rightarrow>
         (case grpc_event ev st of Some st' \<Rightarrow> Some st' | None \<Rightarrow> main_run_event ev st)))"

abbreviation run_all :: "run_event list \<Rightarrow> run \<Rightarrow> run option" where
  "run_all \<equiv> run_events run_step"

text \<open>The \<open>closed\<close> channel of the server is closed at most once.\<close>

lemma server_close_ok:
  "once_ok (ru_closed st) \<Longrightarrow>
   server_close st = Ret (st\<lparr>ru_closed := \<lparr>oc_closed = True, oc_done = True\<rparr>\<rparr>)"
  by (simp add: server_close_def once_close_ok)

interpretation server_closed: closable server_close "\<lambda>st. oc_closed (ru_closed st)" "\<lambda>st. once_ok (ru_closed st)"
proof unfold_locales
  fix st :: run
  assume ok: "once_ok (ru_closed st)"
  show "\<exists>st'. server_close st = Ret st' \<and> oc_closed (ru_closed st') \<and> once_ok (ru_closed st')"
    using ok by (simp add: server_close_ok once_ok_def)
  assume "oc_closed (ru_closed st)"
  with ok show "server_close st = Ret st"
    by (simp add: server_close_def once_close_def once_ok_def)
qed

section \<open>What holds during a run\<close>

text \<open>Which goroutines have reported, which shutdown calls were made and what is returned, by the phase of \<open>Run\<close>.\<close>

fun grpc_reported :: "serve_pc \<Rightarrow> bool" where
  "grpc_reported GSent = True"
| "grpc_reported GEnd = True"
| "grpc_reported _ = False"

fun gw_reported :: "gateway_pc \<Rightarrow> bool" where
  "gw_reported WSent = True"
| "gw_reported WEnd = True"
| "gw_reported _ = False"

definition phase_ok :: "run \<Rightarrow> bool" where
  "phase_ok st =
     (let gp = grpc_reported (ru_grpc st); gw = gw_reported (ru_gw st) in
      case ru_main st of
        RSelect \<Rightarrow> \<not> gp \<and> \<not> gw \<and> ru_err st = None \<and> \<not> ru_stopped st
      | RRootClose \<Rightarrow> \<not> gp \<and> \<not> gw \<and> ru_err st = None \<and> ru_root st \<and> \<not> ru_stopped st
      | RRootWaitGw \<Rightarrow> \<not> gp \<and> \<not> gw \<and> ru_err st = None \<and> ru_root st \<and> \<not> ru_stopped st \<and> ru_gwClosed st
      | RRootStop \<Rightarrow> \<not> gp \<and> gw \<and> ru_err st = None \<and> ru_root st
      | RRootWaitGrpc \<Rightarrow> \<not> gp \<and> gw \<and> ru_err st = None \<and> ru_root st \<and> ru_stopped st
      | RGrpcClose \<Rightarrow> gp \<and> \<not> gw \<and> ru_err st \<noteq> None
      | RGrpcWaitGw \<Rightarrow> gp \<and> \<not> gw \<and> ru_err st \<noteq> None \<and> ru_gwClosed st
      | RGwStop \<Rightarrow> \<not> gp \<and> gw \<and> ru_err st \<noteq> None
      | RGwWaitGrpc \<Rightarrow> \<not> gp \<and> gw \<and> ru_err st \<noteq> None \<and> ru_stopped st
      | RClose \<Rightarrow> gp \<and> gw \<and> (ru_err st \<noteq> None \<or> ru_root st)
      | RReturn \<Rightarrow> gp \<and> gw \<and> (ru_err st \<noteq> None \<or> ru_root st))"

definition sides_ok :: "run \<Rightarrow> bool" where
  "sides_ok st \<longleftrightarrow>
     (ru_gw st \<in> {WDial, WEnd} \<longrightarrow> \<not> ru_conn st) \<and> ru_gw st \<noteq> WSend None \<and>
     (ru_grpc st = GSend None \<longrightarrow> ru_stopped st)"

definition closed_ok :: "run \<Rightarrow> bool" where
  "closed_ok st \<longleftrightarrow> once_ok (ru_closed st) \<and> (oc_closed (ru_closed st) \<longleftrightarrow> ru_main st = RReturn)"

definition run_inv :: "run \<Rightarrow> bool" where
  "run_inv st \<longleftrightarrow> phase_ok st \<and> sides_ok st \<and> closed_ok st"

lemmas run_defs = run_inv_def phase_ok_def sides_ok_def closed_ok_def take_gw_def take_grpc_def Let_def

lemma phase_ok_sides:
  "phase_ok st \<Longrightarrow> gw_reported g = gw_reported (ru_gw st) \<Longrightarrow> phase_ok (st\<lparr>ru_gw := g, ru_conn := c\<rparr>)"
  "phase_ok st \<Longrightarrow> grpc_reported p = grpc_reported (ru_grpc st) \<Longrightarrow> phase_ok (st\<lparr>ru_grpc := p\<rparr>)"
  by (cases "ru_main st"; simp add: phase_ok_def Let_def)+

lemma gateway_inv:
  assumes "gateway_event ev st = Some st'" and "run_inv st"
  shows "run_inv st'"
proof -
  define g c where "g = ru_gw st'" and "c = ru_conn st'"
  have g: "st' = st\<lparr>ru_gw := g, ru_conn := c\<rparr>" "gw_reported g = gw_reported (ru_gw st)"
      "g \<noteq> WDial" "g \<noteq> WSend None" "g = WEnd \<longrightarrow> \<not> c"
    unfolding g_def c_def using assms(1)
    by (cases ev; cases st; auto split: if_splits option.splits)+
  have "sides_ok st'"
    using assms(2) g(3-5) by (auto simp: g(1) run_inv_def sides_ok_def)
  then show ?thesis
    using assms(2) g phase_ok_sides(1) by (simp add: run_inv_def closed_ok_def)
qed

lemma grpc_inv:
  assumes "grpc_event ev st = Some st'" and "run_inv st"
  shows "run_inv st'"
proof -
  obtain p where p: "st' = st\<lparr>ru_grpc := p\<rparr>" "grpc_reported p = grpc_reported (ru_grpc st)"
      "p = GSend None \<longrightarrow> ru_stopped st"
    using assms(1) by (cases ev) (auto split: if_splits)
  have "sides_ok st'" using assms(2) p(3) by (auto simp: p(1) run_inv_def sides_ok_def)
  then show ?thesis
    using assms(2) p phase_ok_sides(2) by (simp add: run_inv_def closed_ok_def)
qed

lemma select_inv:
  assumes "main_run_event ev st = Some st'" and "run_inv st" and "ev \<in> {SelRoot, SelGrpc, SelGw}"
  shows "run_inv st'"
proof (cases "ru_main st")
  case RSelect
  then show ?thesis
    using assms by (auto simp: run_defs split: if_splits serve_pc.splits gateway_pc.splits)
qed (use assms in auto)

lemma sides_ok_main [simp]:
  "sides_ok (st\<lparr>ru_main := p\<rparr>) = sides_ok st"
  "sides_ok (st\<lparr>ru_gwClosed := b\<rparr>) = sides_ok st"
  "sides_ok st \<Longrightarrow> sides_ok (st\<lparr>ru_stopped := True\<rparr>)"
  "sides_ok st \<Longrightarrow> sides_ok (take_gw st)"
  "sides_ok st \<Longrightarrow> sides_ok (take_grpc st)"
  by (simp_all add: sides_ok_def take_gw_def take_grpc_def)

lemma closed_ok_main [simp]:
  "closed_ok st \<Longrightarrow> p \<noteq> RReturn \<Longrightarrow> ru_main st \<noteq> RReturn \<Longrightarrow> closed_ok (st\<lparr>ru_main := p\<rparr>)"
  "closed_ok (st\<lparr>ru_gwClosed := b\<rparr>) = closed_ok st"
  "closed_ok (st\<lparr>ru_stopped := b\<rparr>) = closed_ok st"
  "closed_ok (take_gw st) = closed_ok st"
  "closed_ok (take_grpc st) = closed_ok st"
  by (simp_all add: closed_ok_def take_gw_def take_grpc_def)

lemma shutdown_inv:
  assumes "main_run_event ev st = Some st'" and "run_inv st" and "ev \<in> {CloseGw, StopGrpc}"
  shows "run_inv st'"
proof -
  from assms(3) consider "ev = CloseGw" | "ev = StopGrpc" by blast
  then show ?thesis
  proof cases
    case 1
    then obtain p where p: "st' = st\<lparr>ru_main := p, ru_gwClosed := True\<rparr>" "p \<noteq> RReturn" "ru_main st \<noteq> RReturn"
        "ru_main st = RRootClose \<and> p = RRootWaitGw \<or> ru_main st = RGrpcClose \<and> p = RGrpcWaitGw"
      using assms(1) by (cases "ru_main st") simp_all
    then have "phase_ok st'" using assms(2) by (elim disjE) (simp_all add: run_inv_def phase_ok_def Let_def)
    then show ?thesis using p assms(2) by (simp add: run_inv_def)
  next
    case 2
    then obtain p where p: "st' = st\<lparr>ru_main := p, ru_stopped := True\<rparr>" "p \<noteq> RReturn" "ru_main st \<noteq> RReturn"
        "ru_main st = RRootStop \<and> p = RRootWaitGrpc \<or> ru_main st = RGwStop \<and> p = RGwWaitGrpc"
      using assms(1) by (cases "ru_main st") simp_all
    then have "phase_ok st'" using assms(2) by (elim disjE) (simp_all add: run_inv_def phase_ok_def Let_def)
    then show ?thesis using p assms(2) by (simp add: run_inv_def)
  qed
qed

lemma receive_inv:
  assumes "main_run_event ev st = Some st'" and "run_inv st" and "ev \<in> {RecvGw, RecvGrpc}"
  shows "run_inv st'"
proof -
  from assms(3) consider "ev = RecvGw" | "ev = RecvGrpc" by blast
  then show ?thesis
  proof cases
    case 1
    then obtain p where p: "st' = (take_gw st)\<lparr>ru_main := p\<rparr>" "p \<noteq> RReturn" "ru_main st \<noteq> RReturn"
        "ru_main st = RRootWaitGw \<and> p = RRootStop \<or> ru_main st = RGrpcWaitGw \<and> p = RClose"
      using assms(1) by (cases "ru_main st"; cases "ru_gw st") simp_all
    then have "phase_ok st'"
      using assms(2) by (elim disjE) (simp_all add: run_inv_def phase_ok_def Let_def take_gw_def)
    then show ?thesis using p assms(2) by (simp add: run_inv_def take_gw_def closed_ok_def sides_ok_def)
  next
    case 2
    then obtain p where p: "st' = (take_grpc st)\<lparr>ru_main := p\<rparr>" "p \<noteq> RReturn" "ru_main st \<noteq> RReturn"
        "ru_main st = RRootWaitGrpc \<and> p = RClose \<or> ru_main st = RGwWaitGrpc \<and> p = RClose"
      using assms(1) by (cases "ru_main st"; cases "ru_grpc st") simp_all
    then have "phase_ok st'"
      using assms(2) by (elim disjE) (simp_all add: run_inv_def phase_ok_def Let_def take_grpc_def)
    then show ?thesis using p assms(2) by (simp add: run_inv_def take_grpc_def closed_ok_def sides_ok_def)
  qed
qed

lemma close_once_inv:
  assumes "main_run_event CloseOnce st = Some st'" and "run_inv st"
  shows "run_inv st'"
proof -
  have "server_close st = Ret (st\<lparr>ru_closed := \<lparr>oc_closed = True, oc_done = True\<rparr>\<rparr>)"
    using assms(2) by (intro server_close_ok) (simp add: run_inv_def closed_ok_def)
  then show ?thesis
    using assms by (auto simp: run_defs once_ok_def split: if_splits)
qed

lemma main_inv:
  assumes "main_run_event ev st = Some st'" and "run_inv st"
  shows "run_inv st'"
proof -
  have "ev \<in> {SelRoot, SelGrpc, SelGw} \<or> ev \<in> {CloseGw, StopGrpc} \<or> ev \<in> {RecvGw, RecvGrpc} \<or> ev = CloseOnce"
    using assms(1) by (cases ev) simp_all
  then show ?thesis
    using select_inv [OF assms] shutdown_inv [OF assms] receive_inv [OF assms] close_once_inv assms by blast
qed

lemma run_step_inv:
  assumes "run_step ev st = Some st'" and "run_inv st"
  shows "run_inv st'"
proof (cases "ev = RootDone")
  case True
  then have "st' = st\<lparr>ru_root := True\<rparr>" using assms(1) by (simp add: run_step_def split: if_splits)
  moreover have "phase_ok (st\<lparr>ru_root := True\<rparr>)"
    using assms(2) by (cases "ru_main st") (simp_all add: run_inv_def phase_ok_def Let_def)
  moreover have "sides_ok (st\<lparr>ru_root := True\<rparr>)"
    using assms(2) by (simp add: run_inv_def sides_ok_def)
  ultimately show ?thesis using assms(2) by (simp add: run_inv_def closed_ok_def)
next
  case False
  then consider "gateway_event ev st = Some st'" | "grpc_event ev st = Some st'" | "main_run_event ev st = Some st'"
    using assms(1) by (auto simp: run_step_def split: option.splits)
  then show ?thesis by cases (use assms(2) gateway_inv grpc_inv main_inv in blast)+
qed

lemma New_inv:
  assumes "New listen cfg = Ret st"
  shows "run_inv st" and "ru_main st = RSelect" and "ru_root st = False" and "ru_grpc st = GServe"
    and "ru_gw st = WDial"
  using assms by (auto simp: New_def run_defs new_once_chan_def once_ok_def split: if_splits option.splits)

end
