(* ===== verification/Lifecycle_Props.thy ===== *)
theory Lifecycle_Props
  imports Lifecycle
begin

text \<open>
  Properties of \<open>Run\<close>: it takes a bounded number of steps; without a fault it can only come to rest
  while both servers serve or when it has returned and both goroutines have ended; and what holds
  when it returns.
\<close>

section \<open>Every step advances a phase\<close>

definition serve_rank :: "serve_pc \<Rightarrow> nat" where
  "serve_rank p = (case p of GServe \<Rightarrow> 3 | GSend _ \<Rightarrow> 2 | GSent \<Rightarrow> 1 | GEnd \<Rightarrow> 0)"

definition gateway_rank :: "gateway_pc \<Rightarrow> nat" where
  "gateway_rank p =
     (case p of WDial \<Rightarrow> 6 | WRegPing \<Rightarrow> 5 | WRegControl \<Rightarrow> 4 | WServe \<Rightarrow> 3 | WSend _ \<Rightarrow> 2
      | WSent \<Rightarrow> 1 | WEnd \<Rightarrow> 0)"

definition main_rank :: "runner_pc \<Rightarrow> nat" where
  "main_rank p =
     (case p of RSelect \<Rightarrow> 6 | RRootClose \<Rightarrow> 5 | RRootWaitGw \<Rightarrow> 4 | RRootStop \<Rightarrow> 3 | RRootWaitGrpc \<Rightarrow> 2
      | RGrpcClose \<Rightarrow> 3 | RGrpcWaitGw \<Rightarrow> 2 | RGwStop \<Rightarrow> 3 | RGwWaitGrpc \<Rightarrow> 2 | RClose \<Rightarrow> 1 | RReturn \<Rightarrow> 0)"

definition run_rank :: "run \<Rightarrow> nat" where
  "run_rank st = serve_rank (ru_grpc st) + gateway_rank (ru_gw st) + main_rank (ru_main st) +
     (if ru_root st then 0 else 1)"

lemmas rank_defs = run_rank_def serve_rank_def gateway_rank_def main_rank_def

lemma gateway_rank_less: "gateway_event ev st = Some st' \<Longrightarrow> run_rank st' < run_rank st"
  by (cases ev) (auto simp: rank_defs split: if_splits option.splits)

lemma grpc_rank_less: "grpc_event ev st = Some st' \<Longrightarrow> run_rank st' < run_rank st"
  by (cases ev) (auto simp: rank_defs split: if_splits)

lemma main_rank_less:
  assumes "main_run_event ev st = Some st'"
  shows "run_rank st' < run_rank st"
proof (cases ev)
  case SelGrpc
  then show ?thesis
    using assms by (cases "ru_main st"; cases "ru_grpc st") (auto simp: rank_defs take_grpc_def)
next
  case SelGw
  then show ?thesis
    using assms by (cases "ru_main st"; cases "ru_gw st") (auto simp: rank_defs take_gw_def)
next
  case RecvGw
  then show ?thesis
    using assms by (cases "ru_main st"; cases "ru_gw st") (auto simp: rank_defs take_gw_def)
next
  case RecvGrpc
  then show ?thesis
    using assms by (cases "ru_main st"; cases "ru_grpc st") (auto simp: rank_defs take_grpc_def)
next
  case CloseOnce
  then show ?thesis
    using assms
    by (auto simp: rank_defs server_close_def split: if_splits outcome.splits)
next
  case CloseGw
  then show ?thesis using assms by (cases "ru_main st") (auto simp: rank_defs)
next
  case StopGrpc
  then show ?thesis using assms by (cases "ru_main st") (auto simp: rank_defs)
qed (use assms in \<open>auto simp: rank_defs split: if_splits\<close>)

lemma run_step_rank: "run_step ev st = Some st' \<Longrightarrow> run_rank st' < run_rank st"
  using gateway_rank_less [of ev st st'] grpc_rank_less [of ev st st'] main_rank_less [of ev st st']
  by (auto simp: run_step_def run_rank_def split: if_splits option.splits)

interpretation server_run: ranked_machine run_step run_inv run_rank
  by unfold_locales (use run_step_inv run_step_rank in blast)+

text \<open>
  The two situations in which nothing happens without a fault or the end of the root context: both
  servers serve, or everything has ended.
\<close>

definition run_serving :: "run \<Rightarrow> bool" where
  "run_serving st \<longleftrightarrow> ru_main st = RSelect \<and> ru_grpc st = GServe \<and> ru_gw st = WServe \<and> \<not> ru_root st"

definition run_over :: "run \<Rightarrow> bool" where
  "run_over st \<longleftrightarrow> ru_main st = RReturn \<and> ru_grpc st = GEnd \<and> ru_gw st = WEnd"

lemma run_step_None:
  assumes "run_step ev st = None" and "ev \<noteq> RootDone"
  shows "gateway_event ev st = None" and "grpc_event ev st = None" and "main_run_event ev st = None"
  using assms by (simp_all add: run_step_def split: option.splits)

text \<open>Where a goroutine can be when nothing but faults can happen.\<close>

lemma gateway_stuck:
  assumes "\<forall>ev. \<not> is_fault ev \<and> ev \<noteq> RootDone \<longrightarrow> run_step ev st = None"
  shows "ru_gw st = WServe \<and> \<not> ru_gwClosed st \<or> (\<exists>e. ru_gw st = WSend e) \<or> ru_gw st = WEnd"
proof -
  have "gateway_event ev st = None" if "\<not> is_fault ev" "ev \<noteq> RootDone" for ev
    using run_step_None(1) assms that by blast
  from this [of "GwDial None"] this [of "GwRegPing None"] this [of "GwRegControl None"]
    this [of "GwServe ErrClosed"] this [of GwReturn]
  show ?thesis by (cases "ru_gw st") (simp_all split: if_splits)
qed

lemma grpc_stuck:
  assumes "\<forall>ev. \<not> is_fault ev \<and> ev \<noteq> RootDone \<longrightarrow> run_step ev st = None"
  shows "ru_grpc st = GServe \<and> \<not> ru_stopped st \<or> (\<exists>e. ru_grpc st = GSend e) \<or> ru_grpc st = GEnd"
proof -
  have "grpc_event ev st = None" if "\<not> is_fault ev" "ev \<noteq> RootDone" for ev
    using run_step_None(2) assms that by blast
  from this [of "GrpcServe None"] this [of GrpcReturn]
  show ?thesis by (cases "ru_grpc st") (simp_all split: if_splits)
qed

text \<open>The event of the function itself, when what it waits for is there.\<close>

fun next_main :: "runner_pc \<Rightarrow> run_event" where
  "next_main RSelect = SelRoot"
| "next_main RRootClose = CloseGw"
| "next_main RGrpcClose = CloseGw"
| "next_main RRootStop = StopGrpc"
| "next_main RGwStop = StopGrpc"
| "next_main RRootWaitGw = RecvGw"
| "next_main RGrpcWaitGw = RecvGw"
| "next_main RRootWaitGrpc = RecvGrpc"
| "next_main RGwWaitGrpc = RecvGrpc"
| "next_main RClose = CloseOnce"
| "next_main RReturn = CloseOnce"

lemma next_main_ok: "\<not> is_fault (next_main p) \<and> next_main p \<noteq> RootDone"
  by (cases p) simp_all

lemma next_main_step:
  assumes "once_ok (ru_closed st)" and "ru_main st \<noteq> RReturn"
    and "ru_main st = RSelect \<Longrightarrow> ru_root st"
    and "ru_main st \<in> {RRootWaitGw, RGrpcWaitGw} \<Longrightarrow> \<exists>e. ru_gw st = WSend e"
    and "ru_main st \<in> {RRootWaitGrpc, RGwWaitGrpc} \<Longrightarrow> \<exists>e. ru_grpc st = GSend e"
  shows "main_run_event (next_main (ru_main st)) st \<noteq> None"
  using assms by (cases "ru_main st") (auto simp: server_close_ok)

lemma run_not_stuck:
  assumes inv: "run_inv st" and stuck: "\<forall>ev. \<not> is_fault ev \<and> ev \<noteq> RootDone \<longrightarrow> run_step ev st = None"
  shows "run_serving st \<or> run_over st"
proof -
  have main: "main_run_event ev st = None" if "\<not> is_fault ev" "ev \<noteq> RootDone" for ev
    using run_step_None(3) stuck that by blast
  have next_None: "main_run_event (next_main (ru_main st)) st = None"
    using main next_main_ok by blast
  have phase: "phase_ok st" and once: "once_ok (ru_closed st)"
    using inv by (simp_all add: run_inv_def closed_ok_def)
  note gw = gateway_stuck [OF stuck] and grpc = grpc_stuck [OF stuck]
  consider "ru_main st = RSelect" | "ru_main st = RReturn" | "ru_main st \<noteq> RSelect" "ru_main st \<noteq> RReturn" by blast
  then show ?thesis
  proof cases
    case 1
    have "ru_grpc st = GServe"
      using grpc phase main [of SelGrpc] 1 by (elim disjE exE) (simp_all add: phase_ok_def)
    moreover have "ru_gw st = WServe"
      using gw phase main [of SelGw] 1 by (elim disjE exE) (simp_all add: phase_ok_def)
    ultimately show ?thesis using next_None 1 by (simp add: run_serving_def split: if_splits)
  next
    case 2
    then have "grpc_reported (ru_grpc st)" "gw_reported (ru_gw st)" using phase by (simp_all add: phase_ok_def Let_def)
    then have "ru_grpc st = GEnd" "ru_gw st = WEnd" using gw grpc by auto
    then show ?thesis using 2 by (simp add: run_over_def)
  next
    case 3
    have "\<exists>e. ru_gw st = WSend e" if "ru_main st \<in> {RRootWaitGw, RGrpcWaitGw}"
      using that gw phase by (auto simp: phase_ok_def)
    moreover have "\<exists>e. ru_grpc st = GSend e" if "ru_main st \<in> {RRootWaitGrpc, RGwWaitGrpc}"
      using that grpc phase by (auto simp: phase_ok_def)
    ultimately show ?thesis using next_main_step [OF once 3(2)] 3(1) next_None by simp
  qed
qed

section \<open>Properties\<close>

text \<open>C10: \<open>Run\<close> and its two goroutines take at most sixteen steps, counting each return of a library
  call.  An execution that cannot be continued without a fault of one of the two servers, nor
  without the end of the root context, either has both servers serving, or \<open>Run\<close> has returned, both
  goroutines have ended and the connection of the gateway is closed: in particular, once the root
  context has ended or one side has failed, the shutdown gets to its end by itself.  When \<open>Run\<close> has
  returned, both goroutines have reported, the channel \<open>closed\<close> is closed, and the result is no error
  only if the root context has ended.\<close>

theorem Run_returns_clean:
  assumes "New listen cfg = Ret st0" and "run_all evs st0 = Some st"
  shows "length evs \<le> 16 \<and>
    ((\<forall>ev. \<not> is_fault ev \<and> ev \<noteq> RootDone \<longrightarrow> run_step ev st = None) \<longrightarrow>
       ru_main st = RSelect \<and> ru_grpc st = GServe \<and> ru_gw st = WServe \<and> \<not> ru_root st \<or>
       ru_main st = RReturn \<and> ru_grpc st = GEnd \<and> ru_gw st = WEnd \<and> \<not> ru_conn st) \<and>
    (ru_main st = RReturn \<longrightarrow>
       ru_grpc st \<in> {GSent, GEnd} \<and> ru_gw st \<in> {WSent, WEnd} \<and> oc_closed (ru_closed st) \<and>
       (ru_err st = None \<longrightarrow> ru_root st))"
proof -
  note new = New_inv [OF assms(1)]
  have inv: "run_inv st" using server_run.events_keep [OF assms(2) new(1)] .
  have "run_rank st0 = 16" using new(2-5) by (simp add: rank_defs)
  then have "length evs \<le> 16" using server_run.run_ends [OF assms(2) new(1)] by simp
  moreover have "ru_main st = RSelect \<and> ru_grpc st = GServe \<and> ru_gw st = WServe \<and> \<not> ru_root st \<or>
       ru_main st = RReturn \<and> ru_grpc st = GEnd \<and> ru_gw st = WEnd \<and> \<not> ru_conn st"
    if "\<forall>ev. \<not> is_fault ev \<and> ev \<noteq> RootDone \<longrightarrow> run_step ev st = None"
    using run_not_stuck [OF inv that] inv by (auto simp: run_serving_def run_over_def run_inv_def sides_ok_def)
  moreover have "ru_grpc st \<in> {GSent, GEnd} \<and> ru_gw st \<in> {WSent, WEnd} \<and> oc_closed (ru_closed st) \<and>
       (ru_err st = None \<longrightarrow> ru_root st)" if "ru_main st = RReturn"
    using inv that
    by (cases "ru_grpc st"; cases "ru_gw st") (auto simp: run_inv_def phase_ok_def closed_ok_def)
  ultimately show ?thesis by blast
qed

definition sample_cfg :: Config where
  "sample_cfg = \<lparr>cf_Port = '':8080'', cf_GwPort = '':8081'', cf_DialTimeout = 10\<rparr>"

text \<open>The events of a run whose root context ends; \<open>Run\<close> returns before its goroutines do.\<close>

definition shutdown_events :: "run_event list" where
  "shutdown_events =
     [SelRoot, CloseGw, GwServe ErrClosed, RecvGw, StopGrpc, GrpcServe None, RecvGrpc, CloseOnce, GwReturn, GrpcReturn]"

lemma no_step_when_over:
  "run_over st \<Longrightarrow> \<not> is_fault ev \<Longrightarrow> ev \<noteq> RootDone \<Longrightarrow> run_step ev st = None"
  by (cases ev) (simp_all add: run_over_def run_step_def)

lemma Run_returns_clean_witness:
  "\<exists>st0 st. New (\<lambda>_. None) sample_cfg = Ret st0 \<and>
     run_all ([GwDial None, GwRegPing None, GwRegControl None, RootDone] @ shutdown_events) st0 = Some st \<and>
     ru_main st = RReturn \<and> ru_err st = None \<and> \<not> ru_conn st \<and> oc_closed (ru_closed st)"
proof -
  obtain st0 where st0: "New (\<lambda>_. None) sample_cfg = Ret st0" by (simp add: New_def sample_cfg_def)
  then obtain st where st: "run_all ([GwDial None, GwRegPing None, GwRegControl None, RootDone] @ shutdown_events) st0
      = Some st" "ru_main st = RReturn" "ru_err st = None" "run_over st"
    by (auto simp: New_def sample_cfg_def run_step_def take_gw_def take_grpc_def server_close_def
                   once_close_def new_once_chan_def shutdown_events_def run_over_def)
  have "\<forall>ev. \<not> is_fault ev \<and> ev \<noteq> RootDone \<longrightarrow> run_step ev st = None"
    using no_step_when_over [OF st(4)] by blast
  then have "\<not> ru_conn st \<and> oc_closed (ru_closed st)"
    using Run_returns_clean [OF st0 st(1)] st(2) by auto
  then show ?thesis using st0 st by blast
qed

text \<open>\<open>New\<close> refuses a configuration without a port or without a gateway port, before it listens;
  otherwise it fails exactly when listening fails, with that error.\<close>

theorem New_errors:
  "New listen cfg = Fail e \<longleftrightarrow>
     (if cf_Port cfg = [] \<or> cf_GwPort cfg = [] then e = ErrInvalidPort
      else listen (cf_Port cfg) = Some e)"
  by (auto simp: New_def split: option.splits)

lemma New_errors_witness:
  "New (\<lambda>_. None) \<lparr>cf_Port = '':8080'', cf_GwPort = [], cf_DialTimeout = 10\<rparr> = Fail ErrInvalidPort"
  by (simp add: New_errors)

end
