(* ===== verification/Grpc.thy ===== *)
theory Grpc
  imports Status_Stream
begin

text \<open>
  The generated gRPC code, \<open>src/rpcpb/rpc_grpc.pb.go\<close>: the client stubs, the interfaces of the two
  services, the handlers that decode a request and call the method, and the tables that say which
  handler serves which path.  The gRPC library itself is a parameter: \<open>invoke\<close> is the method
  \<open>Invoke\<close> of a connection, \<open>dec\<close> the decoder it gives to a handler, \<open>register\<close> the method
  \<open>RegisterService\<close> of a server.  The state \<open>'st\<close> is the rest of the world, the server in particular.
\<close>

section \<open>Requests and replies as \<open>interface{}\<close> values\<close>

text \<open>
  A request of a known type is a value of the type \<open>request\<close>; its kind is its Go type, which is
  all the decoder is told.  The six responses that carry a cluster information have one kind: they
  have the same single field.
\<close>

datatype request_kind = KPing | KStart | KHealth | KURIs | KStatus | KRemove | KRestart | KStop

fun kind_of :: "request \<Rightarrow> request_kind" where
  "kind_of RqPing = KPing"
| "kind_of (RqStart _) = KStart"
| "kind_of RqHealth = KHealth"
| "kind_of RqURIs = KURIs"
| "kind_of RqStatus = KStatus"
| "kind_of (RqRemove _) = KRemove"
| "kind_of (RqRestart _) = KRestart"
| "kind_of RqStop = KStop"

datatype reply_kind = KPid | KInfo | KUris

fun reply_kind_of :: "reply \<Rightarrow> reply_kind" where
  "reply_kind_of (RpPid _) = KPid"
| "reply_kind_of (RpInfo _) = KInfo"
| "reply_kind_of (RpUris _) = KUris"

type_synonym 'st meth = "'st \<Rightarrow> reply outcome \<times> 'st"
type_synonym 'st invoke = "string \<Rightarrow> request \<Rightarrow> reply_kind \<Rightarrow> 'st meth"

section \<open>The client stubs\<close>

text \<open>Every stub invokes its path and returns the reply or the error.\<close>

definition stub :: "'st invoke \<Rightarrow> string \<Rightarrow> request \<Rightarrow> reply_kind \<Rightarrow> 'st meth" where
  "stub invoke path rq out st = and_then (invoke path rq out st) (\<lambda>rp st. (Ret rp, st))"

definition pingServiceClient_Ping :: "'st invoke \<Rightarrow> 'st meth" where
  "pingServiceClient_Ping invoke = stub invoke ''/rpcpb.PingService/Ping'' RqPing KPid"

definition controlServiceClient_Start :: "'st invoke \<Rightarrow> StartRequest \<Rightarrow> 'st meth" where
  "controlServiceClient_Start invoke rq = stub invoke ''/rpcpb.ControlService/Start'' (RqStart rq) KInfo"

definition controlServiceClient_Health :: "'st invoke \<Rightarrow> 'st meth" where
  "controlServiceClient_Health invoke = stub invoke ''/rpcpb.ControlService/Health'' RqHealth KInfo"

definition controlServiceClient_URIs :: "'st invoke \<Rightarrow> 'st meth" where
  "controlServiceClient_URIs invoke = stub invoke ''/rpcpb.ControlService/URIs'' RqURIs KUris"

definition controlServiceClient_Status :: "'st invoke \<Rightarrow> 'st meth" where
  "controlServiceClient_Status invoke = stub invoke ''/rpcpb.ControlService/Status'' RqStatus KInfo"

definition controlServiceClient_RemoveNode :: "'st invoke \<Rightarrow> RemoveNodeRequest \<Rightarrow> 'st meth" where
  "controlServiceClient_RemoveNode invoke rq =
     stub invoke ''/rpcpb.ControlService/RemoveNode'' (RqRemove rq) KInfo"

definition controlServiceClient_RestartNode :: "'st invoke \<Rightarrow> RestartNodeRequest \<Rightarrow> 'st meth" where
  "controlServiceClient_RestartNode invoke rq =
     stub invoke ''/rpcpb.ControlService/RestartNode'' (RqRestart rq) KInfo"

definition controlServiceClient_Stop :: "'st invoke \<Rightarrow> 'st meth" where
  "controlServiceClient_Stop invoke = stub invoke ''/rpcpb.ControlService/Stop'' RqStop KInfo"

text \<open>
  The stub of the stream opens it, sends the one request and closes the sending side at once; each
  of the three calls may fail.
\<close>

record 'stream client_conn =
  cc_NewStream :: "string \<Rightarrow> go_error + 'stream"
  cc_SendMsg :: "'stream \<Rightarrow> StreamStatusRequest \<Rightarrow> go_error + 'stream"
  cc_CloseSend :: "'stream \<Rightarrow> go_error + 'stream"

definition controlServiceClient_StreamStatus ::
  "'stream client_conn \<Rightarrow> StreamStatusRequest \<Rightarrow> go_error + 'stream" where
  "controlServiceClient_StreamStatus cc rq =
     (case cc_NewStream cc ''/rpcpb.ControlService/StreamStatus'' of
        Inl e \<Rightarrow> Inl e
      | Inr x \<Rightarrow>
          (case cc_SendMsg cc x rq of
             Inl e \<Rightarrow> Inl e
           | Inr x \<Rightarrow> cc_CloseSend cc x))"

section \<open>The interfaces of the services\<close>

record 'st PingServiceServer =
  ps_Ping :: "'st meth"

record ('st, 'str) ControlServiceServer =
  cs_Start :: "StartRequest \<Rightarrow> 'st meth"
  cs_Health :: "'st meth"
  cs_URIs :: "'st meth"
  cs_Status :: "'st meth"
  cs_StreamStatus :: "StreamStatusRequest \<Rightarrow> 'str \<Rightarrow> 'st \<Rightarrow> unit outcome \<times> 'st"
  cs_RemoveNode :: "RemoveNodeRequest \<Rightarrow> 'st meth"
  cs_RestartNode :: "RestartNodeRequest \<Rightarrow> 'st meth"
  cs_Stop :: "'st meth"

definition unimplemented :: "string \<Rightarrow> go_error" where
  "unimplemented name = GrpcStatus CodeUnimplemented (''method '' @ name @ '' not implemented'')"

definition UnimplementedPingServiceServer :: "'st PingServiceServer" where
  "UnimplementedPingServiceServer = \<lparr>ps_Ping = Pair (Fail (unimplemented ''Ping''))\<rparr>"

definition UnimplementedControlServiceServer :: "('st, 'str) ControlServiceServer" where
  "UnimplementedControlServiceServer =
     \<lparr>cs_Start = (\<lambda>_. Pair (Fail (unimplemented ''Start''))),
      cs_Health = Pair (Fail (unimplemented ''Health'')),
      cs_URIs = Pair (Fail (unimplemented ''URIs'')),
      cs_Status = Pair (Fail (unimplemented ''Status'')),
      cs_StreamStatus = (\<lambda>_ _. Pair (Fail (unimplemented ''StreamStatus''))),
      cs_RemoveNode = (\<lambda>_. Pair (Fail (unimplemented ''RemoveNode''))),
      cs_RestartNode = (\<lambda>_. Pair (Fail (unimplemented ''RestartNode''))),
      cs_Stop = Pair (Fail (unimplemented ''Stop''))\<rparr>"

section \<open>The handlers\<close>

text \<open>
  A handler decodes the request and calls the method, through the interceptor when the server has
  one; the function it gives to the interceptor asserts the type of the request, which panics for
  another type.
\<close>

type_synonym decoder = "request_kind \<Rightarrow> go_error + request"
type_synonym 'st interceptor = "string \<Rightarrow> request \<Rightarrow> (request \<Rightarrow> 'st meth) \<Rightarrow> 'st meth"
type_synonym 'st handler = "decoder \<Rightarrow> 'st interceptor option \<Rightarrow> 'st meth"

definition unary_handler :: "string \<Rightarrow> request_kind \<Rightarrow> (request \<Rightarrow> 'st meth) \<Rightarrow> 'st handler" where
  "unary_handler full k call dec interceptor st =
     (case dec k of
        Inl e \<Rightarrow> (Fail e, st)
      | Inr rq \<Rightarrow>
          (case interceptor of
             None \<Rightarrow> call rq st
           | Some ic \<Rightarrow> ic full rq call st))"

definition PingService_Ping_Handler :: "'st PingServiceServer \<Rightarrow> 'st handler" where
  "PingService_Ping_Handler srv =
     unary_handler ''/rpcpb.PingService/Ping'' KPing
       (\<lambda>rq. case rq of RqPing \<Rightarrow> ps_Ping srv | _ \<Rightarrow> Pair Panic)"

definition ControlService_Start_Handler :: "('st, 'str) ControlServiceServer \<Rightarrow> 'st handler" where
  "ControlService_Start_Handler srv =
     unary_handler ''/rpcpb.ControlService/Start'' KStart
       (\<lambda>rq. case rq of RqStart x \<Rightarrow> cs_Start srv x | _ \<Rightarrow> Pair Panic)"

definition ControlService_Health_Handler :: "('st, 'str) ControlServiceServer \<Rightarrow> 'st handler" where
  "ControlService_Health_Handler srv =
     unary_handler ''/rpcpb.ControlService/Health'' KHealth
       (\<lambda>rq. case rq of RqHealth \<Rightarrow> cs_Health srv | _ \<Rightarrow> Pair Panic)"

definition ControlService_URIs_Handler :: "('st, 'str) ControlServiceServer \<Rightarrow> 'st handler" where
  "ControlService_URIs_Handler srv =
     unary_handler ''/rpcpb.ControlService/URIs'' KURIs
       (\<lambda>rq. case rq of RqURIs \<Rightarrow> cs_URIs srv | _ \<Rightarrow> Pair Panic)"

definition ControlService_Status_Handler :: "('st, 'str) ControlServiceServer \<Rightarrow> 'st handler" where
  "ControlService_Status_Handler srv =
     unary_handler ''/rpcpb.ControlService/Status'' KStatus
       (\<lambda>rq. case rq of RqStatus \<Rightarrow> cs_Status srv | _ \<Rightarrow> Pair Panic)"

definition ControlService_RemoveNode_Handler :: "('st, 'str) ControlServiceServer \<Rightarrow> 'st handler" where
  "ControlService_RemoveNode_Handler srv =
     unary_handler ''/rpcpb.ControlService/RemoveNode'' KRemove
       (\<lambda>rq. case rq of RqRemove x \<Rightarrow> cs_RemoveNode srv x | _ \<Rightarrow> Pair Panic)"

definition ControlService_RestartNode_Handler :: "('st, 'str) ControlServiceServer \<Rightarrow> 'st handler" where
  "ControlService_RestartNode_Handler srv =
     unary_handler ''/rpcpb.ControlService/RestartNode'' KRestart
       (\<lambda>rq. case rq of RqRestart x \<Rightarrow> cs_RestartNode srv x | _ \<Rightarrow> Pair Panic)"

definition ControlService_Stop_Handler :: "('st, 'str) ControlServiceServer \<Rightarrow> 'st handler" where
  "ControlService_Stop_Handler srv =
     unary_handler ''/rpcpb.ControlService/Stop'' KStop
       (\<lambda>rq. case rq of RqStop \<Rightarrow> cs_Stop srv | _ \<Rightarrow> Pair Panic)"

text \<open>The handler of the stream receives the one request from it.\<close>

definition ControlService_StreamStatus_Handler ::
  "('str \<Rightarrow> go_error + (StreamStatusRequest \<times> 'str)) \<Rightarrow> ('st, 'str) ControlServiceServer \<Rightarrow>
   'str \<Rightarrow> 'st \<Rightarrow> unit outcome \<times> 'st" where
  "ControlService_StreamStatus_Handler recv_msg srv stream st =
     (case recv_msg stream of
        Inl e \<Rightarrow> (Fail e, st)
      | Inr (m, stream) \<Rightarrow> cs_StreamStatus srv m stream st)"

section \<open>The tables\<close>

text \<open>A service as it is registered: its name and the handlers of its unary methods.\<close>

record 'st service =
  sd_ServiceName :: string
  sd_Methods :: "(string \<times> 'st handler) list"

definition PingService_ServiceDesc :: "'st PingServiceServer \<Rightarrow> 'st service" where
  "PingService_ServiceDesc srv =
     \<lparr>sd_ServiceName = ''rpcpb.PingService'', sd_Methods = [(''Ping'', PingService_Ping_Handler srv)]\<rparr>"

definition ControlService_ServiceDesc :: "('st, 'str) ControlServiceServer \<Rightarrow> 'st service" where
  "ControlService_ServiceDesc srv =
     \<lparr>sd_ServiceName = ''rpcpb.ControlService'',
      sd_Methods =
        [(''Start'', ControlService_Start_Handler srv),
         (''Health'', ControlService_Health_Handler srv),
         (''URIs'', ControlService_URIs_Handler srv),
         (''Status'', ControlService_Status_Handler srv),
         (''RemoveNode'', ControlService_RemoveNode_Handler srv),
         (''RestartNode'', ControlService_RestartNode_Handler srv),
         (''Stop'', ControlService_Stop_Handler srv)]\<rparr>"

text \<open>The streams of the control service: their names and whether the server sends more than one message.\<close>

definition ControlService_Streams :: "(string \<times> bool) list" where
  "ControlService_Streams = [(''StreamStatus'', True)]"

definition RegisterPingServiceServer ::
  "('st service \<Rightarrow> 'reg \<Rightarrow> 'reg) \<Rightarrow> 'st PingServiceServer \<Rightarrow> 'reg \<Rightarrow> 'reg" where
  "RegisterPingServiceServer register srv = register (PingService_ServiceDesc srv)"

definition RegisterControlServiceServer ::
  "('st service \<Rightarrow> 'reg \<Rightarrow> 'reg) \<Rightarrow> ('st, 'str) ControlServiceServer \<Rightarrow> 'reg \<Rightarrow> 'reg" where
  "RegisterControlServiceServer register srv = register (ControlService_ServiceDesc srv)"

end
