(* ===== verification/Logutil.thy ===== *)
theory Logutil
  imports Prelude
begin

text \<open>
  The log levels and the default logger configuration, \<open>src/pkg/logutil/zap.go\<close>, and the coloured
  output of \<open>src/pkg/color/color.go\<close>.  The levels are those of zap, ordered by severity.
\<close>

section \<open>Levels\<close>

datatype zap_level =
  DebugLevel | InfoLevel | WarnLevel | ErrorLevel | DPanicLevel | PanicLevel | FatalLevel

fun severity :: "zap_level \<Rightarrow> int" where
  "severity DebugLevel = - 1"
| "severity InfoLevel = 0"
| "severity WarnLevel = 1"
| "severity ErrorLevel = 2"
| "severity DPanicLevel = 3"
| "severity PanicLevel = 4"
| "severity FatalLevel = 5"

lemma severity_inj: "severity a = severity b \<Longrightarrow> a = b"
  by (cases a; cases b) simp_all

instantiation zap_level :: linorder
begin

definition less_eq_zap_level :: "zap_level \<Rightarrow> zap_level \<Rightarrow> bool" where
  "less_eq_zap_level a b \<longleftrightarrow> severity a \<le> severity b"

definition less_zap_level :: "zap_level \<Rightarrow> zap_level \<Rightarrow> bool" where
  "less_zap_level a b \<longleftrightarrow> severity a < severity b"

instance
  by standard (auto simp: less_eq_zap_level_def less_zap_level_def intro: severity_inj)

end

definition DefaultLogLevel :: string where
  "DefaultLogLevel = ''info''"

text \<open>An unknown name is a panic, the name is compared as it is.\<close>

definition ConvertToZapLevel :: "string \<Rightarrow> zap_level outcome" where
  "ConvertToZapLevel lvl =
     (if lvl = ''debug'' then Ret DebugLevel
      else if lvl = ''info'' then Ret InfoLevel
      else if lvl = ''warn'' then Ret WarnLevel
      else if lvl = ''error'' then Ret ErrorLevel
      else if lvl = ''dpanic'' then Ret DPanicLevel
      else if lvl = ''panic'' then Ret PanicLevel
      else if lvl = ''fatal'' then Ret FatalLevel
      else Panic)"

record SamplingConfig =
  sc_Initial :: int
  sc_Thereafter :: int

text \<open>The encoder functions and the line ending are values of zap, known by their names.\<close>

datatype line_ending = DefaultLineEnding
datatype level_encoder = LowercaseLevelEncoder
datatype time_encoder = ISO8601TimeEncoder
datatype duration_encoder = StringDurationEncoder
datatype caller_encoder = ShortCallerEncoder

record EncoderConfig =
  ec_TimeKey :: string
  ec_LevelKey :: string
  ec_NameKey :: string
  ec_CallerKey :: string
  ec_MessageKey :: string
  ec_StacktraceKey :: string
  ec_LineEnding :: line_ending
  ec_EncodeLevel :: level_encoder
  ec_EncodeTime :: time_encoder
  ec_EncodeDuration :: duration_encoder
  ec_EncodeCaller :: caller_encoder

record zap_Config =
  zc_Level :: zap_level
  zc_Development :: bool
  zc_Sampling :: SamplingConfig
  zc_Encoding :: string
  zc_EncoderConfig :: EncoderConfig
  zc_OutputPaths :: "string list"
  zc_ErrorOutputPaths :: "string list"

definition GetDefaultZapLoggerConfig :: "zap_Config outcome" where
  "GetDefaultZapLoggerConfig =
     (case ConvertToZapLevel DefaultLogLevel of
        Ret l \<Rightarrow>
          Ret \<lparr>zc_Level = l, zc_Development = False,
               zc_Sampling = \<lparr>sc_Initial = 100, sc_Thereafter = 100\<rparr>, zc_Encoding = ''json'',
               zc_EncoderConfig = \<lparr>ec_TimeKey = ''ts'', ec_LevelKey = ''level'', ec_NameKey = ''logger'',
                 ec_CallerKey = ''caller'', ec_MessageKey = ''msg'', ec_StacktraceKey = ''stacktrace'',
                 ec_LineEnding = DefaultLineEnding, ec_EncodeLevel = LowercaseLevelEncoder,
                 ec_EncodeTime = ISO8601TimeEncoder, ec_EncodeDuration = StringDurationEncoder,
                 ec_EncodeCaller = ShortCallerEncoder\<rparr>,
               zc_OutputPaths = [''stderr''], zc_ErrorOutputPaths = [''stderr'']\<rparr>
      | Fail e \<Rightarrow> Fail e | Panic \<Rightarrow> Panic | Block \<Rightarrow> Block)"

text \<open>\<open>build\<close> is the method \<open>Build\<close> of the configuration: the logger, here its configuration, or an error.\<close>

definition GetDefaultZapLogger :: "(zap_Config \<Rightarrow> go_error option) \<Rightarrow> zap_Config outcome" where
  "GetDefaultZapLogger build =
     (case GetDefaultZapLoggerConfig of
        Ret c \<Rightarrow> (case build c of None \<Rightarrow> Ret c | Some e \<Rightarrow> Fail e)
      | Fail e \<Rightarrow> Fail e | Panic \<Rightarrow> Panic | Block \<Rightarrow> Block)"

text \<open>
  The initialisation of the package, which runs before \<open>main\<close>: the default logger becomes the global
  one, \<open>Inr\<close>, or the program ends with the error, \<open>Inl\<close>.
\<close>

definition logutil_init :: "(zap_Config \<Rightarrow> go_error option) \<Rightarrow> (go_error + zap_Config) outcome" where
  "logutil_init build =
     (case GetDefaultZapLogger build of
        Ret logger \<Rightarrow> Ret (Inr logger)
      | Fail err \<Rightarrow> Ret (Inl err)
      | Panic \<Rightarrow> Panic | Block \<Rightarrow> Block)"

lemma logutil_init_level:
  "\<exists>c. GetDefaultZapLoggerConfig = Ret c \<and> zc_Level c = InfoLevel \<and>
     logutil_init build = Ret (case build c of None \<Rightarrow> Inr c | Some err \<Rightarrow> Inl err)"
  by (auto simp: logutil_init_def GetDefaultZapLogger_def GetDefaultZapLoggerConfig_def
        ConvertToZapLevel_def DefaultLogLevel_def split: option.splits)

text \<open>
  The beginning of \<open>client.New\<close> and of the server command: the default configuration with the level
  of the flag, and the global logger built from it.
\<close>

definition setup_logger :: "(zap_Config \<Rightarrow> go_error option) \<Rightarrow> string \<Rightarrow> zap_Config outcome" where
  "setup_logger build lvl =
     (case GetDefaultZapLoggerConfig of
        Ret c \<Rightarrow>
          (case ConvertToZapLevel lvl of
             Ret l \<Rightarrow> (let c' = c\<lparr>zc_Level := l\<rparr> in case build c' of None \<Rightarrow> Ret c' | Some e \<Rightarrow> Fail e)
           | Fail e \<Rightarrow> Fail e | Panic \<Rightarrow> Panic | Block \<Rightarrow> Block)
      | Fail e \<Rightarrow> Fail e | Panic \<Rightarrow> Panic | Block \<Rightarrow> Block)"

text \<open>The level of the flags when they are not given.\<close>

lemma sample_logger: "\<exists>cfg. setup_logger (\<lambda>_. None) ''info'' = Ret cfg"
  by (simp add: setup_logger_def GetDefaultZapLoggerConfig_def ConvertToZapLevel_def DefaultLogLevel_def Let_def)

section \<open>Coloured output\<close>

text \<open>
  \<open>F\<close> is \<open>formatter.F\<close> of ginkgo, applied to a format and its arguments; the result is what is
  written to the standard output or to the standard error.
\<close>

datatype printed = Stdout string | Stderr string

definition Outf :: "(string \<Rightarrow> 'a list \<Rightarrow> string) \<Rightarrow> string \<Rightarrow> 'a list \<Rightarrow> printed" where
  "Outf F format args = Stdout (F format args)"

definition Errf :: "(string \<Rightarrow> 'a list \<Rightarrow> string) \<Rightarrow> string \<Rightarrow> 'a list \<Rightarrow> printed" where
  "Errf F format args = Stderr (F format args)"

definition Greenf :: "(string \<Rightarrow> 'a list \<Rightarrow> string) \<Rightarrow> string \<Rightarrow> 'a list \<Rightarrow> printed" where
  "Greenf F format args = Outf F (''{{green}}'' @ format @ ''{{/}}'') args"

definition Redf :: "(string \<Rightarrow> 'a list \<Rightarrow> string) \<Rightarrow> string \<Rightarrow> 'a list \<Rightarrow> printed" where
  "Redf F format args = Outf F (''{{red}}'' @ format @ ''{{/}}'') args"

definition Bluef :: "(string \<Rightarrow> 'a list \<Rightarrow> string) \<Rightarrow> string \<Rightarrow> 'a list \<Rightarrow> printed" where
  "Bluef F format args = Outf F (''{{blue}}'' @ format @ ''{{/}}'') args"

section \<open>Properties\<close>

definition level_names :: "(string \<times> zap_level) list" where
  "level_names = [(''debug'', DebugLevel), (''info'', InfoLevel), (''warn'', WarnLevel),
     (''error'', ErrorLevel), (''dpanic'', DPanicLevel), (''panic'', PanicLevel), (''fatal'', FatalLevel)]"

lemma ConvertToZapLevel_table:
  "ConvertToZapLevel lvl = (case map_of level_names lvl of Some l \<Rightarrow> Ret l | None \<Rightarrow> Panic)"
  by (simp add: ConvertToZapLevel_def level_names_def)

text \<open>Setting up the logger panics exactly when the level is none of the seven lower-case names, it
  never waits, and the names stand for different levels: two names give the same logger only if
  they are equal, and every level has a name.\<close>

theorem setup_logger_panics_iff:
  "(setup_logger build lvl = Panic \<longleftrightarrow> lvl \<notin> fst ` set level_names) \<and>
   setup_logger build lvl \<noteq> Block \<and>
   (\<forall>c c' lvl'. setup_logger build lvl = Ret c \<and> setup_logger build lvl' = Ret c' \<and>
      zc_Level c = zc_Level c' \<longrightarrow> lvl = lvl') \<and>
   (\<forall>l. \<exists>name. ConvertToZapLevel name = Ret l)"
proof -
  obtain c0 where def_cfg: "GetDefaultZapLoggerConfig = Ret c0"
    by (simp add: GetDefaultZapLoggerConfig_def ConvertToZapLevel_def DefaultLogLevel_def)
  have conv: "ConvertToZapLevel n = Panic \<longleftrightarrow> n \<notin> fst ` set level_names"
      "ConvertToZapLevel n \<noteq> Block" "ConvertToZapLevel n \<noteq> Fail e" for n e
    by (auto simp: ConvertToZapLevel_table map_of_eq_None_iff dest: map_of_in_keys split: option.splits)
  have inj: "n = n'" if "ConvertToZapLevel n = Ret l" "ConvertToZapLevel n' = Ret l" for n n' l
    using that by (auto simp: ConvertToZapLevel_def split: if_splits)
  have ret: "ConvertToZapLevel n = Ret (zc_Level c)" if "setup_logger build n = Ret c" for n c
    using that conv by (cases "ConvertToZapLevel n") (auto simp: setup_logger_def def_cfg Let_def split: option.splits)
  have all: "\<exists>name. ConvertToZapLevel name = Ret l" for l
  proof -
    have "l \<in> snd ` set level_names" by (cases l) (simp_all add: level_names_def)
    then obtain name where "(name, l) \<in> set level_names" by auto
    moreover have "distinct (map fst level_names)" by (simp add: level_names_def)
    ultimately have "map_of level_names name = Some l" by simp
    then show ?thesis by (intro exI [of _ name]) (simp add: ConvertToZapLevel_table)
  qed
  have "setup_logger build lvl = Panic \<longleftrightarrow> lvl \<notin> fst ` set level_names" "setup_logger build lvl \<noteq> Block"
    using conv [of lvl]
    by (cases "ConvertToZapLevel lvl"; auto simp: setup_logger_def def_cfg Let_def split: option.splits)+
  moreover have "lvl = lvl'"
    if "setup_logger build lvl = Ret c" "setup_logger build lvl' = Ret c'" "zc_Level c = zc_Level c'" for c c' lvl'
    using inj [OF ret [OF that(1)], of lvl'] ret [OF that(2)] that(3) by simp
  ultimately show ?thesis using all by (intro conjI allI impI; blast)
qed

text \<open>A configuration built from a flag.\<close>

lemma setup_logger_panics_iff_witness:
  "setup_logger (\<lambda>_. None) ''INFO'' = Panic \<and> setup_logger (\<lambda>_. None) ''info'' \<noteq> Panic"
  using setup_logger_panics_iff [of "\<lambda>_. None" "''INFO''"] setup_logger_panics_iff [of "\<lambda>_. None" "''info''"]
  by (simp add: level_names_def)

end
