(* ===== verification/Client.thy ===== *)
theory Client
  imports Grpc Logutil
begin

text \<open>
  The client, \<open>src/client/client.go\<close>: its options, the connection it dials, the requests its methods
  build and how it closes.  Its stream of status updates is in the theory on the status stream.  A
  connection of the gRPC library is a parameter: what its methods \<open>Invoke\<close> and \<open>Close\<close> do.
\<close>

section \<open>Options\<close>

record Op =
  op_whitelistedSubnets :: string
  op_logLevel :: string

type_synonym OpOption = "Op \<Rightarrow> Op"

definition new_Op :: Op where
  "new_Op = \<lparr>op_whitelistedSubnets = [], op_logLevel = []\<rparr>"

fun applyOpts :: "OpOption list \<Rightarrow> Op \<Rightarrow> Op" where
  "applyOpts [] op = op"
| "applyOpts (opt # opts) op = applyOpts opts (opt op)"

definition WithWhitelistedSubnets :: "string \<Rightarrow> OpOption" where
  "WithWhitelistedSubnets w = (\<lambda>op. op\<lparr>op_whitelistedSubnets := w\<rparr>)"

definition WithLogLevel :: "string \<Rightarrow> OpOption" where
  "WithLogLevel l = (\<lambda>op. op\<lparr>op_logLevel := l\<rparr>)"

section \<open>The client\<close>

record client_Config =
  cg_LogLevel :: string
  cg_Endpoint :: string
  cg_DialTimeout :: int

record 'st connection =
  cn_Invoke :: "'st invoke"
  cn_Close :: "'st \<Rightarrow> go_error option \<times> 'st"

record 'st client =
  ct_cfg :: client_Config
  ct_conn :: "'st connection"
  ct_pingc :: "'st invoke"
  ct_controlc :: "'st invoke"
  ct_closed :: once_chan

definition NewPingServiceClient :: "'st connection \<Rightarrow> 'st invoke" where
  "NewPingServiceClient cc = cn_Invoke cc"

definition NewControlServiceClient :: "'st connection \<Rightarrow> 'st invoke" where
  "NewControlServiceClient cc = cn_Invoke cc"

text \<open>
  What the client and the commands use of the libraries: \<open>Build\<close> of a logger configuration, the
  formatter of the coloured output, with the arguments already as text, and \<open>grpc.DialContext\<close> with
  the endpoint and the timeout.
\<close>

record 'st client_env =
  cv_build :: "zap_Config \<Rightarrow> go_error option"
  cv_F :: "string \<Rightarrow> string list \<Rightarrow> string"
  cv_dial :: "string \<Rightarrow> int \<Rightarrow> go_error + 'st connection"

text \<open>\<open>New\<close> of the client, with what it prints.\<close>

definition client_New :: "'st client_env \<Rightarrow> client_Config \<Rightarrow> 'st client outcome \<times> printed list" where
  "client_New D cfg =
     (case setup_logger (cv_build D) (cg_LogLevel cfg) of
        Fail e \<Rightarrow> (Fail e, [])
      | Panic \<Rightarrow> (Panic, [])
      | Block \<Rightarrow> (Block, [])
      | Ret _ \<Rightarrow>
          (let out = [Outf (cv_F D) (''{{blue}}dialing endpoint %q{{/}}'' @ [CHR 0x0A]) [cg_Endpoint cfg]]
           in case cv_dial D (cg_Endpoint cfg) (cg_DialTimeout cfg) of
                Inl e \<Rightarrow> (Fail e, out)
              | Inr conn \<Rightarrow>
                  (Ret \<lparr>ct_cfg = cfg, ct_conn = conn, ct_pingc = NewPingServiceClient conn,
                        ct_controlc = NewControlServiceClient conn, ct_closed = new_once_chan\<rparr>, out)))"

section \<open>The methods\<close>

definition client_Ping :: "'st client \<Rightarrow> 'st meth" where
  "client_Ping c = pingServiceClient_Ping (ct_pingc c)"

definition client_Start :: "'st client \<Rightarrow> string \<Rightarrow> OpOption list \<Rightarrow> 'st meth" where
  "client_Start c execPath opts =
     (let ret = applyOpts opts new_Op
      in controlServiceClient_Start (ct_controlc c)
           \<lparr>sr_ExecPath = execPath, sr_WhitelistedSubnets = Some (op_whitelistedSubnets ret),
            sr_LogLevel = Some (op_logLevel ret)\<rparr>)"

definition client_Health :: "'st client \<Rightarrow> 'st meth" where
  "client_Health c = controlServiceClient_Health (ct_controlc c)"

text \<open>The only method that opens the response.\<close>

fun Uris_of :: "reply \<Rightarrow> string list" where
  "Uris_of (RpUris us) = us"
| "Uris_of _ = []"

definition client_URIs :: "'st client \<Rightarrow> 'st \<Rightarrow> string list outcome \<times> 'st" where
  "client_URIs c st = and_then (controlServiceClient_URIs (ct_controlc c) st) (\<lambda>resp st. (Ret (Uris_of resp), st))"

definition client_Status :: "'st client \<Rightarrow> 'st meth" where
  "client_Status c = controlServiceClient_Status (ct_controlc c)"

definition client_Stop :: "'st client \<Rightarrow> 'st meth" where
  "client_Stop c = controlServiceClient_Stop (ct_controlc c)"

definition client_RemoveNode :: "'st client \<Rightarrow> string \<Rightarrow> 'st meth" where
  "client_RemoveNode c name = controlServiceClient_RemoveNode (ct_controlc c) \<lparr>rm_Name = name\<rparr>"

text \<open>A restart sends no log level.\<close>

definition client_RestartNode :: "'st client \<Rightarrow> string \<Rightarrow> string \<Rightarrow> OpOption list \<Rightarrow> 'st meth" where
  "client_RestartNode c name execPath opts =
     (let ret = applyOpts opts new_Op
      in controlServiceClient_RestartNode (ct_controlc c)
           \<lparr>rr_Name = name,
            rr_StartRequest = Some \<lparr>sr_ExecPath = execPath,
              sr_WhitelistedSubnets = Some (op_whitelistedSubnets ret), sr_LogLevel = None\<rparr>\<rparr>)"

text \<open>The beginning of \<open>StreamStatus\<close>: the push interval is sent as it is.\<close>

definition client_StreamStatus ::
  "'stream client_conn \<Rightarrow> int64 \<Rightarrow> go_error + 'stream \<times> 'm client_stream" where
  "client_StreamStatus cc pushInterval =
     (case controlServiceClient_StreamStatus cc \<lparr>ss_PushInterval = pushInterval\<rparr> of
        Inl e \<Rightarrow> Inl e
      | Inr stream \<Rightarrow> Inr (stream, new_client_stream))"

text \<open>The \<open>closed\<close> channel is closed once; the connection is closed by every call.\<close>

definition client_close_chan :: "'st client \<Rightarrow> 'st client outcome" where
  "client_close_chan c =
     (case once_close (ct_closed c) of
        Ret ch \<Rightarrow> Ret (c\<lparr>ct_closed := ch\<rparr>) | Fail e \<Rightarrow> Fail e | Panic \<Rightarrow> Panic | Block \<Rightarrow> Block)"

definition client_Close :: "'st client \<Rightarrow> 'st \<Rightarrow> ('st client \<times> go_error option) outcome \<times> 'st" where
  "client_Close c st =
     (case client_close_chan c of
        Ret c' \<Rightarrow> (let (e, st') = cn_Close (ct_conn c) st in (Ret (c', e), st'))
      | Fail e \<Rightarrow> (Fail e, st)
      | Panic \<Rightarrow> (Panic, st)
      | Block \<Rightarrow> (Block, st))"

interpretation client_closed: closable client_close_chan "\<lambda>c. oc_closed (ct_closed c)" "\<lambda>c. once_ok (ct_closed c)"
proof unfold_locales
  fix c :: "'st client"
  assume ok: "once_ok (ct_closed c)"
  then show "\<exists>c'. client_close_chan c = Ret c' \<and> oc_closed (ct_closed c') \<and> once_ok (ct_closed c')"
    by (simp add: client_close_chan_def once_close_ok) (simp add: once_ok_def)
  assume "oc_closed (ct_closed c)"
  with ok show "client_close_chan c = Ret c"
    by (simp add: client_close_chan_def once_close_def once_ok_def)
qed

section \<open>The request of each method\<close>

text \<open>A call of a method of the client, and the request that reaches the wire for it.\<close>

datatype client_call =
    CallPing | CallStart string "OpOption list" | CallHealth | CallURIs | CallStatus
  | CallRemoveNode string | CallRestartNode string string "OpOption list" | CallStop

fun client_do :: "'st client \<Rightarrow> client_call \<Rightarrow> 'st meth" where
  "client_do c CallPing st = client_Ping c st"
| "client_do c (CallStart p opts) st = client_Start c p opts st"
| "client_do c CallHealth st = client_Health c st"
| "client_do c CallURIs st = (case client_URIs c st of (r, st) \<Rightarrow> (map_outcome RpUris r, st))"
| "client_do c CallStatus st = client_Status c st"
| "client_do c (CallRemoveNode x) st = client_RemoveNode c x st"
| "client_do c (CallRestartNode x p opts) st = client_RestartNode c x p opts st"
| "client_do c CallStop st = client_Stop c st"

fun call_request :: "client_call \<Rightarrow> request" where
  "call_request CallPing = RqPing"
| "call_request (CallStart p opts) =
     RqStart \<lparr>sr_ExecPath = p, sr_WhitelistedSubnets = Some (op_whitelistedSubnets (applyOpts opts new_Op)),
              sr_LogLevel = Some (op_logLevel (applyOpts opts new_Op))\<rparr>"
| "call_request CallHealth = RqHealth"
| "call_request CallURIs = RqURIs"
| "call_request CallStatus = RqStatus"
| "call_request (CallRemoveNode x) = RqRemove \<lparr>rm_Name = x\<rparr>"
| "call_request (CallRestartNode x p opts) =
     RqRestart \<lparr>rr_Name = x,
       rr_StartRequest = Some \<lparr>sr_ExecPath = p,
         sr_WhitelistedSubnets = Some (op_whitelistedSubnets (applyOpts opts new_Op)), sr_LogLevel = None\<rparr>\<rparr>"
| "call_request CallStop = RqStop"

text \<open>The options a client of the package can make, and the value the last one of a kind sets.\<close>

datatype option_value = OptSubnets string | OptLevel string

fun option_of :: "option_value \<Rightarrow> OpOption" where
  "option_of (OptSubnets w) = WithWhitelistedSubnets w"
| "option_of (OptLevel l) = WithLogLevel l"

fun subnets_of :: "option_value \<Rightarrow> string list" where
  "subnets_of (OptSubnets w) = [w]"
| "subnets_of (OptLevel _) = []"

fun levels_of :: "option_value \<Rightarrow> string list" where
  "levels_of (OptLevel l) = [l]"
| "levels_of (OptSubnets _) = []"

definition last_or :: "string \<Rightarrow> string list \<Rightarrow> string" where
  "last_or x xs = (if xs = [] then x else last xs)"

lemma applyOpts_options:
  "applyOpts (map option_of os) op =
     \<lparr>op_whitelistedSubnets = last_or (op_whitelistedSubnets op) (concat (map subnets_of os)),
      op_logLevel = last_or (op_logLevel op) (concat (map levels_of os))\<rparr>"
proof (induction os arbitrary: op)
  case Nil
  show ?case by (cases op) (simp add: last_or_def)
next
  case (Cons x os)
  then show ?case
    by (cases x) (simp_all add: WithWhitelistedSubnets_def WithLogLevel_def last_or_def)
qed

end
