(* ===== verification/Grpc_Props.thy ===== *)
theory Grpc_Props
  imports Grpc
begin

text \<open>
  What the gRPC library promises, and that with it every stub reaches the method of its name: the
  marshalling of messages (\<open>codec\<close>) and the delivery of a call to the registered handler
  (\<open>transport_ok\<close>).
\<close>

section \<open>The promises of the library\<close>

record 'b codec =
  cd_enc :: "request \<Rightarrow> go_error + 'b"
  cd_dec :: "'b \<Rightarrow> decoder"
  cd_encR :: "reply \<Rightarrow> go_error + 'b"
  cd_decR :: "'b \<Rightarrow> reply_kind \<Rightarrow> go_error + reply"

text \<open>
  A map is marshalled in any order, so a reply comes back with the same map listed in another
  order at most.
\<close>

fun same_info :: "wire_info option \<Rightarrow> wire_info option \<Rightarrow> bool" where
  "same_info (Some x) (Some y) \<longleftrightarrow>
     ci_NodeNames x = ci_NodeNames y \<and> mset (ci_NodeInfos x) = mset (ci_NodeInfos y) \<and>
     ci_Pid x = ci_Pid y \<and> ci_RootDataDir x = ci_RootDataDir y \<and> ci_Healthy x = ci_Healthy y"
| "same_info None None = True"
| "same_info _ _ = False"

fun same_reply :: "reply \<Rightarrow> reply \<Rightarrow> bool" where
  "same_reply (RpInfo x) (RpInfo y) = same_info x y"
| "same_reply x y = (x = y)"

text \<open>What was marshalled as one type is unmarshalled as the same type to the same value.\<close>

definition codec_ok :: "'b codec \<Rightarrow> bool" where
  "codec_ok C \<longleftrightarrow>
     (\<forall>rq b. cd_enc C rq = Inr b \<longrightarrow> cd_dec C b (kind_of rq) = Inr rq) \<and>
     (\<forall>rp b rp'. cd_encR C rp = Inr b \<longrightarrow> cd_decR C b (reply_kind_of rp) = Inr rp' \<longrightarrow> same_reply rp rp')"

definition full_name :: "string \<Rightarrow> string \<Rightarrow> string" where
  "full_name service method = ''/'' @ service @ ''/'' @ method"

text \<open>
  A unary call is delivered at most once.  Either it is not delivered and fails; or the marshalled
  request is given to the handler registered under the path, without an interceptor
  (\<open>grpc.NewServer()\<close> is called without options), and then the call fails (a lost connection, a
  deadline, an error or a panic of the handler) or returns the handler's marshalled reply.
\<close>

definition delivered ::
  "'b codec \<Rightarrow> 'st handler \<Rightarrow> request \<Rightarrow> reply_kind \<Rightarrow> 'st \<Rightarrow> reply outcome \<Rightarrow> 'st \<Rightarrow> bool" where
  "delivered C h rq k st r st' \<longleftrightarrow>
     (\<exists>b r1. cd_enc C rq = Inr b \<and> h (cd_dec C b) None st = (r1, st') \<and>
        ((\<exists>e. r = Fail e) \<or>
         (\<exists>rp b2 rp'. r1 = Ret rp \<and> cd_encR C rp = Inr b2 \<and> cd_decR C b2 k = Inr rp' \<and> r = Ret rp')))"

definition transport_ok :: "'b codec \<Rightarrow> 'st service list \<Rightarrow> 'st invoke \<Rightarrow> bool" where
  "transport_ok C svcs invoke \<longleftrightarrow>
     (\<forall>path rq k st r st'. invoke path rq k st = (r, st') \<longrightarrow>
        (st' = st \<and> (\<exists>e. r = Fail e)) \<or>
        (\<exists>svc \<in> set svcs. \<exists>(m, h) \<in> set (sd_Methods svc).
           path = full_name (sd_ServiceName svc) m \<and> delivered C h rq k st r st'))"

section \<open>The services of the process\<close>

text \<open>The two registrations of \<open>Run\<close>, on a server that lists its services.\<close>

definition registered :: "'st PingServiceServer \<Rightarrow> ('st, 'str) ControlServiceServer \<Rightarrow> 'st service list" where
  "registered ping ctl =
     RegisterControlServiceServer (\<lambda>s reg. reg @ [s]) ctl
       (RegisterPingServiceServer (\<lambda>s reg. reg @ [s]) ping [])"

lemma registered_eq: "registered ping ctl = [PingService_ServiceDesc ping, ControlService_ServiceDesc ctl]"
  by (simp add: registered_def RegisterControlServiceServer_def RegisterPingServiceServer_def)

text \<open>The method a request is for, on the server and through its stub.\<close>

fun server_method ::
  "'st PingServiceServer \<Rightarrow> ('st, 'str) ControlServiceServer \<Rightarrow> request \<Rightarrow> 'st meth" where
  "server_method ping ctl RqPing = ps_Ping ping"
| "server_method ping ctl (RqStart x) = cs_Start ctl x"
| "server_method ping ctl RqHealth = cs_Health ctl"
| "server_method ping ctl RqURIs = cs_URIs ctl"
| "server_method ping ctl RqStatus = cs_Status ctl"
| "server_method ping ctl (RqRemove x) = cs_RemoveNode ctl x"
| "server_method ping ctl (RqRestart x) = cs_RestartNode ctl x"
| "server_method ping ctl RqStop = cs_Stop ctl"

fun client_stub :: "'st invoke \<Rightarrow> request \<Rightarrow> 'st meth" where
  "client_stub invoke RqPing = pingServiceClient_Ping invoke"
| "client_stub invoke (RqStart x) = controlServiceClient_Start invoke x"
| "client_stub invoke RqHealth = controlServiceClient_Health invoke"
| "client_stub invoke RqURIs = controlServiceClient_URIs invoke"
| "client_stub invoke RqStatus = controlServiceClient_Status invoke"
| "client_stub invoke (RqRemove x) = controlServiceClient_RemoveNode invoke x"
| "client_stub invoke (RqRestart x) = controlServiceClient_RestartNode invoke x"
| "client_stub invoke RqStop = controlServiceClient_Stop invoke"

lemmas stub_defs = pingServiceClient_Ping_def controlServiceClient_Start_def
  controlServiceClient_Health_def controlServiceClient_URIs_def controlServiceClient_Status_def
  controlServiceClient_RemoveNode_def controlServiceClient_RestartNode_def controlServiceClient_Stop_def

lemmas handler_defs = PingService_Ping_Handler_def ControlService_Start_Handler_def
  ControlService_Health_Handler_def ControlService_URIs_Handler_def ControlService_Status_Handler_def
  ControlService_RemoveNode_Handler_def ControlService_RestartNode_Handler_def
  ControlService_Stop_Handler_def

lemma stub_eq: "stub invoke path rq k st = invoke path rq k st"
  by (cases "invoke path rq k st"; cases "fst (invoke path rq k st)") (simp_all add: stub_def)

text \<open>The path a stub uses, and the kind of the reply it decodes.\<close>

fun stub_path :: "request \<Rightarrow> string" where
  "stub_path RqPing = ''/rpcpb.PingService/Ping''"
| "stub_path (RqStart _) = ''/rpcpb.ControlService/Start''"
| "stub_path RqHealth = ''/rpcpb.ControlService/Health''"
| "stub_path RqURIs = ''/rpcpb.ControlService/URIs''"
| "stub_path RqStatus = ''/rpcpb.ControlService/Status''"
| "stub_path (RqRemove _) = ''/rpcpb.ControlService/RemoveNode''"
| "stub_path (RqRestart _) = ''/rpcpb.ControlService/RestartNode''"
| "stub_path RqStop = ''/rpcpb.ControlService/Stop''"

fun stub_reply :: "request \<Rightarrow> reply_kind" where
  "stub_reply RqPing = KPid"
| "stub_reply RqURIs = KUris"
| "stub_reply _ = KInfo"

lemma client_stub_eq: "client_stub invoke rq st = invoke (stub_path rq) rq (stub_reply rq) st"
  by (cases rq) (simp_all add: stub_defs stub_eq)

text \<open>All paths of the process with their handlers; no path has two.\<close>

definition routes :: "'st service list \<Rightarrow> (string \<times> 'st handler) list" where
  "routes svcs =
     concat (map (\<lambda>svc. map (\<lambda>(m, h). (full_name (sd_ServiceName svc) m, h)) (sd_Methods svc)) svcs)"

lemma routes_eq:
  "routes (registered ping ctl) =
     [(''/rpcpb.PingService/Ping'', PingService_Ping_Handler ping),
      (''/rpcpb.ControlService/Start'', ControlService_Start_Handler ctl),
      (''/rpcpb.ControlService/Health'', ControlService_Health_Handler ctl),
      (''/rpcpb.ControlService/URIs'', ControlService_URIs_Handler ctl),
      (''/rpcpb.ControlService/Status'', ControlService_Status_Handler ctl),
      (''/rpcpb.ControlService/RemoveNode'', ControlService_RemoveNode_Handler ctl),
      (''/rpcpb.ControlService/RestartNode'', ControlService_RestartNode_Handler ctl),
      (''/rpcpb.ControlService/Stop'', ControlService_Stop_Handler ctl)]"
  by (simp add: routes_def registered_eq full_name_def PingService_ServiceDesc_def ControlService_ServiceDesc_def)

lemma distinct_routes: "distinct (map fst (routes (registered ping ctl)))"
  by (simp add: routes_eq)

lemma unary_handler_ok:
  "dec k = Inr rq \<Longrightarrow> unary_handler full k call dec None st = call rq st"
  by (simp add: unary_handler_def)

lemma route_method:
  assumes "dec (kind_of rq) = Inr rq"
  shows "\<exists>h. map_of (routes (registered ping ctl)) (stub_path rq) = Some h \<and>
             h dec None st = server_method ping ctl rq st"
  using assms by (cases rq) (simp_all add: routes_eq handler_defs unary_handler_ok)

lemma routed:
  assumes "svc \<in> set (registered ping ctl)" and "(m, h) \<in> set (sd_Methods svc)"
    and "stub_path rq = full_name (sd_ServiceName svc) m" and "dec (kind_of rq) = Inr rq"
  shows "h dec None st = server_method ping ctl rq st"
proof -
  have "(stub_path rq, h) \<in> set (routes (registered ping ctl))"
    using assms(1-3) by (force simp: routes_def)
  then have "map_of (routes (registered ping ctl)) (stub_path rq) = Some h"
    using distinct_routes map_of_eq_Some_iff by fast
  then show ?thesis using route_method [where dec = dec and rq = rq and st = st, OF assms(4)] by (metis option.inject)
qed

section \<open>A stub reaches the method of its name\<close>

lemma deliveredD:
  assumes "delivered C h rq (stub_reply rq) st r st'" and "codec_ok C"
    and "svc \<in> set (registered ping ctl)" and "(m, h) \<in> set (sd_Methods svc)"
    and "stub_path rq = full_name (sd_ServiceName svc) m"
  shows "\<exists>r1. server_method ping ctl rq st = (r1, st') \<and>
    ((\<exists>e. r = Fail e) \<or>
     (\<exists>rp b rp'. r1 = Ret rp \<and> cd_encR C rp = Inr b \<and> cd_decR C b (stub_reply rq) = Inr rp' \<and> r = Ret rp'))"
proof -
  obtain b r1 where b: "cd_enc C rq = Inr b" "h (cd_dec C b) None st = (r1, st')"
      "(\<exists>e. r = Fail e) \<or>
       (\<exists>rp b2 rp'. r1 = Ret rp \<and> cd_encR C rp = Inr b2 \<and> cd_decR C b2 (stub_reply rq) = Inr rp' \<and> r = Ret rp')"
    using assms(1) unfolding delivered_def by blast
  have "cd_dec C b (kind_of rq) = Inr rq" using assms(2) b(1) by (simp add: codec_ok_def)
  then show ?thesis using routed [OF assms(3,4,5)] b(2,3) by metis
qed

text \<open>A server returns replies of the type its interface declares.\<close>

definition typed_server :: "'st PingServiceServer \<Rightarrow> ('st, 'str) ControlServiceServer \<Rightarrow> bool" where
  "typed_server ping ctl \<longleftrightarrow>
     (\<forall>rq st rp st'. server_method ping ctl rq st = (Ret rp, st') \<longrightarrow> reply_kind_of rp = stub_reply rq)"

lemma stub_reaches:
  assumes "codec_ok C" and "transport_ok C (registered ping ctl) invoke" and "typed_server ping ctl"
    and "client_stub invoke rq st = (r, st')"
  shows "(st' = st \<and> (\<exists>e. r = Fail e)) \<or>
    (\<exists>r1. server_method ping ctl rq st = (r1, st') \<and>
       ((\<exists>e. r = Fail e) \<or> (\<exists>rp rp'. r1 = Ret rp \<and> same_reply rp rp' \<and> r = Ret rp')))"
proof -
  have call: "invoke (stub_path rq) rq (stub_reply rq) st = (r, st')"
    using assms(4) by (simp add: client_stub_eq)
  consider (lost) "st' = st" "\<exists>e. r = Fail e"
    | (sent) svc m h where "svc \<in> set (registered ping ctl)" "(m, h) \<in> set (sd_Methods svc)"
        "stub_path rq = full_name (sd_ServiceName svc) m" "delivered C h rq (stub_reply rq) st r st'"
    using assms(2) call unfolding transport_ok_def by blast
  then show ?thesis
  proof cases
    case lost
    then show ?thesis by blast
  next
    case sent
    obtain r1 where r1: "server_method ping ctl rq st = (r1, st')"
        "(\<exists>e. r = Fail e) \<or>
         (\<exists>rp b rp'. r1 = Ret rp \<and> cd_encR C rp = Inr b \<and> cd_decR C b (stub_reply rq) = Inr rp' \<and> r = Ret rp')"
      using deliveredD [OF sent(4) assms(1) sent(1-3)] by blast
    have "same_reply rp rp'"
      if "r1 = Ret rp" "cd_encR C rp = Inr b" "cd_decR C b (stub_reply rq) = Inr rp'" for rp b rp'
    proof -
      have "reply_kind_of rp = stub_reply rq"
        using assms(3) r1(1) that(1) unfolding typed_server_def by blast
      then have "cd_decR C b (reply_kind_of rp) = Inr rp'" using that(3) by simp
      with that(2) show ?thesis using assms(1) unfolding codec_ok_def by blast
    qed
    then show ?thesis using r1 by blast
  qed
qed

text \<open>C11: A call of a stub either is not delivered, fails and changes nothing, or runs the server's
  method of the same name, once, on the same request: the state afterwards is the state the method
  leaves, and a reply that comes back is the method's reply.\<close>

theorem stub_reaches_method:
  assumes "codec_ok C" and "transport_ok C (registered ping ctl) invoke" and "typed_server ping ctl"
    and "client_stub invoke rq st = (r, st')"
  shows "(st' = st \<and> (\<exists>e. r = Fail e)) \<or>
    (\<exists>r1. server_method ping ctl rq st = (r1, st') \<and>
       ((\<exists>e. r = Fail e) \<or> (\<exists>rp rp'. r1 = Ret rp \<and> same_reply rp rp' \<and> r = Ret rp')))"
  using assms by (rule stub_reaches)

section \<open>A library that keeps its promises\<close>

text \<open>A codec that carries the values themselves, and a connection that calls the handler directly.\<close>

definition direct_codec :: "(request + reply) codec" where
  "direct_codec =
     \<lparr>cd_enc = (\<lambda>rq. Inr (Inl rq)),
      cd_dec = (\<lambda>b k. case b of
                  Inl rq \<Rightarrow> if kind_of rq = k then Inr rq else Inl (ExtError ''proto: wrong type'')
                | Inr _ \<Rightarrow> Inl (ExtError ''proto: wrong type'')),
      cd_encR = (\<lambda>rp. Inr (Inr rp)),
      cd_decR = (\<lambda>b k. case b of
                   Inr rp \<Rightarrow> if reply_kind_of rp = k then Inr rp else Inl (ExtError ''proto: wrong type'')
                 | Inl _ \<Rightarrow> Inl (ExtError ''proto: wrong type''))\<rparr>"

definition direct_invoke :: "'st service list \<Rightarrow> 'st invoke" where
  "direct_invoke svcs path rq k st =
     (case map_of (routes svcs) path of
        None \<Rightarrow> (Fail (GrpcStatus CodeUnimplemented ''unknown method''), st)
      | Some h \<Rightarrow>
          (case h (cd_dec direct_codec (Inl rq)) None st of
             (Ret rp, st') \<Rightarrow>
               (if reply_kind_of rp = k then Ret rp else Fail (ExtError ''proto: wrong type''), st')
           | (Fail e, st') \<Rightarrow> (Fail e, st')
           | (Panic, st') \<Rightarrow> (Fail (GrpcStatus CodeUnavailable ''transport is closing''), st')
           | (Block, st') \<Rightarrow> (Fail (GrpcStatus CodeDeadlineExceeded ''context deadline exceeded''), st')))"

lemma same_reply_refl [simp]: "same_reply rp rp"
proof (cases rp)
  case (RpInfo x)
  then show ?thesis by (cases x) simp_all
qed simp_all

lemma direct_codec_ok: "codec_ok direct_codec"
  by (simp add: codec_ok_def direct_codec_def)

lemma routes_mem:
  "(path, h) \<in> set (routes svcs) \<longleftrightarrow>
   (\<exists>svc \<in> set svcs. \<exists>(m, h') \<in> set (sd_Methods svc). path = full_name (sd_ServiceName svc) m \<and> h = h')"
  by (force simp: routes_def)

lemma direct_transport_ok: "transport_ok direct_codec svcs (direct_invoke svcs)"
  unfolding transport_ok_def
proof (intro allI impI)
  fix path rq k st r st'
  assume call: "direct_invoke svcs path rq k st = (r, st')"
  show "(st' = st \<and> (\<exists>e. r = Fail e)) \<or>
        (\<exists>svc \<in> set svcs. \<exists>(m, h) \<in> set (sd_Methods svc).
           path = full_name (sd_ServiceName svc) m \<and> delivered direct_codec h rq k st r st')"
  proof (cases "map_of (routes svcs) path")
    case None
    then show ?thesis using call by (auto simp: direct_invoke_def)
  next
    case (Some h)
    obtain r1 st1 where h: "h (cd_dec direct_codec (Inl rq)) None st = (r1, st1)"
      by (cases "h (cd_dec direct_codec (Inl rq)) None st")
    have "delivered direct_codec h rq k st r st'"
      using call Some h
      by (cases r1) (auto simp: direct_invoke_def delivered_def direct_codec_def split: if_splits)
    then show ?thesis using map_of_SomeD [OF Some] unfolding routes_mem by blast
  qed
qed

text \<open>A server that counts its calls, to see the promises kept.\<close>

definition counting_ping :: "nat PingServiceServer" where
  "counting_ping = \<lparr>ps_Ping = (\<lambda>k. (Ret (RpPid 7), Suc k))\<rparr>"

definition counting_control :: "(nat, unit) ControlServiceServer" where
  "counting_control =
     UnimplementedControlServiceServer
       \<lparr>cs_URIs := (\<lambda>k. (Ret (RpUris [show_nat k]), Suc k)),
        cs_Stop := (\<lambda>k. (Fail ErrNotBootstrapped, k))\<rparr>"

lemma counting_typed: "typed_server counting_ping counting_control"
  unfolding typed_server_def
proof (intro allI impI)
  fix rq st rp st'
  assume "server_method counting_ping counting_control rq st = (Ret rp, st')"
  then show "reply_kind_of rp = stub_reply rq"
    by (cases rq) (auto simp: counting_ping_def counting_control_def UnimplementedControlServiceServer_def)
qed

lemma counting_call:
  "client_stub (direct_invoke (registered counting_ping counting_control)) RqURIs 4 =
     (Ret (RpUris [show_nat 4]), 5)"
  by (simp add: controlServiceClient_URIs_def stub_eq direct_invoke_def routes_eq handler_defs
      unary_handler_def direct_codec_def counting_control_def)

lemma stub_reaches_method_witness:
  "\<exists>rp. server_method counting_ping counting_control RqURIs 4 = (Ret rp, 5) \<and>
     same_reply rp (RpUris [show_nat 4])"
  using stub_reaches_method [OF direct_codec_ok direct_transport_ok counting_typed counting_call] by auto

end
