(* ===== verification/Remote.thy ===== *)
theory Remote
  imports Client Grpc_Props Session_Ok
begin

text \<open>
  The client and the server together: the contract of a cluster service as a client needs it, what
  follows for its users, and that the server keeps the contract, asked directly and through the
  generated code and the gRPC library.
\<close>

section \<open>The contract\<close>

text \<open>
  A call may be lost before or after the server has served it; otherwise it is a step of the
  abstract cluster.
\<close>

definition remote_step ::
  "(string \<Rightarrow> nat) \<Rightarrow> cluster \<Rightarrow> request \<Rightarrow> reply outcome \<Rightarrow> cluster \<Rightarrow> bool" where
  "remote_step d A rq r A' \<longleftrightarrow>
     spec_step d A rq r A' \<or> (\<exists>e. r = Fail e) \<and> (A' = A \<or> (\<exists>r0. spec_step d A rq r0 A'))"

fun remote_run ::
  "(string \<Rightarrow> nat) \<Rightarrow> cluster \<Rightarrow> request list \<Rightarrow> reply outcome list \<Rightarrow> cluster \<Rightarrow> bool" where
  "remote_run d A [] [] A' = (A' = A)"
| "remote_run d A (rq # rqs) (r # rs) A' = (\<exists>B. remote_step d A rq r B \<and> remote_run d B rqs rs A')"
| "remote_run d A _ _ A' = False"

locale cluster_service =
  fixes call :: "request \<Rightarrow> 'st meth"
    and inv :: "'st \<Rightarrow> bool"
    and abs :: "'st \<Rightarrow> cluster"
    and ok :: "request \<Rightarrow> bool"
    and d :: "string \<Rightarrow> nat"
  assumes call_inv: "inv st \<Longrightarrow> ok rq \<Longrightarrow> inv (snd (call rq st))"
    and call_step: "inv st \<Longrightarrow> ok rq \<Longrightarrow>
      remote_step d (abs st) rq (fst (call rq st)) (abs (snd (call rq st)))"
begin

fun calls :: "request list \<Rightarrow> 'st \<Rightarrow> reply outcome list \<times> 'st" where
  "calls [] st = ([], st)"
| "calls (rq # rqs) st =
     (let (r, st) = call rq st; (rs, st) = calls rqs st in (r # rs, st))"

lemma calls_run:
  assumes "inv st" and "list_all ok rqs" and "calls rqs st = (rs, st')"
  shows "inv st'" and "remote_run d (abs st) rqs rs (abs st')"
proof -
  have "inv st' \<and> remote_run d (abs st) rqs rs (abs st')"
    using assms
  proof (induction rqs arbitrary: st rs)
    case Nil
    then show ?case by simp
  next
    case (Cons rq rqs)
    obtain r st1 where c: "call rq st = (r, st1)" by (cases "call rq st")
    obtain rs1 where rs: "calls rqs st1 = (rs1, st')" "rs = r # rs1"
      using Cons.prems(3) c by (auto split: prod.splits)
    have "inv st1" "remote_step d (abs st) rq r (abs st1)"
      using call_inv [of st rq] call_step [of st rq] Cons.prems(1,2) c by simp_all
    then show ?case using Cons.IH [of st1 rs1] Cons.prems(2) rs by auto
  qed
  then show "inv st'" and "remote_run d (abs st) rqs rs (abs st')" by blast+
qed

lemma start_returns:
  assumes "remote_step d A (RqStart req) (Ret rp) A'"
  shows "A = Down" and "A' = Up (node_name ` {..<d (sr_ExecPath req)})"
    and "\<exists>x. rp = RpInfo (Some x) \<and> ci_NodeNames x = [] \<and> \<not> ci_Healthy x"
  using assms by (cases A; auto simp: remote_step_def split: reply.splits option.splits)+

lemma up_returns:
  assumes "remote_step d (Up S) rq (Ret rp) A'"
  shows "rq = RqHealth \<Longrightarrow> A' = Up S \<and> (\<exists>x. rp = RpInfo (Some x) \<and> info_complete S x)"
    and "rq = RqStatus \<Longrightarrow> A' = Up S \<and> (\<exists>x. rp = RpInfo (Some x))"
    and "rq = RqURIs \<Longrightarrow> A' = Up S \<and> (\<exists>us. rp = RpUris us \<and> sorted us \<and> (us = [] \<or> length us = card S))"
    and "rq = RqRemove y \<Longrightarrow> rm_Name y \<in> S \<and> A' = Up (S - {rm_Name y}) \<and>
           (\<exists>x. rp = RpInfo (Some x) \<and> info_complete (S - {rm_Name y}) x)"
    and "rq = RqRestart z \<Longrightarrow> rr_Name z \<in> S \<and> A' = Up S \<and>
           (\<exists>x. rp = RpInfo (Some x) \<and> keys (ci_NodeInfos x) = S)"
    and "rq = RqStop \<Longrightarrow> A' = Down \<and> (\<exists>x. rp = RpInfo (Some x) \<and> \<not> ci_Healthy x)"
  using assms by (auto simp: remote_step_def split: reply.splits option.splits if_splits)

end

text \<open>
  What a client may expect of the addresses: a health request that returns has published the nodes it
  replies with, and the addresses and the status asked for after that are those of these nodes.
\<close>

definition addresses :: "(string, NodeInfo) gomap \<Rightarrow> string list" where
  "addresses m = sort (map (\<lambda>(x, ni). ni_Uri ni) m)"

locale address_service = cluster_service call inv abs ok d
  for call :: "request \<Rightarrow> 'st meth" and inv :: "'st \<Rightarrow> bool" and abs :: "'st \<Rightarrow> cluster"
    and ok :: "request \<Rightarrow> bool" and d :: "string \<Rightarrow> nat" +
  fixes published :: "'st \<Rightarrow> (string, NodeInfo) gomap \<Rightarrow> bool"
  assumes health_publishes: "inv st \<Longrightarrow> call RqHealth st = (Ret (RpInfo (Some x)), st') \<Longrightarrow>
      published st' (ci_NodeInfos x)"
    and uris_published: "inv st \<Longrightarrow> published st m \<Longrightarrow> call RqURIs st = (Ret (RpUris us), st') \<Longrightarrow>
      published st' m \<and> us = addresses m"
    and status_published: "inv st \<Longrightarrow> published st m \<Longrightarrow> call RqStatus st = (Ret (RpInfo (Some x)), st') \<Longrightarrow>
      mset (ci_NodeInfos x) = mset m"
begin

text \<open>The requests of the end-to-end test: a cluster is started, used and stopped.\<close>

lemma workflow:
  assumes "inv st" and "list_all ok rqs"
    and "rqs = [RqStart req, RqHealth, RqURIs, RqStatus, RqRemove y, RqRestart z, RqStop]"
    and "calls rqs st = (map Ret [r1, r2, r3, r4, r5, r6, r7], st')"
  shows "abs st = Down \<and> abs st' = Down \<and>
    (\<exists>S x1 x2 x4 x5 x6 x7. S = node_name ` {..<d (sr_ExecPath req)} \<and>
       r1 = RpInfo (Some x1) \<and> ci_NodeNames x1 = [] \<and> \<not> ci_Healthy x1 \<and>
       r2 = RpInfo (Some x2) \<and> info_complete S x2 \<and>
       r3 = RpUris (addresses (ci_NodeInfos x2)) \<and>
       r4 = RpInfo (Some x4) \<and> mset (ci_NodeInfos x4) = mset (ci_NodeInfos x2) \<and>
       r5 = RpInfo (Some x5) \<and> rm_Name y \<in> S \<and> info_complete (S - {rm_Name y}) x5 \<and>
       r6 = RpInfo (Some x6) \<and> rr_Name z \<in> S - {rm_Name y} \<and> keys (ci_NodeInfos x6) = S - {rm_Name y} \<and>
       r7 = RpInfo (Some x7) \<and> \<not> ci_Healthy x7)"
proof -
  obtain s1 s2 s3 s4 s5 s6 where c: "call (RqStart req) st = (Ret r1, s1)" "call RqHealth s1 = (Ret r2, s2)"
      "call RqURIs s2 = (Ret r3, s3)" "call RqStatus s3 = (Ret r4, s4)" "call (RqRemove y) s4 = (Ret r5, s5)"
      "call (RqRestart z) s5 = (Ret r6, s6)" "call RqStop s6 = (Ret r7, st')"
    using assms(4) unfolding assms(3) by (auto split: prod.splits)
  have oks: "ok (RqStart req)" "ok RqHealth" "ok RqURIs" "ok RqStatus" "ok (RqRemove y)" "ok (RqRestart z)" "ok RqStop"
    using assms(2) unfolding assms(3) by simp_all
  have step: "inv a \<Longrightarrow> ok rq \<Longrightarrow> call rq a = (r, b) \<Longrightarrow> inv b \<and> remote_step d (abs a) rq r (abs b)" for a b rq r
    using call_inv [of a rq] call_step [of a rq] by simp
  note 1 = step [OF assms(1) oks(1) c(1)] note 2 = step [OF conjunct1 [OF 1] oks(2) c(2)]
  note 3 = step [OF conjunct1 [OF 2] oks(3) c(3)] note 4 = step [OF conjunct1 [OF 3] oks(4) c(4)]
  note 5 = step [OF conjunct1 [OF 4] oks(5) c(5)] note 6 = step [OF conjunct1 [OF 5] oks(6) c(6)]
  note 7 = step [OF conjunct1 [OF 6] oks(7) c(7)]
  define S where "S = node_name ` {..<d (sr_ExecPath req)}"
  note st = start_returns [OF conjunct2 [OF 1]]
  obtain x1 where x1: "r1 = RpInfo (Some x1)" "ci_NodeNames x1 = []" "\<not> ci_Healthy x1" using st(3) by blast
  have a1: "abs s1 = Up S" using st(2) by (simp add: S_def)
  obtain x2 where x2: "abs s2 = Up S" "r2 = RpInfo (Some x2)" "info_complete S x2"
    using up_returns(1) [OF conjunct2 [OF 2, unfolded a1]] by blast
  have pub: "published s2 (ci_NodeInfos x2)"
    using health_publishes conjunct1 [OF 1] c(2) x2(2) by blast
  obtain us where us: "abs s3 = Up S" "r3 = RpUris us"
    using up_returns(3) [OF conjunct2 [OF 3, unfolded x2(1)]] by blast
  have pub3: "published s3 (ci_NodeInfos x2)" "us = addresses (ci_NodeInfos x2)"
    using uris_published [OF conjunct1 [OF 2] pub] c(3) us(2) by blast+
  obtain x4 where x4: "abs s4 = Up S" "r4 = RpInfo (Some x4)"
    using up_returns(2) [OF conjunct2 [OF 4, unfolded us(1)]] by blast
  have m4: "mset (ci_NodeInfos x4) = mset (ci_NodeInfos x2)"
    using status_published [OF conjunct1 [OF 3] pub3(1)] c(4) x4(2) by blast
  obtain x5 where x5: "abs s5 = Up (S - {rm_Name y})" "r5 = RpInfo (Some x5)" "rm_Name y \<in> S"
      "info_complete (S - {rm_Name y}) x5"
    using up_returns(4) [OF conjunct2 [OF 5, unfolded x4(1)]] by blast
  obtain x6 where x6: "abs s6 = Up (S - {rm_Name y})" "r6 = RpInfo (Some x6)" "rr_Name z \<in> S - {rm_Name y}"
      "keys (ci_NodeInfos x6) = S - {rm_Name y}"
    using up_returns(5) [OF conjunct2 [OF 6, unfolded x5(1)]] by blast
  obtain x7 where x7: "abs st' = Down" "r7 = RpInfo (Some x7)" "\<not> ci_Healthy x7"
    using up_returns(6) [OF conjunct2 [OF 7, unfolded x6(1)]] by blast
  have r3: "r3 = RpUris (addresses (ci_NodeInfos x2))" using us(2) pub3(2) by simp
  show ?thesis
    by (rule conjI [OF st(1) conjI [OF x7(1)]], rule exI [of _ S], rule exI [of _ x1], rule exI [of _ x2],
        rule exI [of _ x4], rule exI [of _ x5], rule exI [of _ x6], rule exI [of _ x7], intro conjI)
       (rule S_def x1 x2(2,3) r3 x4(2) m4 x5(2-4) x6(2-4) x7(2,3))+
qed

end

section \<open>The server keeps the contract\<close>

text \<open>
  The server, with what the scheduler decides for the \<open>k\<close>-th call: the state is the session and the
  number of calls so far.
\<close>

definition scheduled :: "'nw ext \<Rightarrow> (nat \<Rightarrow> call_env) \<Rightarrow> request \<Rightarrow> ('nw session \<times> nat) meth" where
  "scheduled E cs rq st =
     (case serve E (cs (snd st)) rq (fst st) of (r, ss) \<Rightarrow> (r, (ss, Suc (snd st))))"

definition service_inv ::
  "'nw ext \<Rightarrow> (nat \<Rightarrow> call_env) \<Rightarrow> ('nw \<Rightarrow> string set) \<Rightarrow> 'nw session \<times> nat \<Rightarrow> bool" where
  "service_inv E cs nms st \<longleftrightarrow>
     session_ok nms (fst st) \<and> network_laws E nms \<and> boots E \<and> (\<forall>k. env_ok (cs k))"

abbreviation service_abs :: "'nw session \<times> nat \<Rightarrow> cluster" where
  "service_abs st \<equiv> abs_cluster (se_srv (fst st))"

lemma scheduled_ok:
  assumes "service_inv E cs nms st" and "request_ok E rq" and "scheduled E cs rq st = (r, st')"
  shows "answered r" and "service_inv E cs nms st'"
    and "spec_step (defaults E) (service_abs st) rq r (service_abs st')"
proof -
  obtain ss' where s: "serve E (cs (snd st)) rq (fst st) = (r, ss')" "st' = (ss', Suc (snd st))"
    using assms(3) by (auto simp: scheduled_def split: prod.splits)
  have inv: "session_ok nms (fst st)" "network_laws E nms" "boots E" "\<forall>k. env_ok (cs k)"
    using assms(1) by (simp_all add: service_inv_def)
  note ok = serve_ok [OF inv(1,2) spec [OF inv(4), of "snd st"] inv(3) assms(2) s(1)]
  show "answered r" by (rule ok(1))
  show "service_inv E cs nms st'" using ok(2) inv s(2) by (simp add: service_inv_def)
  show "spec_step (defaults E) (service_abs st) rq r (service_abs st')" using ok(3) s(2) by simp
qed

interpretation serving: cluster_service "scheduled E cs" "service_inv E cs nms" service_abs "request_ok E" "defaults E"
proof unfold_locales
  fix st :: "'a session \<times> nat" and rq
  assume a: "service_inv E cs nms st" "request_ok E rq"
  show "service_inv E cs nms (snd (scheduled E cs rq st))"
    using scheduled_ok(2) [OF a, of "fst (scheduled E cs rq st)" "snd (scheduled E cs rq st)"] by simp
  show "remote_step (defaults E) (service_abs st) rq (fst (scheduled E cs rq st))
      (service_abs (snd (scheduled E cs rq st)))"
    using scheduled_ok(3) [OF a, of "fst (scheduled E cs rq st)" "snd (scheduled E cs rq st)"]
    by (simp add: remote_step_def)
qed

text \<open>The nodes the cluster information shows.\<close>

definition shows_map :: "'nw server \<Rightarrow> (string, NodeInfo) gomap \<Rightarrow> bool" where
  "shows_map s m \<longleftrightarrow>
     (\<exists>i n. sv_clusterInfo s = Some i \<and> sv_network s = Some n \<and> i < length (sv_infos s) \<and>
        ci_NodeInfos (info_at s i) = Some (ln_nodeInfos (net s n)) \<and> mset (net_map s n) = mset m)"

abbreviation service_shows :: "'nw session \<times> nat \<Rightarrow> (string, NodeInfo) gomap \<Rightarrow> bool" where
  "service_shows st \<equiv> shows_map (se_srv (fst st))"

lemma shows_map_wire:
  "shows_map s m \<Longrightarrow> \<exists>i. sv_clusterInfo s = Some i \<and> mset (ci_NodeInfos (wire s i)) = mset m"
  by (auto simp: shows_map_def wire_def map_at_def net_map_def Let_def)

lemma settle_shows:
  assumes "settle ss = (r, ss')" and "shows_map (se_srv ss) m"
  shows "shows_map (se_srv ss') m"
proof -
  have "shows_map s1 m" if "watch_ready (se_srv ss) = (r1, s1)" for r1 s1
    using that assms(2) by (auto simp: watch_ready_def shows_map_def)
  then show ?thesis
    using assms by (auto simp: settle_def Let_def split: option.splits if_splits prod.splits)
qed

lemma map_outcome_Ret: "map_outcome f r = Ret y \<longleftrightarrow> (\<exists>x. r = Ret x \<and> y = f x)"
  by (cases r) auto

lemma serve_handled:
  assumes "serve E c rq ss = (Ret rp, ss')"
  obtains ss1 r2 where "handle E c rq ss = (Ret rp, ss1)" and "settle ss1 = (r2, ss')"
  using assms by (auto simp: serve_def split: prod.splits if_splits outcome.splits)

lemma Health_shows:
  assumes "cluster_ok nms s" and "network_laws E nms" and "env_ok c" and "Health E c s = (Ret j, s')"
  shows "\<exists>i. j = Some i \<and> shows_map s' (ci_NodeInfos (wire s' i))"
proof -
  obtain n s1 where e: "health_enter s = Ret n" and w: "waitForHealthy E c n s = (Ret (), s1)"
      and h: "health_locked c s1 = (Ret j, s')"
    using assms(4) by (auto simp: Health_def split: and_then_split_asm)
  have n: "sv_network s = Some n"
    using e by (auto simp: health_enter_def split: option.splits if_splits)
  note wait = wait_ok [OF assms(1,2,3) n w]
  obtain i s2 where l: "health_locked c s1 = (Ret (Some i), s2)" "cluster_ok nms s2" "sv_clusterInfo s1 = Some i"
      "ci_NodeInfos (info_at s2 i) = Some (ln_nodeInfos (net s1 n))" "sv_maps s2 = sv_maps s1"
    using health_locked_ok [OF wait(2,3) assms(3)] by auto
  have s2: "s2 = s'" "j = Some i" using l(1) h by simp_all
  have valid: "valid_net n s1" using store_okD(2) [OF _ wait(3)] wait(2) by (simp add: cluster_ok_def)
  have "sv_network s' = Some n" "sv_clusterInfo s' = Some i" "ln_nodeInfos (net s' n) = ln_nodeInfos (net s1 n)"
    using l(1,3) wait(3) s2 valid by (auto simp: health_locked_def Let_def split: option.splits)
  moreover have "i < length (sv_infos s')"
    using l(2) s2(1) calculation(2) by (simp add: cluster_ok_def store_ok_def)
  ultimately show ?thesis
    using l(4) s2 by (auto simp: shows_map_def wire_def map_at_def net_map_def Let_def)
qed

lemma reply_of_Ret:
  assumes "reply_of f H ss = (Ret rp, ss1)"
  shows "\<exists>x. fst H = Ret x \<and> rp = f x (snd H)" and "se_srv ss1 = snd H"
  using assms by (auto simp: reply_of_def map_outcome_Ret)

lemma serve_health_shows:
  assumes "service_inv E cs nms st" and "scheduled E cs RqHealth st = (Ret (RpInfo (Some x)), st')"
  shows "service_shows st' (ci_NodeInfos x)"
proof -
  obtain ss' where s: "serve E (cs (snd st)) RqHealth (fst st) = (Ret (RpInfo (Some x)), ss')" "st' = (ss', Suc (snd st))"
    using assms(2) by (auto simp: scheduled_def split: prod.splits)
  have inv: "session_ok nms (fst st)" "network_laws E nms" "env_ok (cs (snd st))"
    using assms(1) by (simp_all add: service_inv_def)
  obtain ss1 r2 where h: "handle E (cs (snd st)) RqHealth (fst st) = (Ret (RpInfo (Some x)), ss1)"
      and st: "settle ss1 = (r2, ss')"
    using s(1) by (rule serve_handled)
  obtain j where H: "Health E (cs (snd st)) (se_srv (fst st)) = (Ret j, se_srv ss1)" "marshal j (se_srv ss1) = RpInfo (Some x)"
    using reply_of_Ret [OF h [unfolded handle.simps]] by (metis prod.collapse)
  have "cluster_ok nms (se_srv (fst st))" using inv(1) by (simp add: session_ok_def)
  from Health_shows [OF this inv(2,3) H(1)] obtain i where
    i: "j = Some i" "shows_map (se_srv ss1) (ci_NodeInfos (wire (se_srv ss1) i))" by blast
  then have "x = wire (se_srv ss1) i" using H(2) by (simp add: marshal_def)
  then show ?thesis using settle_shows [OF st] i(2) s(2) by simp
qed

lemma addresses_mset: "mset m = mset m' \<Longrightarrow> addresses m = addresses m'"
  unfolding addresses_def by (metis mset_map sorted_list_of_multiset_mset)

lemma serve_uris_shows:
  assumes "service_inv E cs nms st" and "service_shows st m"
    and "scheduled E cs RqURIs st = (Ret (RpUris us), st')"
  shows "service_shows st' m \<and> us = addresses m"
proof -
  let ?c = "cs (snd st)" and ?s = "se_srv (fst st)"
  obtain ss' where s: "serve E ?c RqURIs (fst st) = (Ret (RpUris us), ss')" "st' = (ss', Suc (snd st))"
    using assms(3) by (auto simp: scheduled_def split: prod.splits)
  obtain ss1 r2 where h: "handle E ?c RqURIs (fst st) = (Ret (RpUris us), ss1)" and st: "settle ss1 = (r2, ss')"
    using s(1) by (rule serve_handled)
  obtain u where u: "URIs ?c ?s = Ret u" "us = ur_Uris u" and same: "se_srv ss1 = ?s"
    using reply_of_Ret [OF h [unfolded handle.simps]] by auto
  obtain i n where i: "sv_clusterInfo ?s = Some i" "ci_NodeInfos (info_at ?s i) = Some (ln_nodeInfos (net ?s n))"
      "mset (net_map ?s n) = mset m"
    using assms(2) unfolding shows_map_def by (elim exE conjE)
  have "mset (ce_infos ?c (net_map ?s n)) = mset (net_map ?s n)"
    using assms(1) by (simp add: service_inv_def env_ok_def visit_mset)
  then have "addresses (ce_infos ?c (net_map ?s n)) = addresses m" using i(3) by (intro addresses_mset) simp
  then have "us = addresses m"
    using u i(1,2)
    by (auto simp: URIs_def URIs_collect_def getClusterInfo_def Let_def map_at_def net_map_def addresses_def)
  then show ?thesis using settle_shows [OF st] assms(2) same s(2) by simp
qed

lemma serve_status_shows:
  assumes "service_shows st m" and "scheduled E cs RqStatus st = (Ret (RpInfo (Some x)), st')"
  shows "mset (ci_NodeInfos x) = mset m"
proof -
  let ?s = "se_srv (fst st)"
  obtain ss' where s: "serve E (cs (snd st)) RqStatus (fst st) = (Ret (RpInfo (Some x)), ss')"
    using assms(2) by (auto simp: scheduled_def split: prod.splits)
  obtain ss1 r2 where h: "handle E (cs (snd st)) RqStatus (fst st) = (Ret (RpInfo (Some x)), ss1)"
      and "settle ss1 = (r2, ss')"
    using s by (rule serve_handled)
  obtain j where "Status ?s = Ret j" "marshal (Some j) ?s = RpInfo (Some x)"
    using reply_of_Ret [OF h [unfolded handle.simps]] by auto
  moreover obtain i where "sv_clusterInfo ?s = Some i" "mset (ci_NodeInfos (wire ?s i)) = mset m"
    using shows_map_wire [OF assms(1)] by blast
  ultimately show ?thesis by (simp add: Status_def getClusterInfo_def marshal_def)
qed

interpretation direct: address_service "scheduled E cs" "service_inv E cs nms" service_abs "request_ok E" "defaults E"
  service_shows
  by unfold_locales (rule serve_health_shows serve_uris_shows serve_status_shows; assumption)+

section \<open>The server behind the generated code\<close>

text \<open>
  The methods of the server as the interfaces declare them; the stream of the last one is the list
  of its events, and it returns when the machine of the status stream has returned.
\<close>

definition server_ping :: "'nw ext \<Rightarrow> (nat \<Rightarrow> call_env) \<Rightarrow> ('nw session \<times> nat) PingServiceServer" where
  "server_ping E cs = \<lparr>ps_Ping = scheduled E cs RqPing\<rparr>"

definition server_stream ::
  "StreamStatusRequest \<Rightarrow> 'nw stream_event list \<Rightarrow> 'nw session \<times> nat \<Rightarrow> unit outcome \<times> ('nw session \<times> nat)" where
  "server_stream req evs st =
     (case StreamStatus req (se_srv (fst st)) of
        Fail e \<Rightarrow> (Fail e, st)
      | Ret s0 \<Rightarrow>
          (case stream_run evs s0 of
             Some s1 \<Rightarrow>
               (if sm_crashed s1 then Panic
                else (case sm_main s1 of
                        MRet None \<Rightarrow> Ret () | MRet (Some e) \<Rightarrow> Fail e | _ \<Rightarrow> Block), st)
           | None \<Rightarrow> (Block, st))
      | _ \<Rightarrow> (Panic, st))"

definition server_control ::
  "'nw ext \<Rightarrow> (nat \<Rightarrow> call_env) \<Rightarrow> ('nw session \<times> nat, 'nw stream_event list) ControlServiceServer" where
  "server_control E cs =
     \<lparr>cs_Start = (\<lambda>x. scheduled E cs (RqStart x)), cs_Health = scheduled E cs RqHealth,
      cs_URIs = scheduled E cs RqURIs, cs_Status = scheduled E cs RqStatus,
      cs_StreamStatus = server_stream, cs_RemoveNode = (\<lambda>x. scheduled E cs (RqRemove x)),
      cs_RestartNode = (\<lambda>x. scheduled E cs (RqRestart x)), cs_Stop = scheduled E cs RqStop\<rparr>"

lemma server_method_scheduled:
  "server_method (server_ping E cs) (server_control E cs) rq = scheduled E cs rq"
  by (cases rq) (simp_all add: server_ping_def server_control_def)

lemma handle_typed: "handle E c rq ss = (Ret rp, ss') \<Longrightarrow> reply_kind_of rp = stub_reply rq"
  by (cases rq)
     (auto simp: reply_of_def map_outcome_Ret marshal_def serve_start_def split: outcome.splits prod.splits)

lemma serve_typed: "serve E c rq ss = (Ret rp, ss') \<Longrightarrow> reply_kind_of rp = stub_reply rq"
  using handle_typed [of E c rq ss rp]
  by (auto simp: serve_def split: prod.splits if_splits outcome.splits)

lemma server_typed: "typed_server (server_ping E cs) (server_control E cs)"
  unfolding typed_server_def server_method_scheduled
  by (auto simp: scheduled_def dest: serve_typed split: prod.splits)

text \<open>Marshalling does not change what the abstract cluster says of a reply.\<close>

lemma same_info_complete: "same_info (Some x) (Some y) \<Longrightarrow> info_complete S x \<Longrightarrow> info_complete S y"
  unfolding info_complete_def by simp (metis set_mset_mset)

lemma same_info_partial:
  assumes "same_info (Some x) (Some y)" and "info_partial S x"
  shows "info_partial S y"
proof -
  have "set (ci_NodeInfos y) = set (ci_NodeInfos x)" "ci_NodeInfos y = [] \<longleftrightarrow> ci_NodeInfos x = []"
    using assms(1) mset_eq_setD [of "ci_NodeInfos y" "ci_NodeInfos x"] by (auto dest: sym)
  then show ?thesis
    using assms same_info_complete [OF assms(1), of S] by (auto simp: info_partial_def)
qed

lemma same_replyE:
  assumes "same_reply rp rp'"
  obtains "rp = rp'" | x y where "rp = RpInfo (Some x)" and "rp' = RpInfo (Some y)" and "same_info (Some x) (Some y)"
proof (cases rp)
  case (RpInfo i)
  show ?thesis
  proof (cases rp')
    case (RpInfo i')
    then show ?thesis using that assms \<open>rp = RpInfo i\<close> by (cases i; cases i') auto
  qed (use that assms RpInfo in auto)
qed (use that assms in \<open>cases rp'; auto\<close>)+

lemma same_info_fields:
  assumes "same_info (Some x) (Some y)"
  shows "ci_NodeNames y = ci_NodeNames x" and "ci_Healthy y = ci_Healthy x"
    and "keys (ci_NodeInfos y) = keys (ci_NodeInfos x)"
  using assms mset_eq_setD [of "ci_NodeInfos x" "ci_NodeInfos y"] by auto

lemma spec_step_same_reply:
  assumes "spec_step d A rq (Ret rp) A'" and "same_reply rp rp'"
  shows "spec_step d A rq (Ret rp') A'"
  using assms(2)
proof (cases rule: same_replyE)
  case 1
  then show ?thesis using assms(1) by simp
next
  case (2 x y)
  note f = same_info_fields [OF 2(3)] and c = same_info_complete [OF 2(3)] and p = same_info_partial [OF 2(3)]
  show ?thesis
    using assms(1) 2(1,2) f c p
    by (cases "(d, A, rq, Ret rp, A')" rule: spec_step.cases) (auto split: if_splits)
qed

text \<open>The contract through the stubs, the library and the handlers.\<close>

definition remote_inv ::
  "'nw ext \<Rightarrow> (nat \<Rightarrow> call_env) \<Rightarrow> ('nw \<Rightarrow> string set) \<Rightarrow> 'b codec \<Rightarrow> ('nw session \<times> nat) invoke \<Rightarrow>
   'nw session \<times> nat \<Rightarrow> bool" where
  "remote_inv E cs nms C invoke st \<longleftrightarrow>
     service_inv E cs nms st \<and> codec_ok C \<and>
     transport_ok C (registered (server_ping E cs) (server_control E cs)) invoke"

lemma remote_ok:
  assumes "remote_inv E cs nms C invoke st" and "request_ok E rq" and "client_stub invoke rq st = (r, st')"
  shows "answered r" and "remote_inv E cs nms C invoke st'"
    and "remote_step (defaults E) (service_abs st) rq r (service_abs st')"
proof -
  have inv: "service_inv E cs nms st" "codec_ok C"
      "transport_ok C (registered (server_ping E cs) (server_control E cs)) invoke"
    using assms(1) by (simp_all add: remote_inv_def)
  consider (lost) e where "st' = st" "r = Fail e"
    | (served) r1 where "scheduled E cs rq st = (r1, st')"
        "(\<exists>e. r = Fail e) \<or> (\<exists>rp rp'. r1 = Ret rp \<and> same_reply rp rp' \<and> r = Ret rp')"
    using stub_reaches [OF inv(2,3) server_typed assms(3)] unfolding server_method_scheduled by blast
  then have "answered r \<and> service_inv E cs nms st' \<and>
      remote_step (defaults E) (service_abs st) rq r (service_abs st')"
  proof cases
    case lost
    then show ?thesis using inv(1) by (simp add: remote_step_def)
  next
    case served
    note ok = scheduled_ok [OF inv(1) assms(2) served(1)]
    show ?thesis
      using ok served(2) spec_step_same_reply [of "defaults E" "service_abs st" rq _ "service_abs st'"]
      by (auto simp: remote_step_def)
  qed
  then show "answered r" and "remote_inv E cs nms C invoke st'"
    and "remote_step (defaults E) (service_abs st) rq r (service_abs st')"
    using inv by (simp_all add: remote_inv_def)
qed

interpretation remote: cluster_service
  "client_stub invoke" "remote_inv E cs nms C invoke" service_abs "request_ok E" "defaults E"
proof unfold_locales
  fix st :: "'a session \<times> nat" and rq
  assume a: "remote_inv E cs nms C invoke st" "request_ok E rq"
  note ok = remote_ok [OF a, of "fst (client_stub invoke rq st)" "snd (client_stub invoke rq st)"]
  show "remote_inv E cs nms C invoke (snd (client_stub invoke rq st))" using ok(2) by simp
  show "remote_step (defaults E) (service_abs st) rq (fst (client_stub invoke rq st))
      (service_abs (snd (client_stub invoke rq st)))"
    using ok(3) by simp
qed

text \<open>The addresses through the stubs.\<close>

lemma shows_same: "shows_map s m \<Longrightarrow> mset m = mset m' \<Longrightarrow> shows_map s m'"
  by (auto simp: shows_map_def)

lemma remote_served:
  assumes "remote_inv E cs nms C invoke st" and "client_stub invoke rq st = (Ret rp', st')"
  obtains rp where "scheduled E cs rq st = (Ret rp, st')" and "same_reply rp rp'"
  using stub_reaches [OF _ _ server_typed assms(2)] assms(1)
  unfolding server_method_scheduled remote_inv_def by fastforce

interpretation remote_addresses: address_service
  "client_stub invoke" "remote_inv E cs nms C invoke" service_abs "request_ok E" "defaults E" service_shows
proof unfold_locales
  fix st st' :: "'a session \<times> nat" and x
  assume inv: "remote_inv E cs nms C invoke st"
    and call: "client_stub invoke RqHealth st = (Ret (RpInfo (Some x)), st')"
  obtain rp where rp: "scheduled E cs RqHealth st = (Ret rp, st')" "same_reply rp (RpInfo (Some x))"
    using inv call by (rule remote_served)
  obtain y where "rp = RpInfo (Some y)" "mset (ci_NodeInfos y) = mset (ci_NodeInfos x)"
    using rp(2) by (cases rule: same_replyE) auto
  then show "service_shows st' (ci_NodeInfos x)"
    using serve_health_shows [of E cs nms st y st'] inv rp(1) shows_same unfolding remote_inv_def by blast
next
  fix st st' :: "'a session \<times> nat" and m us
  assume inv: "remote_inv E cs nms C invoke st" and m: "service_shows st m"
    and call: "client_stub invoke RqURIs st = (Ret (RpUris us), st')"
  obtain rp where rp: "scheduled E cs RqURIs st = (Ret rp, st')" "same_reply rp (RpUris us)"
    using inv call by (rule remote_served)
  from rp(2) have "rp = RpUris us" by (cases rule: same_replyE) auto
  then show "service_shows st' m \<and> us = addresses m"
    using serve_uris_shows [of E cs nms st m us st'] inv rp(1) m unfolding remote_inv_def by blast
next
  fix st st' :: "'a session \<times> nat" and m x
  assume inv: "remote_inv E cs nms C invoke st" and m: "service_shows st m"
    and call: "client_stub invoke RqStatus st = (Ret (RpInfo (Some x)), st')"
  obtain rp where rp: "scheduled E cs RqStatus st = (Ret rp, st')" "same_reply rp (RpInfo (Some x))"
    using inv call by (rule remote_served)
  obtain y where "rp = RpInfo (Some y)" "mset (ci_NodeInfos y) = mset (ci_NodeInfos x)"
    using rp(2) by (cases rule: same_replyE) auto
  then show "mset (ci_NodeInfos x) = mset m"
    using serve_status_shows [of st m E cs y st'] m rp(1) by simp
qed

end
