(* ===== verification/Success.thy ===== *)
theory Success
  imports Session_Ok
begin

text \<open>
  When requests succeed: as long as the libraries do not fail, a request is answered with a reply
  and not with an error exactly when it makes sense in the state of the abstract cluster.
\<close>

section \<open>Libraries that do not fail\<close>

text \<open>
  A node the network holds can be removed, a node it does not hold can be added, and all other
  calls succeed.
\<close>

definition helpful :: "'nw ext \<Rightarrow> ('nw \<Rightarrow> string set) \<Rightarrow> bool" where
  "helpful E nms \<longleftrightarrow>
     x_DefaultConfig E = None \<and> (\<forall>dir. x_MakeLogger E dir = None) \<and> boots E \<and>
     (\<forall>nw. \<exists>nodes. x_GetAllNodes E nw = Inr nodes) \<and>
     (\<forall>x nw. x \<in> nms nw \<longrightarrow> fst (x_RemoveNode E x nw) = None) \<and>
     (\<forall>cfg nw. nc_Name cfg \<notin> nms nw \<longrightarrow> fst (x_AddNode E cfg nw) = None)"

text \<open>The nodes report healthy in time, and a temporary directory can be made.\<close>

definition kind_env :: "call_env \<Rightarrow> bool" where
  "kind_env c \<longleftrightarrow> env_ok c \<and> ce_event c = HReport None \<and> (\<exists>dir. ce_tempdir c = Inr dir)"

text \<open>The running network holds exactly the nodes of the map.\<close>

definition exact :: "('nw \<Rightarrow> string set) \<Rightarrow> 'nw server \<Rightarrow> bool" where
  "exact nms s \<longleftrightarrow>
     (\<forall>n. sv_network s = Some n \<longrightarrow>
        (\<exists>nw. ln_nw (net s n) = Some nw \<and> nms nw = keys (net_map s n)))"

lemma exactI:
  "sv_network s = Some n \<Longrightarrow> ln_nw (net s n) = Some nw \<Longrightarrow> nms nw = keys (net_map s n) \<Longrightarrow> exact nms s"
  by (simp add: exact_def)

lemma exactE:
  assumes "exact nms s" and "sv_network s = Some n"
  obtains nw where "ln_nw (net s n) = Some nw" and "nms nw = keys (net_map s n)"
  using assms by (auto simp: exact_def)

lemma exact_Down [simp]: "sv_network s = None \<Longrightarrow> exact nms s"
  by (simp add: exact_def)

section \<open>The handlers\<close>

lemma wait_success:
  assumes "cluster_ok nms s" and "network_laws E nms" and "helpful E nms" and "kind_env c"
    and "sv_network s = Some n" and "exact nms s"
  obtains s' where "waitForHealthy E c n s = (Ret (), s')" and "cluster_ok nms s'" and "exact nms s'"
    and "sv_network s' = Some n" and "sv_clusterInfo s' = sv_clusterInfo s"
    and "ln_cfg (net s' n) = ln_cfg (net s n)"
proof -
  obtain r s' where w: "waitForHealthy E c n s = (r, s')" by (cases "waitForHealthy E c n s")
  have env: "env_ok c" using assms(4) by (simp add: kind_env_def)
  note ok = wait_ok [OF assms(1,2) env assms(5) w]
  have valid: "valid_net n s" using assms(1,5) by (auto simp: cluster_ok_def dest: store_okD(2))
  obtain nw where nw: "ln_nw (net s n) = Some nw" "nms nw = keys (net_map s n)"
    using assms(6,5) by (rule exactE)
  obtain nodes where nodes: "x_GetAllNodes E nw = Inr nodes"
    using assms(3) unfolding helpful_def by blast
  have "r = Ret ()"
    using w nw nodes network_lawsD(2) [OF assms(2) nodes] env assms(4)
    by (simp add: waitForHealthy_eq [OF valid] env_ok_def kind_env_def)
  moreover have "exact nms s'"
    using ok(3,6) nw map_frame_keys [of "net_map s n" "net_map s' n"]
    by (intro exactI [of _ n nw]) (simp_all add: wait_frame_def net_frame_def)
  moreover have "ln_cfg (net s' n) = ln_cfg (net s n)"
    using ok(6) by (simp add: wait_frame_def net_frame_def)
  ultimately show thesis using that w ok by blast
qed

lemma up_fields:
  assumes "cluster_ok nms s" and "abs_cluster s = Up S"
  obtains i n where "sv_clusterInfo s = Some i" and "sv_network s = Some n"
    and "S = keys (net_map s n)" and "valid_net n s" and "running nms n s" and "i < length (sv_infos s)"
proof -
  obtain n where n: "sv_network s = Some n" "S = keys (net_map s n)"
    using assms(2) by (auto simp: abs_cluster_def split: option.splits)
  then obtain i where i: "sv_clusterInfo s = Some i"
    using assms(1) by (cases "sv_clusterInfo s") (auto simp: cluster_ok_def store_ok_def)
  then show thesis using that n cluster_ok_live [OF assms(1) i] by (metis option.inject)
qed

lemma Health_success:
  assumes "cluster_ok nms s" and "network_laws E nms" and "helpful E nms" and "kind_env c"
    and "exact nms s" and "abs_cluster s = Up S" and "Health E c s = (r, s')"
  shows "(\<exists>j. r = Ret j) \<and> exact nms s'"
proof -
  obtain i n where f: "sv_clusterInfo s = Some i" "sv_network s = Some n"
    using up_fields [OF assms(1,6)] by metis
  obtain s1 where w: "waitForHealthy E c n s = (Ret (), s1)" "cluster_ok nms s1" "exact nms s1"
      "sv_network s1 = Some n" "sv_clusterInfo s1 = sv_clusterInfo s"
    using wait_success [OF assms(1-4) f(2) assms(5)] by metis
  have valid: "valid_net n s1" using w(2,4) by (auto simp: cluster_ok_def dest: store_okD(2))
  obtain nw where "ln_nw (net s1 n) = Some nw" "nms nw = keys (net_map s1 n)"
    using w(3,4) by (rule exactE)
  then have "exact nms (publish_nodes i n (refresh_names c n s1))"
    using w(4) valid by (intro exactI [of _ n nw]) simp_all
  moreover have "health_locked c s1 = (Ret (Some i), publish_nodes i n (refresh_names c n s1))"
    using w(4,5) f by (simp add: health_locked_def Let_def)
  ultimately show ?thesis
    using assms(7) f w(1) by (auto simp: Health_def health_enter_def getClusterInfo_def)
qed

lemma remove_locked_success:
  assumes "cluster_ok nms s" and "network_laws E nms" and "helpful E nms" and "exact nms s"
    and "sv_network s = Some n" and "sv_clusterInfo s = Some i" and "x \<in> keys (net_map s n)"
  shows "\<exists>s'. remove_locked E c x s = (Ret n, s') \<and> exact nms s' \<and> sv_network s' = Some n"
proof -
  have valid: "valid_net n s" using assms(1,5) by (auto simp: cluster_ok_def dest: store_okD(2))
  obtain nw where nw: "ln_nw (net s n) = Some nw" "nms nw = keys (net_map s n)"
    using assms(4,5) by (rule exactE)
  obtain nw' where rem: "x_RemoveNode E x nw = (None, nw')"
    using assms(3,7) nw(2) unfolding helpful_def by (metis prod.collapse)
  have nms': "nms nw' = keys (net_map s n) - {x}"
    using network_lawsD(3) [OF assms(2) rem] nw(2) by simp
  obtain ni where ni: "map_of (net_map s n) x = Some ni" using map_of_keys_Some [OF assms(7)] by blast
  define s1 where "s1 = set_nw n nw' s"
  define s2 where "s2 = upd_map (ln_nodeInfos (net s1 n)) (AList.delete x) s1"
  have v1: "valid_net n s1" using valid by (simp add: s1_def)
  have v2: "valid_net n s2" using v1 by (simp add: s2_def)
  have map2: "net_map s2 n = AList.delete x (net_map s n)"
    using net_map_upd_map [OF v1, of "AList.delete x"] by (simp add: s2_def s1_def)
  have "exact nms (publish_nodes i n (refresh_names c n s2))"
    using assms(5) v2 nms' map2 valid
    by (intro exactI [of _ n nw']) (simp_all add: s2_def s1_def)
  moreover have "remove_locked E c x s = (Ret n, publish_nodes i n (refresh_names c n s2))"
    using assms(5,6) ni nw(1) rem by (simp add: remove_locked_def Let_def s1_def s2_def)
  moreover have "sv_network (publish_nodes i n (refresh_names c n s2)) = Some n"
    using assms(5) by (simp add: s2_def s1_def)
  ultimately show ?thesis by blast
qed

lemma RemoveNode_success:
  assumes "cluster_ok nms s" and "network_laws E nms" and "helpful E nms" and "kind_env c"
    and "exact nms s" and "abs_cluster s = Up S" and "RemoveNode E c req s = (r, s')"
    and "rm_Name req \<in> S"
  shows "(\<exists>j. r = Ret j) \<and> exact nms s'"
proof -
  obtain i n where f: "sv_clusterInfo s = Some i" "sv_network s = Some n" "S = keys (net_map s n)"
    using up_fields [OF assms(1,6)] by metis
  have env: "env_ok c" using assms(4) by (simp add: kind_env_def)
  obtain s1 where l: "remove_locked E c (rm_Name req) s = (Ret n, s1)" "exact nms s1" "sv_network s1 = Some n"
    using remove_locked_success [OF assms(1-3,5) f(2,1)] assms(8) f(3) by blast
  have "cluster_ok nms s1" using remove_locked_ok(2) [OF assms(1,2) env f(1,2) l(1)] .
  then obtain s2 where "waitForHealthy E c n s1 = (Ret (), s2)" "exact nms s2"
    using wait_success [OF _ assms(2-4) l(3,2)] by metis
  then show ?thesis using assms(7) f(1) l(1) by (auto simp: RemoveNode_def getClusterInfo_def)
qed

lemma restart_swap_success:
  assumes "network_laws E nms" and "helpful E nms" and "exact nms s" and "sv_network s = Some n"
    and "valid_net n s" and "x \<in> keys (net_map s n)" and "nc_Name cfg = x"
  shows "\<exists>s'. restart_swap E x n cfg s = (Ret (), s') \<and> exact nms s'"
proof -
  obtain nw where nw: "ln_nw (net s n) = Some nw" "nms nw = keys (net_map s n)"
    using assms(3,4) by (rule exactE)
  obtain nw1 where rem: "x_RemoveNode E x nw = (None, nw1)"
    using assms(2,6) nw(2) unfolding helpful_def by (metis prod.collapse)
  have n1: "nms nw1 = nms nw - {x}" using network_lawsD(3) [OF assms(1) rem] .
  then have "fst (x_AddNode E cfg nw1) = None" using assms(2,7) unfolding helpful_def by auto
  then obtain nw2 where add: "x_AddNode E cfg nw1 = (None, nw2)" by (metis prod.collapse)
  have "nms nw2 = keys (net_map s n)"
    using network_lawsD(5) [OF assms(1) add] n1 nw(2) assms(6,7) by auto
  then have "exact nms (set_nw n nw2 s)"
    using assms(4,5) by (intro exactI [of _ n nw2]) simp_all
  then show ?thesis using nw(1) rem add by (simp add: restart_swap_def)
qed

lemma exact_finish:
  assumes "cluster_ok nms s" and "exact nms s" and "sv_network s = Some n"
    and "restart_finish idx cfg s = (r, s')"
  shows "exact nms s'"
proof -
  have valid: "valid_net n s" using assms(1,3) by (auto simp: cluster_ok_def dest: store_okD(2))
  obtain nw where nw: "ln_nw (net s n) = Some nw" "nms nw = keys (net_map s n)"
    using assms(2,3) by (rule exactE)
  have "sv_network s' = Some n \<and> ln_nw (net s' n) = Some nw \<and> keys (net_map s' n) = keys (net_map s n)"
    using assms(3,4) nw(1) valid_netD(1) [OF valid]
    by (auto simp: restart_finish_def Let_def net_map_upd_net split: option.splits)
  then show ?thesis using nw(2) by (intro exactI [of _ n nw]) simp_all
qed

lemma RestartNode_success:
  assumes "cluster_ok nms s" and "network_laws E nms" and "helpful E nms" and "kind_env c"
    and "exact nms s" and "abs_cluster s = Up S" and "RestartNode E c req s = (r, s')"
    and "rr_Name req \<in> S" and "rr_StartRequest req = Some sr" and "sr_WhitelistedSubnets sr = Some ws"
  shows "(\<exists>j. r = Ret j) \<and> exact nms s'"
proof -
  obtain i n where f: "sv_clusterInfo s = Some i" "sv_network s = Some n" "S = keys (net_map s n)"
      "valid_net n s" "running nms n s"
    using up_fields [OF assms(1,6)] by metis
  have cfgs: "keys (net_map s n) \<subseteq> nc_Name ` set (ln_cfg (net s n))"
    using f(5) by (simp add: running_def)
  from f(2) refl cfgs have "\<exists>idx old. restart_find (rr_Name req) s = Ret (n, idx, old) \<and>
      idx < length (ln_cfg (net s n)) \<and> ln_cfg (net s n) ! idx = old \<and> nc_Name old = rr_Name req"
  proof (cases rule: restart_find_cases [where x = "rr_Name req"])
    case unknown
    then show ?thesis using assms(8) f(3) by simp
  qed auto
  then obtain idx old where find: "restart_find (rr_Name req) s = Ret (n, idx, old)"
      "idx < length (ln_cfg (net s n))" "ln_cfg (net s n) ! idx = old" "nc_Name old = rr_Name req" by blast
  obtain ni s1 where u: "restart_update req n s = (Ret ni, s1)" "cluster_ok nms s1"
      "sv_network s1 = Some n" "sv_nets s1 = sv_nets s" "keys (net_map s1 n) = keys (net_map s n)"
    using restart_update_ok [OF assms(1) f(2) _ assms(9,10)] assms(8) f(3) by auto
  have ex1: "exact nms s1" using assms(5) u(3,4,5) f(2) by (simp add: exact_def)
  obtain l where l: "nc_Impl old = ImplLocal l"
    using f(5) find(2,3) nth_mem unfolding running_def by metis
  then obtain new l' where new: "restart_config ni old = Ret new" "nc_Name new = nc_Name old"
      "nc_Impl new = ImplLocal l'"
    by (simp add: restart_config_def Let_def)
  have valid1: "valid_net n s1" using u(2,3) by (auto simp: cluster_ok_def dest: store_okD(2))
  have x1: "rr_Name req \<in> keys (net_map s1 n)" using assms(8) f(3) u(5) by simp
  obtain s2 where sw: "restart_swap E (rr_Name req) n new s1 = (Ret (), s2)" "exact nms s2"
    using restart_swap_success [OF assms(2,3) ex1 u(3) valid1 x1] new(2) find(4) by metis
  obtain nw2 where s2: "s2 = set_nw n nw2 s1" "cluster_ok nms s2"
    using restart_swap_ok [OF u(2) assms(2) u(3) _ x1 sw(1)] new(2) find(4) by auto
  have net2: "sv_network s2 = Some n" using s2(1) u(3) by simp
  have cfg2: "ln_cfg (net s2 n) = ln_cfg (net s n)" using s2(1) u(4) valid1 by simp
  obtain s3 where w: "waitForHealthy E c n s2 = (Ret (), s3)" "cluster_ok nms s3" "exact nms s3"
      "sv_network s3 = Some n" "ln_cfg (net s3 n) = ln_cfg (net s n)"
    using wait_success [OF s2(2) assms(2-4) net2 sw(2)] cfg2 by metis
  have fin: "restart_finish idx new s3 = (r3, s4) \<Longrightarrow> (\<exists>j. r3 = Ret j) \<and> exact nms s4" for r3 s4
    using restart_finish_ok [OF w(2,4), of idx new l'] w(3,4,5) find(2,3) new(2,3)
      exact_finish [OF w(2,3,4)] by auto
  show ?thesis
    using assms(7) f(1) find(1) u(1) new(1) sw(1) w(1) fin
    by (cases "restart_finish idx new s3") (auto simp: RestartNode_def getClusterInfo_def restart_locked_def)
qed

lemma newNetwork_success:
  assumes "helpful E nms" and "length (x_NewDefaultConfig E path) \<le> length colors"
  shows "\<exists>n s'. newNetwork E path root ws lvl s = (Ret n, s')"
proof -
  obtain r s' where nn: "newNetwork E path root ws lvl s = (r, s')" by (cases "newNetwork E path root ws lvl s")
  have none: "x_DefaultConfig E = None" "x_MakeLogger E root = None"
    using assms(1) by (simp_all add: helpful_def)
  have "r \<noteq> Panic" using newNetwork_Panic_iff [OF none, of path ws lvl s] nn assms(2) by simp
  moreover have "r \<noteq> Block" using newNetwork_not_Block [of E path root ws lvl s] nn by simp
  moreover have "r \<noteq> Fail e" for e
    using nn none unfolding newNetwork_def by (auto simp: Let_def split: option.splits)
  ultimately show ?thesis using nn by (cases r) auto
qed

lemma Start_success:
  assumes "store_ok s" and "abs_cluster s = Down" and "helpful E nms" and "kind_env c"
    and "x_Stat E (sr_ExecPath req)" and "length (x_NewDefaultConfig E (sr_ExecPath req)) \<le> length colors"
    and "Start E c req s = (r, s')"
  shows "\<exists>i n. r = Ret (i, n)"
proof -
  have down: "sv_network s = None" "sv_clusterInfo s = None"
    using assms(2) store_okD(4) [OF assms(1)] by (simp_all add: abs_cluster_Down_iff)
  obtain dir where dir: "ce_tempdir c = Inr dir" using assms(4) by (auto simp: kind_env_def)
  let ?s0 = "s\<lparr>sv_dirs := sv_dirs s @ [dir]\<rparr>"
  obtain n s1 where nn: "newNetwork E (sr_ExecPath req) dir (StartRequest_GetWhitelistedSubnets (Some req))
      (StartRequest_GetLogLevel (Some req)) ?s0 = (Ret n, s1)"
    using newNetwork_success [OF assms(3,6)] by blast
  show ?thesis
    using assms(5,7) down dir nn
    by (auto simp: Start_def start_prepare_def getClusterInfo_def start_locked_def Let_def)
qed

lemma localNetwork_start_exact:
  assumes "fresh n s" and "sv_network s = Some n" and "network_laws E nms" and "helpful E nms" and "kind_env c"
    and "localNetwork_start E c n s = (r, s')"
  shows "exact nms s'"
proof -
  have fr: "valid_net n s" "keys (net_map s n) = nc_Name ` set (ln_cfg (net s n))"
    using assms(1) by (simp_all add: fresh_def)
  obtain nw where nw: "x_NewNetwork E (ln_cfg (net s n)) = Inr nw"
    using assms(4) unfolding helpful_def boots_def by blast
  let ?s1 = "set_nw n nw s"
  have nms: "nms nw = keys (net_map s n)" using network_lawsD(1) [OF assms(3) nw] fr(2) by simp
  have valid1: "valid_net n ?s1" using fr(1) by simp
  obtain nodes where nodes: "x_GetAllNodes E nw = Inr nodes" using assms(4) unfolding helpful_def by blast
  obtain r2 s2 where w: "waitForHealthy E c n ?s1 = (r2, s2)" by (cases "waitForHealthy E c n ?s1")
  have frame: "wait_frame n ?s1 s2" using valid1 w by (rule waitForHealthy_frame)
  have "visit_ok (ce_nodes c)" using assms(5) by (simp add: kind_env_def env_ok_def)
  then have "r2 = Ret ()"
    using w nodes network_lawsD(2) [OF assms(3) nodes] nms fr(1) assms(5)
    by (simp add: waitForHealthy_eq [OF valid1] kind_env_def)
  then have s': "s' = upd_net n (start_done []) s2"
    using assms(6) nw w by (simp add: localNetwork_start_def start_create_def)
  have valid2: "valid_net n s2" using frame valid1 by (rule wait_frame_valid)
  have "ln_nw (net s2 n) = Some nw" "sv_network s2 = Some n" "keys (net_map s2 n) = keys (net_map s n)"
    using frame fr(1) assms(2) map_frame_keys [of "net_map ?s1 n" "net_map s2 n"]
    by (simp_all add: wait_frame_def same_shell_def net_frame_def)
  then show ?thesis
    unfolding s' using nms valid_netD(1) [OF valid2]
    by (intro exactI [of _ n nw]) (simp_all add: start_done_def net_map_upd_net)
qed

section \<open>Served\<close>

text \<open>The requests that make sense in a state of the cluster.\<close>

fun enabled :: "'nw ext \<Rightarrow> cluster \<Rightarrow> request \<Rightarrow> bool" where
  "enabled E A RqPing = True"
| "enabled E Down (RqStart req) = x_Stat E (sr_ExecPath req)"
| "enabled E (Up S) (RqStart req) = False"
| "enabled E Down rq = False"
| "enabled E (Up S) (RqRemove req) = (rm_Name req \<in> S)"
| "enabled E (Up S) (RqRestart req) = (rr_Name req \<in> S)"
| "enabled E (Up S) rq = True"

lemma settle_exact: "settle ss = (r, ss') \<Longrightarrow> exact nms (se_srv ss) \<Longrightarrow> exact nms (se_srv ss')"
  by (auto simp: settle_def watch_ready_def exact_def split: option.splits if_splits)

lemma Start_disabled:
  assumes "\<not> x_Stat E (sr_ExecPath req)" and "Start E c req s = (r, s')"
  shows "\<exists>e. r = Fail e" and "sv_network s' = sv_network s"
  using assms
  by (auto simp: Start_def start_prepare_def Let_def split: if_splits sum.splits)

lemma Start_Ret_network: "Start E c req s = (Ret (i, n), s') \<Longrightarrow> sv_network s' = Some n"
  by (auto simp: Start_def start_locked_def Let_def split: and_then_splits option.splits prod.splits outcome.splits)

lemma localNetwork_start_no_Fail: "localNetwork_start E c n s = (r, s') \<Longrightarrow> r \<noteq> Fail e"
  by (auto simp: localNetwork_start_def split: prod.splits outcome.splits)

lemma handle_start_success:
  assumes "session_ok nms ss" and "network_laws E nms" and "helpful E nms" and "kind_env c"
    and "exact nms (se_srv ss)" and "request_ok E (RqStart req)" and "handle E c (RqStart req) ss = (r, ss')"
  shows "((\<exists>rp. r = Ret rp) \<longleftrightarrow> enabled E (abs_cluster (se_srv ss)) (RqStart req)) \<and> exact nms (se_srv ss')"
proof (cases "abs_cluster (se_srv ss)")
  case (Up S)
  then show ?thesis
    using assms(5,7) Start_up [OF session_okD(5) [OF assms(1)] Up] by (auto simp: serve_start_def)
next
  case Down
  have env: "env_ok c" and boots: "boots E" using assms(3,4) by (simp_all add: kind_env_def helpful_def)
  have bound: "length (x_NewDefaultConfig E (sr_ExecPath req)) \<le> length colors" using assms(6) by simp
  obtain r1 s1 where st: "Start E c req (se_srv ss) = (r1, s1)" by (cases "Start E c req (se_srv ss)")
  show ?thesis
  proof (cases "x_Stat E (sr_ExecPath req)")
    case False
    have "sv_network (se_srv ss) = None" using Down by (simp add: abs_cluster_Down_iff)
    then show ?thesis
      using Start_disabled [OF False st] st assms(7) Down False by (auto simp: serve_start_def)
  next
    case True
    obtain i n where r1: "r1 = Ret (i, n)"
      using Start_success [OF session_okD(5) [OF assms(1)] Down assms(3,4) True bound st] by blast
    from session_okD(5) [OF assms(1)] Down st bound have "fresh n s1 \<and> sv_network s1 = Some n"
      by (cases rule: Start_down) (use r1 in auto)
    moreover obtain r2 s2 where l: "localNetwork_start E c n s1 = (r2, s2)"
      by (cases "localNetwork_start E c n s1")
    ultimately have "exact nms s2" using localNetwork_start_exact assms(2,3,4) by blast
    moreover have "answered r"
      using handle_handled [OF assms(1,2) env boots assms(6,7)] by (simp add: handled_def)
    ultimately show ?thesis
      using assms(7) st r1 l Down True localNetwork_start_no_Fail [OF l] by (cases r2) (auto simp: serve_start_def)
  qed
qed

lemma handle_success:
  assumes "session_ok nms ss" and "network_laws E nms" and "helpful E nms" and "kind_env c"
    and "exact nms (se_srv ss)" and "request_ok E rq" and "handle E c rq ss = (r, ss')"
  shows "((\<exists>rp. r = Ret rp) \<longleftrightarrow> enabled E (abs_cluster (se_srv ss)) rq) \<and> exact nms (se_srv ss')"
proof (cases "\<exists>req. rq = RqStart req")
  case True
  then show ?thesis using handle_start_success assms by blast
next
  case False
  note ok = session_okD [OF assms(1)]
  have same: "ss\<lparr>se_srv := se_srv ss\<rparr> = ss" by (cases ss) simp
  show ?thesis
  proof (cases "abs_cluster (se_srv ss)")
    case Down
    then have "sv_clusterInfo (se_srv ss) = None" using ok(6) by simp
    then show ?thesis
      using False assms(5,7) Down same
      by (cases rq)
         (auto simp: reply_of_def Health_def health_enter_def URIs_def URIs_collect_def Status_def RemoveNode_def
            RestartNode_def Stop_def getClusterInfo_def)
  next
    case (Up S)
    obtain i n where f: "sv_clusterInfo (se_srv ss) = Some i"
      using up_fields [OF ok(1) Up] by metis
    have env: "env_ok c" using assms(4) by (simp add: kind_env_def)
    show ?thesis
    proof (cases rq)
      case (RqStart req)
      then show ?thesis using False by simp
    next
      case RqHealth
      obtain r1 s1 where h: "Health E c (se_srv ss) = (r1, s1)" by (cases "Health E c (se_srv ss)")
      show ?thesis
        using Health_success [OF ok(1) assms(2-5) Up h] h assms(7) Up RqHealth by (auto simp: reply_of_def)
    next
      case (RqRemove req)
      obtain r1 s1 where h: "RemoveNode E c req (se_srv ss) = (r1, s1)"
        by (cases "RemoveNode E c req (se_srv ss)")
      show ?thesis
        using RemoveNode_success [OF ok(1) assms(2-5) Up h] RemoveNode_ok(3) [OF ok(1) assms(2) env Up h]
          h assms(5,7) Up RqRemove
        by (cases "rm_Name req \<in> S") (auto simp: reply_of_def)
    next
      case (RqRestart req)
      obtain r1 s1 where h: "RestartNode E c req (se_srv ss) = (r1, s1)"
        by (cases "RestartNode E c req (se_srv ss)")
      obtain sr ws where req: "rr_StartRequest req = Some sr" "sr_WhitelistedSubnets sr = Some ws"
        using assms(6) RqRestart by (auto split: option.splits)
      show ?thesis
        using RestartNode_success [OF ok(1) assms(2-5) Up h _ req]
          RestartNode_ok(4) [OF ok(1) assms(2) env Up h req] h assms(5,7) Up RqRestart
        by (cases "rr_Name req \<in> S") (auto simp: reply_of_def)
    next
      case RqStop
      obtain r1 s1 where h: "Stop E (se_srv ss) = (r1, s1)" by (cases "Stop E (se_srv ss)")
      have "abs_cluster s1 = Down" "\<exists>k. r1 = Ret k" using Stop_ok [OF ok(1) Up h] by auto
      then show ?thesis
        using h assms(7) Up RqStop by (auto simp: reply_of_def abs_cluster_Down_iff)
    qed (use f assms(5,7) Up same in \<open>auto simp: reply_of_def URIs_def URIs_collect_def Status_def getClusterInfo_def Let_def\<close>)
  qed
qed

lemma serve_success:
  assumes "session_ok nms ss" and "network_laws E nms" and "helpful E nms" and "kind_env c"
    and "exact nms (se_srv ss)" and "request_ok E rq" and "serve E c rq ss = (r, ss')"
  shows "(\<exists>rp. r = Ret rp) \<longleftrightarrow> enabled E (abs_cluster (se_srv ss)) rq" and "exact nms (se_srv ss')"
    and "session_ok nms ss'"
proof -
  have env: "env_ok c" and boots: "boots E" using assms(3,4) by (simp_all add: kind_env_def helpful_def)
  obtain r1 ss1 where h: "handle E c rq ss = (r1, ss1)" by (cases "handle E c rq ss")
  note hs = handle_success [OF assms(1-6) h]
  have hd: "handled nms E ss rq r1 ss1" using handle_handled [OF assms(1,2) env boots assms(6) h] .
  then obtain ss2 where ss2: "settle ss1 = (Ret (), ss2)" "session_ok nms ss2"
    using settle_ok [of nms ss1] by (auto simp: handled_def)
  then have "r = r1" "ss' = ss2" using assms(7) h hd by (auto simp: serve_def handled_def)
  then show "(\<exists>rp. r = Ret rp) \<longleftrightarrow> enabled E (abs_cluster (se_srv ss)) rq" and "exact nms (se_srv ss')"
    and "session_ok nms ss'"
    using hs settle_exact [OF ss2(1)] ss2(2) by blast+
qed

end
