(* ===== verification/Success_Props.thy ===== *)
theory Success_Props
  imports Success Server_Props
begin

text \<open>
  A conversation with libraries that do not fail: which of its requests succeed is computed by the
  abstract cluster alone; and a health request that succeeds leaves a cluster that is up and ready.
\<close>

text \<open>The cluster after a request that succeeded, and the requests of a sequence that succeed.\<close>

fun after :: "(string \<Rightarrow> nat) \<Rightarrow> cluster \<Rightarrow> request \<Rightarrow> cluster" where
  "after d Down (RqStart req) = Up (node_name ` {..<d (sr_ExecPath req)})"
| "after d (Up S) (RqRemove req) = Up (S - {rm_Name req})"
| "after d (Up S) RqStop = Down"
| "after d A rq = A"

fun succeeding :: "'nw ext \<Rightarrow> cluster \<Rightarrow> request list \<Rightarrow> bool list" where
  "succeeding E A [] = []"
| "succeeding E A (rq # rqs) =
     enabled E A rq #
     succeeding E (if enabled E A rq then after (defaults E) A rq else A) rqs"

definition returned :: "'a outcome \<Rightarrow> bool" where
  "returned r \<longleftrightarrow> (\<exists>x. r = Ret x)"

lemma spec_step_after:
  assumes "spec_step d A rq r A'" and "returned r \<longleftrightarrow> enabled E A rq"
  shows "A' = (if enabled E A rq then after d A rq else A)"
  using assms
  by (cases "(d, A, rq, r, A')" rule: spec_step.cases)
     (auto simp: returned_def split: outcome.splits reply.splits option.splits if_splits)

lemma conversation_success:
  assumes "session_ok nms ss" and "exact nms (se_srv ss)" and "network_laws E nms" and "helpful E nms"
    and "\<forall>(c, rq) \<in> set script. kind_env c \<and> request_ok E rq"
    and "conversation E script ss = (rs, ss')"
  shows "map returned rs = succeeding E (abs_cluster (se_srv ss)) (map snd script)"
  using assms(1,2,5,6)
proof (induction script arbitrary: ss rs ss')
  case Nil
  then show ?case by simp
next
  case (Cons a script)
  obtain c rq where a: "a = (c, rq)" by (cases a)
  obtain r ss1 where s1: "serve E c rq ss = (r, ss1)" by (cases "serve E c rq ss")
  obtain rs1 ss2 where s2: "conversation E script ss1 = (rs1, ss2)" by (cases "conversation E script ss1")
  have env: "kind_env c" "request_ok E rq" using Cons.prems(3) a by auto
  have eb: "env_ok c" "boots E" using env(1) assms(4) by (simp_all add: kind_env_def helpful_def)
  note su = serve_success [OF Cons.prems(1) assms(3,4) env(1) Cons.prems(2) env(2) s1]
  note ok = serve_ok [OF Cons.prems(1) assms(3) eb env(2) s1]
  have ret: "returned r \<longleftrightarrow> enabled E (abs_cluster (se_srv ss)) rq" using su(1) by (simp add: returned_def)
  have "map returned rs1 = succeeding E (abs_cluster (se_srv ss1)) (map snd script)"
    using Cons.IH [OF su(3,2) _ s2] Cons.prems(3) by simp
  then show ?case
    using Cons.prems(4) a s1 s2 ok(1) ret spec_step_after [OF ok(3) ret] by auto
qed

text \<open>C2: As long as the libraries do not fail and the nodes report healthy in time, which requests of a
  conversation succeed, and which are refused with an error, is exactly what the abstract cluster
  says: a start when nothing runs and the executable exists, a removal or a restart of a node that
  is there, everything else when a cluster runs.\<close>

theorem requests_succeed_iff_enabled:
  assumes "network_laws E nms" and "helpful E nms"
    and "\<forall>(c, rq) \<in> set script. kind_env c \<and> request_ok E rq"
    and "conversation E script new_session = (rs, ss)"
  shows "map returned rs = succeeding E Down (map snd script)"
proof -
  have down: "abs_cluster (se_srv (new_session :: 'a session)) = Down" "sv_network (se_srv (new_session :: 'a session)) = None"
    by (simp_all add: new_session_def init_server_def abs_cluster_def)
  have "exact nms (se_srv (new_session :: 'a session))" using down(2) by simp
  then show ?thesis using conversation_success [OF session_ok_new _ assms] down(1) by simp
qed

lemma sample_helpful: "helpful sample_ext set"
  using sample_boots by (auto simp: helpful_def sample_ext_def)

lemma sample_kind: "kind_env sample_env"
  using sample_env_ok by (simp add: kind_env_def) (simp add: sample_env_def)

lemma sample_names: "node_name ` {..<2} = {''node1'', ''node2''}"
proof -
  have "(of_char (digit_char 1) :: nat) = of_char (CHR ''1'')" "(of_char (digit_char 2) :: nat) = of_char (CHR ''2'')"
    by simp_all
  then have "digit_char 1 = CHR ''1''" "digit_char 2 = CHR ''2''" by (simp_all only: of_char_eq_iff)
  then have "show_nat 1 = ''1''" "show_nat 2 = ''2''" by (subst show_nat.simps, simp)+
  then show ?thesis by (simp add: node_name_def numeral_2_eq_2 lessThan_Suc insert_commute)
qed

lemma sample_ext_simps:
  "x_Stat sample_ext path = (path \<noteq> [])" "defaults sample_ext path = 2"
  by (simp_all add: sample_ext_def)

lemma requests_succeed_iff_enabled_witness:
  "map returned (fst (conversation sample_ext sample_script new_session)) =
     [False, True, True, True, True, True, True]"
proof -
  have ok: "\<forall>(c, rq) \<in> set sample_script. kind_env c \<and> request_ok sample_ext rq"
    by (simp add: sample_script_def sample_kind sample_start_def)
       (simp add: sample_ext_def colors_def)
  have "map returned (fst (conversation sample_ext sample_script new_session)) =
      succeeding sample_ext Down (map snd sample_script)"
    by (rule requests_succeed_iff_enabled [OF sample_laws sample_helpful ok prod.collapse [symmetric]])
  also have "\<dots> = [False, True, True, True, True, True, True]"
    by (simp add: sample_script_def sample_start_def sample_ext_simps sample_names)
  finally show ?thesis .
qed

section \<open>A cluster that is up\<close>

text \<open>A health request that returns leaves the ready channel closed, so the information says healthy.\<close>

lemma wait_ready:
  assumes "waitForHealthy E c n s = (Ret u, s')" and "valid_net n s"
  shows "oc_closed (ln_ready (net s' n))"
  using assms unfolding valid_net_def once_ok_def
  by (auto simp: waitForHealthy_def wfh_nodes_def wfh_publish_def close_ready_def once_close_def Let_def
      split: and_then_split_asm option.splits sum.splits outcome.splits if_splits prod.splits elim: close_chan.elims)

lemma serve_health_ready:
  assumes "session_ok nms ss" and "network_laws E nms" and "env_ok c" and "serve E c RqHealth ss = (Ret rp, ss')"
  shows "\<exists>n. sv_network (se_srv ss') = Some n \<and> oc_closed (ln_ready (net (se_srv ss') n))"
proof -
  obtain ss1 r2 where h: "handle E c RqHealth ss = (Ret rp, ss1)" and st: "settle ss1 = (r2, ss')"
    using assms(4) by (auto simp: serve_def split: prod.splits if_splits outcome.splits)
  obtain j where H: "Health E c (se_srv ss) = (Ret j, se_srv ss1)"
    using h by (cases "Health E c (se_srv ss)"; cases "fst (Health E c (se_srv ss))") (auto simp: reply_of_def)
  obtain n s1 where e: "health_enter (se_srv ss) = Ret n" and w: "waitForHealthy E c n (se_srv ss) = (Ret (), s1)"
      and l: "health_locked c s1 = (Ret j, se_srv ss1)"
    using H by (auto simp: Health_def split: and_then_split_asm)
  have n: "sv_network (se_srv ss) = Some n"
    using e by (auto simp: health_enter_def split: option.splits if_splits)
  have ok: "cluster_ok nms (se_srv ss)" using assms(1) by (simp add: session_ok_def)
  have "valid_net n (se_srv ss)"
    using store_okD(2) [OF _ n] ok by (simp add: cluster_ok_def)
  with w have ready: "oc_closed (ln_ready (net s1 n))" by (rule wait_ready)
  note wait = wait_ok [OF ok assms(2,3) n w]
  have "valid_net n s1" using store_okD(2) [OF _ wait(3)] wait(2) by (simp add: cluster_ok_def)
  obtain i where "se_srv ss1 = publish_nodes i n (refresh_names c n s1)"
    using l wait(3) by (auto simp: health_locked_def Let_def split: option.splits dest: sym)
  then have "sv_network (se_srv ss1) = Some n" "oc_closed (ln_ready (net (se_srv ss1) n))"
    using wait(3) ready \<open>valid_net n s1\<close> by simp_all
  then show ?thesis
    using st by (auto simp: settle_def watch_ready_def Let_def split: option.splits if_splits prod.splits)
qed

lemma server_fields_agree_witness:
  "\<exists>rs ss i n. conversation sample_ext (map (Pair sample_env) [RqStart sample_start, RqHealth]) new_session = (rs, ss) \<and>
     sv_clusterInfo (se_srv ss) = Some i \<and> sv_network (se_srv ss) = Some n \<and>
     oc_closed (ln_ready (net (se_srv ss) n)) \<and> ci_Healthy (info_at (se_srv ss) i) \<and>
     ci_NodeInfos (info_at (se_srv ss) i) = Some (ln_nodeInfos (net (se_srv ss) n))"
proof -
  let ?script = "map (Pair sample_env) [RqStart sample_start, RqHealth]"
  obtain rs ss where c: "conversation sample_ext ?script new_session = (rs, ss)"
    by (cases "conversation sample_ext ?script (new_session :: string list session)")
  have ok: "\<forall>(c, rq) \<in> set ?script. kind_env c \<and> request_ok sample_ext rq"
    by (simp add: sample_kind) (simp add: sample_ext_def colors_def)
  have env: "\<forall>(c, rq) \<in> set ?script. env_ok c \<and> request_ok sample_ext rq"
    using ok by (simp add: sample_env_ok)
  have "map returned rs = succeeding sample_ext Down (map snd ?script)"
    using conversation_success [OF session_ok_new _ sample_laws sample_helpful ok c]
    by (simp add: new_session_def init_server_def abs_cluster_def)
  also have "\<dots> = [True, True]"
    by (simp add: sample_start_def sample_ext_simps)
  finally obtain r1 r2 where rs: "rs = [Ret r1, Ret r2]" by (auto simp: returned_def map_eq_Cons_conv)
  obtain ss1 where s1: "serve sample_ext sample_env (RqStart sample_start) new_session = (Ret r1, ss1)"
      "serve sample_ext sample_env RqHealth ss1 = (Ret r2, ss)"
    using c rs by (auto split: prod.splits if_splits)
  have "conversation sample_ext [(sample_env, RqStart sample_start)] new_session = ([Ret r1], ss1)"
    using s1(1) by simp
  then have "session_ok set ss1"
    using conversation_ok [OF session_ok_new sample_laws sample_boots, of "[(sample_env, RqStart sample_start)]"] env by auto
  from serve_health_ready [OF this sample_laws sample_env_ok s1(2)] obtain n where
    n: "sv_network (se_srv ss) = Some n" "oc_closed (ln_ready (net (se_srv ss) n))" by blast
  note agree = server_fields_agree [OF sample_laws sample_boots env c refl]
  obtain i where i: "sv_clusterInfo (se_srv ss) = Some i" using n(1) agree by auto
  show ?thesis using c i n agree by blast
qed

end
