(* ===== verification/Remote_Props.thy ===== *)
theory Remote_Props
  imports Remote Success_Props
begin

text \<open>
  Properties of the client: what its methods send, its options, how it is closed, and what a user
  sees of a whole session with the server.
\<close>

section \<open>A client of a dialed connection\<close>

text \<open>\<open>Invoke\<close> fills the response it is given, so a reply has the type the stub asked for.\<close>

definition typed_conn :: "'st connection \<Rightarrow> bool" where
  "typed_conn conn \<longleftrightarrow>
     (\<forall>path rq k st rp st'. cn_Invoke conn path rq k st = (Ret rp, st') \<longrightarrow> reply_kind_of rp = k)"

lemma client_New_Ret:
  assumes "client_New D cfg = (Ret c, out)"
  obtains conn where "cv_dial D (cg_Endpoint cfg) (cg_DialTimeout cfg) = Inr conn" and "ct_conn c = conn"
    and "ct_pingc c = cn_Invoke conn" and "ct_controlc c = cn_Invoke conn" and "ct_closed c = new_once_chan"
    and "ct_cfg c = cfg"
    and "out = [Outf (cv_F D) (''{{blue}}dialing endpoint %q{{/}}'' @ [CHR 0x0A]) [cg_Endpoint cfg]]"
  using assms
  by (auto simp: client_New_def Let_def NewPingServiceClient_def NewControlServiceClient_def
      split: outcome.splits sum.splits)

lemmas client_method_defs = client_Ping_def client_Start_def client_Health_def client_URIs_def
  client_Status_def client_RemoveNode_def client_RestartNode_def client_Stop_def

lemma client_URIs_stub:
  assumes "typed_conn conn" and "ct_controlc c = cn_Invoke conn"
  shows "client_do c CallURIs st = client_stub (cn_Invoke conn) RqURIs st"
proof -
  obtain r st' where i: "cn_Invoke conn ''/rpcpb.ControlService/URIs'' RqURIs KUris st = (r, st')"
    by (cases "cn_Invoke conn ''/rpcpb.ControlService/URIs'' RqURIs KUris st")
  have s: "controlServiceClient_URIs (cn_Invoke conn) st = (r, st')"
    unfolding controlServiceClient_URIs_def stub_eq by (rule i)
  have typed: "RpUris (Uris_of rp) = rp" if "r = Ret rp" for rp
  proof -
    have "reply_kind_of rp = KUris" using assms(1) i that unfolding typed_conn_def by blast
    then show ?thesis by (cases rp) simp_all
  qed
  show ?thesis using assms(2) s typed by (cases r) (simp_all add: client_URIs_def)
qed

lemma client_do_stub:
  assumes "typed_conn conn" and "ct_pingc c = cn_Invoke conn" and "ct_controlc c = cn_Invoke conn"
  shows "client_do c call st = client_stub (cn_Invoke conn) (call_request call) st"
proof (cases "call = CallURIs")
  case True
  then show ?thesis using client_URIs_stub [OF assms(1,3)] by simp
next
  case False
  then show ?thesis
    using assms(2,3) by (cases call) (simp_all add: client_method_defs Let_def)
qed

text \<open>A client that was made is connected to the configured endpoint, and every method sends one
  request there, through the stub of its name.  The requests are always complete: the server can
  dereference the optional fields of a start or a restart; only a start with more than five default
  nodes can make it panic.\<close>

theorem client_sends_request:
  assumes "client_New D cfg = (Ret c, out)" and "cv_dial D (cg_Endpoint cfg) (cg_DialTimeout cfg) = Inr conn"
    and "typed_conn conn"
  shows "client_do c call st = client_stub (cn_Invoke conn) (call_request call) st \<and>
    (request_ok E (call_request call) \<longleftrightarrow>
       (\<forall>path opts. call = CallStart path opts \<longrightarrow> length (x_NewDefaultConfig E path) \<le> length colors))"
proof -
  obtain conn' where c: "cv_dial D (cg_Endpoint cfg) (cg_DialTimeout cfg) = Inr conn'"
      "ct_pingc c = cn_Invoke conn'" "ct_controlc c = cn_Invoke conn'"
    using client_New_Ret [OF assms(1)] by metis
  then have "conn' = conn" using assms(2) by simp
  then have "client_do c call st = client_stub (cn_Invoke conn) (call_request call) st"
    using client_do_stub [OF assms(3)] c by simp
  moreover have "request_ok E (call_request call) \<longleftrightarrow>
      (\<forall>path opts. call = CallStart path opts \<longrightarrow> length (x_NewDefaultConfig E path) \<le> length colors)"
    by (cases call) simp_all
  ultimately show ?thesis by blast
qed

section \<open>Options\<close>

text \<open>The options apply in order, so the last one of a kind wins, and without one the field is the
  empty string; a start sends both fields, a restart only the subnets.\<close>

theorem last_option_wins:
  "call_request (CallStart path (map option_of os)) =
     RqStart \<lparr>sr_ExecPath = path, sr_WhitelistedSubnets = Some (last_or [] (concat (map subnets_of os))),
              sr_LogLevel = Some (last_or [] (concat (map levels_of os)))\<rparr> \<and>
   call_request (CallRestartNode x path (map option_of os)) =
     RqRestart \<lparr>rr_Name = x,
       rr_StartRequest = Some \<lparr>sr_ExecPath = path,
         sr_WhitelistedSubnets = Some (last_or [] (concat (map subnets_of os))), sr_LogLevel = None\<rparr>\<rparr>"
  by (simp add: applyOpts_options new_Op_def)

section \<open>Closing\<close>

text \<open>Closing a client that was made, any number of times, never panics: the channel that stops its
  streams is closed by the first call and left alone by the others.\<close>

theorem client_Close_once:
  assumes "client_New D cfg = (Ret c, out)"
  shows "\<exists>c'. client_close_chan c = Ret c' \<and> oc_closed (ct_closed c') \<and>
    closable.close_times client_close_chan (Suc k) c = Ret c' \<and>
    client_Close c st = (Ret (c', fst (cn_Close (ct_conn c) st)), snd (cn_Close (ct_conn c) st))"
proof -
  have ok: "once_ok (ct_closed c)"
    using client_New_Ret [OF assms] by (metis new_once_chan_def once_chan.select_convs once_ok_def)
  obtain c' where c': "client_close_chan c = Ret c'" "oc_closed (ct_closed c')"
      "closable.close_times client_close_chan (Suc k) c = Ret c'"
    using client_closed.close_times_once [OF ok] by blast
  then show ?thesis by (auto simp: client_Close_def split: prod.splits)
qed

section \<open>A session with the server\<close>

fun client_calls :: "'st client \<Rightarrow> client_call list \<Rightarrow> 'st \<Rightarrow> reply outcome list \<times> 'st" where
  "client_calls c [] st = ([], st)"
| "client_calls c (call # rest) st =
     (let (r, st) = client_do c call st; (rs, st) = client_calls c rest st in (r # rs, st))"

lemma client_calls_eq:
  assumes "typed_conn conn" and "ct_pingc c = cn_Invoke conn" and "ct_controlc c = cn_Invoke conn"
  shows "client_calls c cls st = remote.calls (cn_Invoke conn) (map call_request cls) st"
  by (induction cls arbitrary: st) (simp_all add: client_do_stub [OF assms])

text \<open>C3: The session of the end-to-end test, request by request and without its status stream (which only
  reads): start, health, addresses, status, remove a node, restart another one, stop.  Over a
  connection that keeps the promises of gRPC to a server whose networks can be created and have at
  most five default nodes, when no other request is in between and all seven calls return, then: no
  cluster ran before or runs afterwards; the start names no node yet; the health reply is complete,
  for exactly the default nodes; the addresses are exactly those of the nodes of this reply, sorted;
  the status has the same nodes; the removed node was one of them and is gone from the next reply;
  the restarted node was one of the others; and the reply of the stop is not healthy.\<close>

theorem client_session:
  assumes "client_New D cfg = (Ret c, out)" and "cv_dial D (cg_Endpoint cfg) (cg_DialTimeout cfg) = Inr conn"
    and "typed_conn conn" and "remote_inv E cs nms C (cn_Invoke conn) st"
    and "length (x_NewDefaultConfig E path) \<le> length colors"
    and "client_calls c
           [CallStart path opts, CallHealth, CallURIs, CallStatus, CallRemoveNode y,
            CallRestartNode z path2 opts2, CallStop] st = (map Ret [r1, r2, r3, r4, r5, r6, r7], st')"
  shows "service_abs st = Down \<and> service_abs st' = Down \<and>
    (\<exists>S x1 x2 x4 x5 x6 x7. S = node_name ` {..<length (x_NewDefaultConfig E path)} \<and>
       r1 = RpInfo (Some x1) \<and> ci_NodeNames x1 = [] \<and> \<not> ci_Healthy x1 \<and>
       r2 = RpInfo (Some x2) \<and> info_complete S x2 \<and>
       r3 = RpUris (sort (map (\<lambda>(x, ni). ni_Uri ni) (ci_NodeInfos x2))) \<and>
       r4 = RpInfo (Some x4) \<and> mset (ci_NodeInfos x4) = mset (ci_NodeInfos x2) \<and>
       r5 = RpInfo (Some x5) \<and> y \<in> S \<and> info_complete (S - {y}) x5 \<and>
       r6 = RpInfo (Some x6) \<and> z \<in> S - {y} \<and> keys (ci_NodeInfos x6) = S - {y} \<and>
       r7 = RpInfo (Some x7) \<and> \<not> ci_Healthy x7)"
proof -
  let ?cls = "[CallStart path opts, CallHealth, CallURIs, CallStatus, CallRemoveNode y,
     CallRestartNode z path2 opts2, CallStop]"
  obtain conn' where c: "cv_dial D (cg_Endpoint cfg) (cg_DialTimeout cfg) = Inr conn'"
      "ct_pingc c = cn_Invoke conn'" "ct_controlc c = cn_Invoke conn'"
    using client_New_Ret [OF assms(1)] by metis
  then have "conn' = conn" using assms(2) by simp
  then have run: "remote.calls (cn_Invoke conn) (map call_request ?cls) st =
      (map Ret [r1, r2, r3, r4, r5, r6, r7], st')"
    using client_calls_eq [OF assms(3), of c ?cls st] c(2,3) assms(6) by simp
  have ok: "list_all (request_ok E) (map call_request ?cls)" using assms(5) by simp
  show ?thesis
    using remote_addresses.workflow [OF assms(4) ok _ run] unfolding addresses_def by simp
qed

subsection \<open>A connection to the sample server\<close>

definition sample_conn :: "(string list session \<times> nat) connection" where
  "sample_conn =
     \<lparr>cn_Invoke = direct_invoke (registered (server_ping sample_ext (\<lambda>_. sample_env))
                                          (server_control sample_ext (\<lambda>_. sample_env))),
      cn_Close = Pair None\<rparr>"

definition sample_client_env :: "(string list session \<times> nat) client_env" where
  "sample_client_env =
     \<lparr>cv_build = (\<lambda>_. None), cv_F = (\<lambda>f args. f), cv_dial = (\<lambda>_ _. Inr sample_conn)\<rparr>"

definition sample_client_Config :: client_Config where
  "sample_client_Config = \<lparr>cg_LogLevel = ''info'', cg_Endpoint = ''0.0.0.0:8080'', cg_DialTimeout = 10\<rparr>"

definition sample_client :: "(string list session \<times> nat) client" where
  "sample_client = \<lparr>ct_cfg = sample_client_Config, ct_conn = sample_conn, ct_pingc = cn_Invoke sample_conn,
     ct_controlc = cn_Invoke sample_conn, ct_closed = new_once_chan\<rparr>"

lemma sample_client_New:
  "client_New sample_client_env sample_client_Config =
     (Ret sample_client, [Stdout (''{{blue}}dialing endpoint %q{{/}}'' @ [CHR 0x0A])])"
  by (simp add: client_New_def sample_client_env_def sample_client_Config_def sample_client_def setup_logger_def
      GetDefaultZapLoggerConfig_def ConvertToZapLevel_def DefaultLogLevel_def Let_def Outf_def
      NewPingServiceClient_def NewControlServiceClient_def)

lemma sample_dial:
  "cv_dial sample_client_env (cg_Endpoint sample_client_Config) (cg_DialTimeout sample_client_Config) =
     Inr sample_conn"
  by (simp add: sample_client_env_def)

lemma sample_typed: "typed_conn sample_conn"
  by (auto simp: typed_conn_def sample_conn_def direct_invoke_def split: option.splits prod.splits
      outcome.splits if_splits)

lemma client_sends_request_witness:
  "client_do sample_client (CallRemoveNode ''node1'') (new_session, 0) =
     client_stub (cn_Invoke sample_conn) (RqRemove \<lparr>rm_Name = ''node1''\<rparr>) (new_session, 0)"
  using client_sends_request [OF sample_client_New sample_dial sample_typed,
      of "CallRemoveNode ''node1''" "(new_session, 0)"] by simp

lemma client_Close_once_witness:
  "\<exists>c'. closable.close_times client_close_chan 3 sample_client = Ret c' \<and> oc_closed (ct_closed c')"
  using client_Close_once [OF sample_client_New, of 2] by (auto simp: numeral_3_eq_3)

text \<open>Over the direct connection the server is asked as in a conversation.\<close>

lemma direct_stub:
  assumes "scheduled E cs rq st = (r, st')" and "answered r"
  shows "client_stub (direct_invoke (registered (server_ping E cs) (server_control E cs))) rq st = (r, st')"
proof -
  let ?svcs = "registered (server_ping E cs) (server_control E cs)"
  have dec: "cd_dec direct_codec (Inl rq) (kind_of rq) = Inr rq" by (simp add: direct_codec_def)
  obtain h where h: "map_of (routes ?svcs) (stub_path rq) = Some h"
      "h (cd_dec direct_codec (Inl rq)) None st = scheduled E cs rq st"
    using route_method [where dec = "cd_dec direct_codec (Inl rq)" and rq = rq and st = st, OF dec]
      server_method_scheduled [of E cs rq] by metis
  have "reply_kind_of rp = stub_reply rq" if "r = Ret rp" for rp
    using server_typed [of E cs] assms(1) that unfolding typed_server_def server_method_scheduled by blast
  then show ?thesis
    using assms h by (cases r) (simp_all add: client_stub_eq direct_invoke_def)
qed

lemma direct_calls:
  assumes "service_inv E (\<lambda>_. c) nms st" and "list_all (request_ok E) rqs"
    and "conversation E (map (Pair c) rqs) (fst st) = (rs, ss')"
  shows "\<exists>k. remote.calls (direct_invoke (registered (server_ping E (\<lambda>_. c)) (server_control E (\<lambda>_. c)))) rqs st
    = (rs, (ss', k))"
  using assms
proof (induction rqs arbitrary: st rs)
  case Nil
  then show ?case by (cases st) simp
next
  case (Cons rq rqs)
  obtain r st1 where s: "scheduled E (\<lambda>_. c) rq st = (r, st1)" by (cases "scheduled E (\<lambda>_. c) rq st")
  have ok: "request_ok E rq" using Cons.prems(2) by simp
  note so = scheduled_ok [OF Cons.prems(1) ok s]
  obtain rs1 where rs: "conversation E (map (Pair c) rqs) (fst st1) = (rs1, ss')" "rs = r # rs1"
    using Cons.prems(3) s so(1) by (auto simp: scheduled_def split: prod.splits)
  then show ?case
    using Cons.IH [OF so(2) _ rs(1)] Cons.prems(2) direct_stub [OF s so(1)] by auto
qed

definition sample_calls :: "client_call list" where
  "sample_calls =
     [CallStart ''/bin/avalanchego'' [], CallHealth, CallURIs, CallStatus, CallRemoveNode ''node1'',
      CallRestartNode ''node2'' ''/bin/avalanchego'' [WithWhitelistedSubnets ''s2''], CallStop]"

lemma sample_service: "service_inv sample_ext (\<lambda>_. sample_env) set (new_session, 0)"
  using sample_laws sample_boots sample_env_ok by (simp add: service_inv_def session_ok_new)

lemma sample_remote:
  "remote_inv sample_ext (\<lambda>_. sample_env) set direct_codec (cn_Invoke sample_conn) (new_session, 0)"
  using sample_service direct_codec_ok direct_transport_ok by (simp add: remote_inv_def sample_conn_def)

lemma sample_requests_ok: "list_all (request_ok sample_ext) (map call_request sample_calls)"
  by (simp add: sample_calls_def) (simp add: sample_ext_def colors_def)

lemma sample_session_run:
  "\<exists>r1 r2 r3 r4 r5 r6 r7 st'. client_calls sample_client sample_calls (new_session, 0) =
     (map Ret [r1, r2, r3, r4, r5, r6, r7], st')"
proof -
  let ?rqs = "map call_request sample_calls"
  obtain rs ss where c: "conversation sample_ext (map (Pair sample_env) ?rqs) new_session = (rs, ss)"
    by (cases "conversation sample_ext (map (Pair sample_env) ?rqs) (new_session :: string list session)")
  have ok: "\<forall>(c, rq) \<in> set (map (Pair sample_env) ?rqs). kind_env c \<and> request_ok sample_ext rq"
    using sample_kind sample_requests_ok by (auto simp: list_all_iff)
  have "map returned rs = succeeding sample_ext Down (map snd (map (Pair sample_env) ?rqs))"
    using conversation_success [OF session_ok_new _ sample_laws sample_helpful ok c]
    by (simp add: new_session_def init_server_def abs_cluster_def)
  also have "\<dots> = [True, True, True, True, True, True, True]"
    by (simp add: sample_calls_def comp_def sample_ext_simps sample_names)
  finally have "map returned rs = [True, True, True, True, True, True, True]" .
  then have "\<exists>r1 r2 r3 r4 r5 r6 r7. rs = map Ret [r1, r2, r3, r4, r5, r6, r7]"
    by (auto simp: returned_def map_eq_Cons_conv)
  moreover obtain k where "client_calls sample_client sample_calls (new_session, 0) = (rs, (ss, k))"
    using direct_calls [OF sample_service sample_requests_ok, of rs ss] c
      client_calls_eq [OF sample_typed, of sample_client sample_calls "(new_session, 0)"]
    by (auto simp: sample_client_def sample_conn_def)
  ultimately show ?thesis by metis
qed

lemma client_session_witness:
  "\<exists>r1 x2 r4 x5 r6 r7 st'. client_calls sample_client sample_calls (new_session, 0) =
       (map Ret [r1, RpInfo (Some x2), RpUris (sort (map (\<lambda>(x, ni). ni_Uri ni) (ci_NodeInfos x2))), r4,
                 RpInfo (Some x5), r6, r7], st') \<and>
     info_complete {''node1'', ''node2''} x2 \<and> info_complete {''node2''} x5 \<and> service_abs st' = Down"
proof -
  obtain r1 r2 r3 r4 r5 r6 r7 st' where run:
    "client_calls sample_client sample_calls (new_session, 0) = (map Ret [r1, r2, r3, r4, r5, r6, r7], st')"
    using sample_session_run by blast
  have bound: "length (x_NewDefaultConfig sample_ext ''/bin/avalanchego'') \<le> length colors"
    by (simp add: sample_ext_def colors_def)
  obtain x2 x5 where "r2 = RpInfo (Some x2)" "info_complete (node_name ` {..<2}) x2"
      "r3 = RpUris (sort (map (\<lambda>(x, ni). ni_Uri ni) (ci_NodeInfos x2)))"
      "r5 = RpInfo (Some x5)" "info_complete (node_name ` {..<2} - {''node1''}) x5" "service_abs st' = Down"
    using client_session [OF sample_client_New sample_dial sample_typed sample_remote bound
        run [unfolded sample_calls_def]]
    by (auto simp: sample_ext_simps)
  then show ?thesis using run by (simp add: sample_names)
qed

end
