(* ===== verification/Gateway.thy ===== *)
theory Gateway
  imports Grpc
begin

text \<open>
  The generated HTTP gateway, \<open>src/rpcpb/rpc.pb.gw.go\<close>: a path per method, the functions that decode
  the body of an HTTP request and call the stub of a client (\<open>request_...\<close>) or the server in the same
  process (\<open>local_request_...\<close>), and the registrations on a multiplexer.  The library
  \<open>grpc-gateway/runtime\<close> is a parameter: the multiplexer, the marshaler it chooses for a request, the
  annotation of the context.  Headers and metadata are read by the library alone and are left out.
\<close>

section \<open>HTTP requests and what is written\<close>

text \<open>The method is the one after an override header; \<open>'b\<close> is the type of a body.\<close>

record 'b http_request =
  hr_Method :: string
  hr_Path :: string
  hr_Body :: 'b

text \<open>An error, a message, or the messages of a stream, \<open>'cs\<close>, as they arrive.\<close>

datatype 'cs http_reply = HttpError go_error | HttpMessage reply | HttpStream 'cs

type_synonym ('b, 'cs, 'st) http_handler = "'b http_request \<Rightarrow> 'st \<Rightarrow> 'cs http_reply outcome \<times> 'st"

text \<open>
  A decoder leaves the message it was given partly or fully set and may return an error; \<open>'c\<close> is
  what a reader gives.  The requests without fields are the unit.
\<close>

type_synonym ('c, 'm) decode = "'c \<Rightarrow> 'm \<times> go_error option"

record 'c marshaler =
  ma_Ping :: "('c, unit) decode"
  ma_Start :: "('c, StartRequest) decode"
  ma_Health :: "('c, unit) decode"
  ma_URIs :: "('c, unit) decode"
  ma_Status :: "('c, unit) decode"
  ma_StreamStatus :: "('c, StreamStatusRequest) decode"
  ma_RemoveNode :: "('c, RemoveNodeRequest) decode"
  ma_RestartNode :: "('c, RestartNodeRequest) decode"
  ma_Stop :: "('c, unit) decode"

text \<open>
  \<open>ge_reader\<close> is \<open>utilities.IOReaderFactory\<close>, \<open>ge_text\<close> the formatting of an error by \<open>%v\<close>,
  \<open>ge_marshaler\<close> is \<open>runtime.MarshalerForRequest\<close>; the two annotations are given the full name of the
  method and the path of the pattern; \<open>ge_Header\<close> waits for the header of a stream.
\<close>

record ('b, 'c, 'cs) gateway_env =
  ge_reader :: "'b \<Rightarrow> go_error + 'c"
  ge_text :: "go_error \<Rightarrow> string"
  ge_marshaler :: "'b http_request \<Rightarrow> 'c marshaler"
  ge_AnnotateContext :: "'b http_request \<Rightarrow> string \<Rightarrow> string \<Rightarrow> go_error option"
  ge_AnnotateIncomingContext :: "'b http_request \<Rightarrow> string \<Rightarrow> string \<Rightarrow> go_error option"
  ge_Header :: "'cs \<Rightarrow> go_error option"

section \<open>The clients\<close>

record 'st PingServiceClient =
  pc_Ping :: "'st meth"

record ('st, 'cs) ControlServiceClient =
  kc_Start :: "StartRequest \<Rightarrow> 'st meth"
  kc_Health :: "'st meth"
  kc_URIs :: "'st meth"
  kc_Status :: "'st meth"
  kc_StreamStatus :: "StreamStatusRequest \<Rightarrow> go_error + 'cs"
  kc_RemoveNode :: "RemoveNodeRequest \<Rightarrow> 'st meth"
  kc_RestartNode :: "RestartNodeRequest \<Rightarrow> 'st meth"
  kc_Stop :: "'st meth"

definition ping_client_of :: "'st invoke \<Rightarrow> 'st PingServiceClient" where
  "ping_client_of invoke = \<lparr>pc_Ping = pingServiceClient_Ping invoke\<rparr>"

definition control_client_of :: "'st invoke \<Rightarrow> 'cs client_conn \<Rightarrow> ('st, 'cs) ControlServiceClient" where
  "control_client_of invoke cc =
     \<lparr>kc_Start = controlServiceClient_Start invoke, kc_Health = controlServiceClient_Health invoke,
      kc_URIs = controlServiceClient_URIs invoke, kc_Status = controlServiceClient_Status invoke,
      kc_StreamStatus = controlServiceClient_StreamStatus cc,
      kc_RemoveNode = controlServiceClient_RemoveNode invoke,
      kc_RestartNode = controlServiceClient_RestartNode invoke, kc_Stop = controlServiceClient_Stop invoke\<rparr>"

section \<open>Decoding a request\<close>

text \<open>
  The same lines in every function: a body that cannot be read or decoded is an invalid argument,
  except that the end of the input is no error and leaves the message as it is.
\<close>

definition decode_body ::
  "('b, 'c, 'cs) gateway_env \<Rightarrow> ('c, 'm) decode \<Rightarrow> 'b http_request \<Rightarrow> go_error + 'm" where
  "decode_body env dec req =
     (case ge_reader env (hr_Body req) of
        Inl berr \<Rightarrow> Inl (GrpcStatus CodeInvalidArgument (ge_text env berr))
      | Inr newReader \<Rightarrow>
          (case dec newReader of
             (protoReq, Some err) \<Rightarrow>
               (if err \<noteq> IoEOF then Inl (GrpcStatus CodeInvalidArgument (ge_text env err)) else Inr protoReq)
           | (protoReq, None) \<Rightarrow> Inr protoReq))"

definition with_body ::
  "('b, 'c, 'cs) gateway_env \<Rightarrow> ('c, 'm) decode \<Rightarrow> ('m \<Rightarrow> 'st meth) \<Rightarrow> 'b http_request \<Rightarrow> 'st meth" where
  "with_body env dec call req st =
     (case decode_body env dec req of
        Inl e \<Rightarrow> (Fail e, st)
      | Inr protoReq \<Rightarrow> call protoReq st)"

definition request_PingService_Ping_0 ::
  "('b, 'c, 'cs) gateway_env \<Rightarrow> 'c marshaler \<Rightarrow> 'st PingServiceClient \<Rightarrow> 'b http_request \<Rightarrow> 'st meth" where
  "request_PingService_Ping_0 env m client = with_body env (ma_Ping m) (\<lambda>_. pc_Ping client)"

definition local_request_PingService_Ping_0 ::
  "('b, 'c, 'cs) gateway_env \<Rightarrow> 'c marshaler \<Rightarrow> 'st PingServiceServer \<Rightarrow> 'b http_request \<Rightarrow> 'st meth" where
  "local_request_PingService_Ping_0 env m server = with_body env (ma_Ping m) (\<lambda>_. ps_Ping server)"

definition request_ControlService_Start_0 ::
  "('b, 'c, 'cs) gateway_env \<Rightarrow> 'c marshaler \<Rightarrow> ('st, 'cs) ControlServiceClient \<Rightarrow> 'b http_request \<Rightarrow> 'st meth" where
  "request_ControlService_Start_0 env m client = with_body env (ma_Start m) (kc_Start client)"

definition local_request_ControlService_Start_0 ::
  "('b, 'c, 'cs) gateway_env \<Rightarrow> 'c marshaler \<Rightarrow> ('st, 'str) ControlServiceServer \<Rightarrow> 'b http_request \<Rightarrow> 'st meth" where
  "local_request_ControlService_Start_0 env m server = with_body env (ma_Start m) (cs_Start server)"

definition request_ControlService_Health_0 ::
  "('b, 'c, 'cs) gateway_env \<Rightarrow> 'c marshaler \<Rightarrow> ('st, 'cs) ControlServiceClient \<Rightarrow> 'b http_request \<Rightarrow> 'st meth" where
  "request_ControlService_Health_0 env m client = with_body env (ma_Health m) (\<lambda>_. kc_Health client)"

definition local_request_ControlService_Health_0 ::
  "('b, 'c, 'cs) gateway_env \<Rightarrow> 'c marshaler \<Rightarrow> ('st, 'str) ControlServiceServer \<Rightarrow> 'b http_request \<Rightarrow> 'st meth" where
  "local_request_ControlService_Health_0 env m server = with_body env (ma_Health m) (\<lambda>_. cs_Health server)"

definition request_ControlService_URIs_0 ::
  "('b, 'c, 'cs) gateway_env \<Rightarrow> 'c marshaler \<Rightarrow> ('st, 'cs) ControlServiceClient \<Rightarrow> 'b http_request \<Rightarrow> 'st meth" where
  "request_ControlService_URIs_0 env m client = with_body env (ma_URIs m) (\<lambda>_. kc_URIs client)"

definition local_request_ControlService_URIs_0 ::
  "('b, 'c, 'cs) gateway_env \<Rightarrow> 'c marshaler \<Rightarrow> ('st, 'str) ControlServiceServer \<Rightarrow> 'b http_request \<Rightarrow> 'st meth" where
  "local_request_ControlService_URIs_0 env m server = with_body env (ma_URIs m) (\<lambda>_. cs_URIs server)"

definition request_ControlService_Status_0 ::
  "('b, 'c, 'cs) gateway_env \<Rightarrow> 'c marshaler \<Rightarrow> ('st, 'cs) ControlServiceClient \<Rightarrow> 'b http_request \<Rightarrow> 'st meth" where
  "request_ControlService_Status_0 env m client = with_body env (ma_Status m) (\<lambda>_. kc_Status client)"

definition local_request_ControlService_Status_0 ::
  "('b, 'c, 'cs) gateway_env \<Rightarrow> 'c marshaler \<Rightarrow> ('st, 'str) ControlServiceServer \<Rightarrow> 'b http_request \<Rightarrow> 'st meth" where
  "local_request_ControlService_Status_0 env m server = with_body env (ma_Status m) (\<lambda>_. cs_Status server)"

definition request_ControlService_RemoveNode_0 ::
  "('b, 'c, 'cs) gateway_env \<Rightarrow> 'c marshaler \<Rightarrow> ('st, 'cs) ControlServiceClient \<Rightarrow> 'b http_request \<Rightarrow> 'st meth" where
  "request_ControlService_RemoveNode_0 env m client = with_body env (ma_RemoveNode m) (kc_RemoveNode client)"

definition local_request_ControlService_RemoveNode_0 ::
  "('b, 'c, 'cs) gateway_env \<Rightarrow> 'c marshaler \<Rightarrow> ('st, 'str) ControlServiceServer \<Rightarrow> 'b http_request \<Rightarrow> 'st meth" where
  "local_request_ControlService_RemoveNode_0 env m server = with_body env (ma_RemoveNode m) (cs_RemoveNode server)"

definition request_ControlService_RestartNode_0 ::
  "('b, 'c, 'cs) gateway_env \<Rightarrow> 'c marshaler \<Rightarrow> ('st, 'cs) ControlServiceClient \<Rightarrow> 'b http_request \<Rightarrow> 'st meth" where
  "request_ControlService_RestartNode_0 env m client = with_body env (ma_RestartNode m) (kc_RestartNode client)"

definition local_request_ControlService_RestartNode_0 ::
  "('b, 'c, 'cs) gateway_env \<Rightarrow> 'c marshaler \<Rightarrow> ('st, 'str) ControlServiceServer \<Rightarrow> 'b http_request \<Rightarrow> 'st meth" where
  "local_request_ControlService_RestartNode_0 env m server = with_body env (ma_RestartNode m) (cs_RestartNode server)"

definition request_ControlService_Stop_0 ::
  "('b, 'c, 'cs) gateway_env \<Rightarrow> 'c marshaler \<Rightarrow> ('st, 'cs) ControlServiceClient \<Rightarrow> 'b http_request \<Rightarrow> 'st meth" where
  "request_ControlService_Stop_0 env m client = with_body env (ma_Stop m) (\<lambda>_. kc_Stop client)"

definition local_request_ControlService_Stop_0 ::
  "('b, 'c, 'cs) gateway_env \<Rightarrow> 'c marshaler \<Rightarrow> ('st, 'str) ControlServiceServer \<Rightarrow> 'b http_request \<Rightarrow> 'st meth" where
  "local_request_ControlService_Stop_0 env m server = with_body env (ma_Stop m) (\<lambda>_. cs_Stop server)"

text \<open>The stream is opened and its header awaited; there is no such function for a local server.\<close>

definition request_ControlService_StreamStatus_0 ::
  "('b, 'c, 'cs) gateway_env \<Rightarrow> 'c marshaler \<Rightarrow> ('st, 'cs) ControlServiceClient \<Rightarrow> 'b http_request \<Rightarrow>
   go_error + 'cs" where
  "request_ControlService_StreamStatus_0 env m client req =
     (case decode_body env (ma_StreamStatus m) req of
        Inl e \<Rightarrow> Inl e
      | Inr protoReq \<Rightarrow>
          (case kc_StreamStatus client protoReq of
             Inl e \<Rightarrow> Inl e
           | Inr x \<Rightarrow> (case ge_Header env x of Some e \<Rightarrow> Inl e | None \<Rightarrow> Inr x)))"

section \<open>The patterns\<close>

text \<open>The arguments of \<open>runtime.NewPattern\<close>: pairs of an operation and its operand, and the strings they refer to.\<close>

record pattern =
  pa_version :: nat
  pa_ops :: "nat list"
  pa_pool :: "string list"
  pa_verb :: string

definition pattern_PingService_Ping_0 :: pattern where
  "pattern_PingService_Ping_0 =
     \<lparr>pa_version = 1, pa_ops = [2, 0, 2, 1], pa_pool = [''v1'', ''ping''], pa_verb = []\<rparr>"

definition pattern_ControlService_Start_0 :: pattern where
  "pattern_ControlService_Start_0 =
     \<lparr>pa_version = 1, pa_ops = [2, 0, 2, 1, 2, 2], pa_pool = [''v1'', ''control'', ''start''], pa_verb = []\<rparr>"

definition pattern_ControlService_Health_0 :: pattern where
  "pattern_ControlService_Health_0 =
     \<lparr>pa_version = 1, pa_ops = [2, 0, 2, 1, 2, 2], pa_pool = [''v1'', ''control'', ''health''], pa_verb = []\<rparr>"

definition pattern_ControlService_URIs_0 :: pattern where
  "pattern_ControlService_URIs_0 =
     \<lparr>pa_version = 1, pa_ops = [2, 0, 2, 1, 2, 2], pa_pool = [''v1'', ''control'', ''uris''], pa_verb = []\<rparr>"

definition pattern_ControlService_Status_0 :: pattern where
  "pattern_ControlService_Status_0 =
     \<lparr>pa_version = 1, pa_ops = [2, 0, 2, 1, 2, 2], pa_pool = [''v1'', ''control'', ''status''], pa_verb = []\<rparr>"

definition pattern_ControlService_StreamStatus_0 :: pattern where
  "pattern_ControlService_StreamStatus_0 =
     \<lparr>pa_version = 1, pa_ops = [2, 0, 2, 1, 2, 2], pa_pool = [''v1'', ''control'', ''streamstatus''], pa_verb = []\<rparr>"

definition pattern_ControlService_RemoveNode_0 :: pattern where
  "pattern_ControlService_RemoveNode_0 =
     \<lparr>pa_version = 1, pa_ops = [2, 0, 2, 1, 2, 2], pa_pool = [''v1'', ''control'', ''removenode''], pa_verb = []\<rparr>"

definition pattern_ControlService_RestartNode_0 :: pattern where
  "pattern_ControlService_RestartNode_0 =
     \<lparr>pa_version = 1, pa_ops = [2, 0, 2, 1, 2, 2], pa_pool = [''v1'', ''control'', ''restartnode''], pa_verb = []\<rparr>"

definition pattern_ControlService_Stop_0 :: pattern where
  "pattern_ControlService_Stop_0 =
     \<lparr>pa_version = 1, pa_ops = [2, 0, 2, 1, 2, 2], pa_pool = [''v1'', ''control'', ''stop''], pa_verb = []\<rparr>"

section \<open>The handlers\<close>

text \<open>
  The annotation, the call, then the error or the message is written.  A panic or a wait of the call
  is one of the handler.
\<close>

definition written :: "reply outcome \<times> 'st \<Rightarrow> 'cs http_reply outcome \<times> 'st" where
  "written p =
     (case p of
        (Ret resp, st) \<Rightarrow> (Ret (HttpMessage resp), st)
      | (Fail err, st) \<Rightarrow> (Ret (HttpError err), st)
      | (Panic, st) \<Rightarrow> (Panic, st)
      | (Block, st) \<Rightarrow> (Block, st))"

definition unary_http ::
  "('b http_request \<Rightarrow> string \<Rightarrow> string \<Rightarrow> go_error option) \<Rightarrow> string \<Rightarrow> string \<Rightarrow>
   ('b http_request \<Rightarrow> 'st meth) \<Rightarrow> ('b, 'cs, 'st) http_handler" where
  "unary_http annotate full path call req st =
     (case annotate req full path of
        Some err \<Rightarrow> (Ret (HttpError err), st)
      | None \<Rightarrow> written (call req st))"

definition stream_http ::
  "('b, 'c, 'cs) gateway_env \<Rightarrow> ('st, 'cs) ControlServiceClient \<Rightarrow> ('b, 'cs, 'st) http_handler" where
  "stream_http env client req st =
     (case ge_AnnotateContext env req ''/rpcpb.ControlService/StreamStatus'' ''/v1/control/streamstatus'' of
        Some err \<Rightarrow> (Ret (HttpError err), st)
      | None \<Rightarrow>
          (case request_ControlService_StreamStatus_0 env (ge_marshaler env req) client req of
             Inl err \<Rightarrow> (Ret (HttpError err), st)
           | Inr resp \<Rightarrow> (Ret (HttpStream resp), st)))"

definition local_stream_http :: "('b, 'cs, 'st) http_handler" where
  "local_stream_http req st =
     (Ret (HttpError (GrpcStatus CodeUnimplemented
        ''streaming calls are not yet supported in the in-process transport'')), st)"

section \<open>The registrations\<close>

text \<open>
  \<open>Handle\<close> is the method \<open>Handle\<close> of a multiplexer: an HTTP method, a pattern and a handler.  Every
  registration calls it for POST, pattern by pattern.
\<close>

type_synonym ('b, 'cs, 'st, 'mux) mux_handle =
  "string \<Rightarrow> pattern \<Rightarrow> ('b, 'cs, 'st) http_handler \<Rightarrow> 'mux \<Rightarrow> 'mux"

definition post_all ::
  "('b, 'cs, 'st, 'mux) mux_handle \<Rightarrow> (pattern \<times> ('b, 'cs, 'st) http_handler) list \<Rightarrow> 'mux \<Rightarrow> 'mux" where
  "post_all Handle hs = fold (\<lambda>(p, h). Handle ''POST'' p h) hs"

definition PingService_handlers_Server ::
  "('b, 'c, 'cs) gateway_env \<Rightarrow> 'st PingServiceServer \<Rightarrow> (pattern \<times> ('b, 'cs, 'st) http_handler) list" where
  "PingService_handlers_Server env server =
     [(pattern_PingService_Ping_0,
       unary_http (ge_AnnotateIncomingContext env) ''/rpcpb.PingService/Ping'' ''/v1/ping''
         (\<lambda>req. local_request_PingService_Ping_0 env (ge_marshaler env req) server req))]"

definition RegisterPingServiceHandlerServer ::
  "('b, 'c, 'cs) gateway_env \<Rightarrow> ('b, 'cs, 'st, 'mux) mux_handle \<Rightarrow> 'st PingServiceServer \<Rightarrow> 'mux \<Rightarrow> 'mux outcome" where
  "RegisterPingServiceHandlerServer env Handle server mux =
     Ret (post_all Handle (PingService_handlers_Server env server) mux)"

definition PingService_handlers_Client ::
  "('b, 'c, 'cs) gateway_env \<Rightarrow> 'st PingServiceClient \<Rightarrow> (pattern \<times> ('b, 'cs, 'st) http_handler) list" where
  "PingService_handlers_Client env client =
     [(pattern_PingService_Ping_0,
       unary_http (ge_AnnotateContext env) ''/rpcpb.PingService/Ping'' ''/v1/ping''
         (\<lambda>req. request_PingService_Ping_0 env (ge_marshaler env req) client req))]"

definition RegisterPingServiceHandlerClient ::
  "('b, 'c, 'cs) gateway_env \<Rightarrow> ('b, 'cs, 'st, 'mux) mux_handle \<Rightarrow> 'st PingServiceClient \<Rightarrow> 'mux \<Rightarrow> 'mux outcome" where
  "RegisterPingServiceHandlerClient env Handle client mux =
     Ret (post_all Handle (PingService_handlers_Client env client) mux)"

definition ControlService_Stop_Server ::
  "('b, 'c, 'cs) gateway_env \<Rightarrow> ('st, 'str) ControlServiceServer \<Rightarrow> pattern \<times> ('b, 'cs, 'st) http_handler" where
  "ControlService_Stop_Server env server =
     (pattern_ControlService_Stop_0,
      unary_http (ge_AnnotateIncomingContext env) ''/rpcpb.ControlService/Stop'' ''/v1/control/stop''
        (\<lambda>req. local_request_ControlService_Stop_0 env (ge_marshaler env req) server req))"

definition ControlService_handlers_Server ::
  "('b, 'c, 'cs) gateway_env \<Rightarrow> ('st, 'str) ControlServiceServer \<Rightarrow> (pattern \<times> ('b, 'cs, 'st) http_handler) list" where
  "ControlService_handlers_Server env server =
     [(pattern_ControlService_Start_0,
       unary_http (ge_AnnotateIncomingContext env) ''/rpcpb.ControlService/Start'' ''/v1/control/start''
         (\<lambda>req. local_request_ControlService_Start_0 env (ge_marshaler env req) server req)),
      (pattern_ControlService_Health_0,
       unary_http (ge_AnnotateIncomingContext env) ''/rpcpb.ControlService/Health'' ''/v1/control/health''
         (\<lambda>req. local_request_ControlService_Health_0 env (ge_marshaler env req) server req)),
      (pattern_ControlService_URIs_0,
       unary_http (ge_AnnotateIncomingContext env) ''/rpcpb.ControlService/URIs'' ''/v1/control/uris''
         (\<lambda>req. local_request_ControlService_URIs_0 env (ge_marshaler env req) server req)),
      (pattern_ControlService_Status_0,
       unary_http (ge_AnnotateIncomingContext env) ''/rpcpb.ControlService/Status'' ''/v1/control/status''
         (\<lambda>req. local_request_ControlService_Status_0 env (ge_marshaler env req) server req)),
      (pattern_ControlService_StreamStatus_0, local_stream_http),
      (pattern_ControlService_RemoveNode_0,
       unary_http (ge_AnnotateIncomingContext env) ''/rpcpb.ControlService/RemoveNode'' ''/v1/control/removenode''
         (\<lambda>req. local_request_ControlService_RemoveNode_0 env (ge_marshaler env req) server req)),
      (pattern_ControlService_RestartNode_0,
       unary_http (ge_AnnotateIncomingContext env) ''/rpcpb.ControlService/RestartNode'' ''/v1/control/restartnode''
         (\<lambda>req. local_request_ControlService_RestartNode_0 env (ge_marshaler env req) server req)),
      ControlService_Stop_Server env server]"

definition RegisterControlServiceHandlerServer ::
  "('b, 'c, 'cs) gateway_env \<Rightarrow> ('b, 'cs, 'st, 'mux) mux_handle \<Rightarrow> ('st, 'str) ControlServiceServer \<Rightarrow> 'mux \<Rightarrow> 'mux outcome" where
  "RegisterControlServiceHandlerServer env Handle server mux =
     Ret (post_all Handle (ControlService_handlers_Server env server) mux)"

definition ControlService_Stop_Client ::
  "('b, 'c, 'cs) gateway_env \<Rightarrow> ('st, 'cs) ControlServiceClient \<Rightarrow> pattern \<times> ('b, 'cs, 'st) http_handler" where
  "ControlService_Stop_Client env client =
     (pattern_ControlService_Stop_0,
      unary_http (ge_AnnotateContext env) ''/rpcpb.ControlService/Stop'' ''/v1/control/stop''
        (\<lambda>req. request_ControlService_Stop_0 env (ge_marshaler env req) client req))"

definition ControlService_handlers_Client ::
  "('b, 'c, 'cs) gateway_env \<Rightarrow> ('st, 'cs) ControlServiceClient \<Rightarrow> (pattern \<times> ('b, 'cs, 'st) http_handler) list" where
  "ControlService_handlers_Client env client =
     [(pattern_ControlService_Start_0,
       unary_http (ge_AnnotateContext env) ''/rpcpb.ControlService/Start'' ''/v1/control/start''
         (\<lambda>req. request_ControlService_Start_0 env (ge_marshaler env req) client req)),
      (pattern_ControlService_Health_0,
       unary_http (ge_AnnotateContext env) ''/rpcpb.ControlService/Health'' ''/v1/control/health''
         (\<lambda>req. request_ControlService_Health_0 env (ge_marshaler env req) client req)),
      (pattern_ControlService_URIs_0,
       unary_http (ge_AnnotateContext env) ''/rpcpb.ControlService/URIs'' ''/v1/control/uris''
         (\<lambda>req. request_ControlService_URIs_0 env (ge_marshaler env req) client req)),
      (pattern_ControlService_Status_0,
       unary_http (ge_AnnotateContext env) ''/rpcpb.ControlService/Status'' ''/v1/control/status''
         (\<lambda>req. request_ControlService_Status_0 env (ge_marshaler env req) client req)),
      (pattern_ControlService_StreamStatus_0, stream_http env client),
      (pattern_ControlService_RemoveNode_0,
       unary_http (ge_AnnotateContext env) ''/rpcpb.ControlService/RemoveNode'' ''/v1/control/removenode''
         (\<lambda>req. request_ControlService_RemoveNode_0 env (ge_marshaler env req) client req)),
      (pattern_ControlService_RestartNode_0,
       unary_http (ge_AnnotateContext env) ''/rpcpb.ControlService/RestartNode'' ''/v1/control/restartnode''
         (\<lambda>req. request_ControlService_RestartNode_0 env (ge_marshaler env req) client req)),
      ControlService_Stop_Client env client]"

definition RegisterControlServiceHandlerClient ::
  "('b, 'c, 'cs) gateway_env \<Rightarrow> ('b, 'cs, 'st, 'mux) mux_handle \<Rightarrow> ('st, 'cs) ControlServiceClient \<Rightarrow> 'mux \<Rightarrow> 'mux outcome" where
  "RegisterControlServiceHandlerClient env Handle client mux =
     Ret (post_all Handle (ControlService_handlers_Client env client) mux)"

definition RegisterPingServiceHandler ::
  "('b, 'c, 'cs) gateway_env \<Rightarrow> ('b, 'cs, 'st, 'mux) mux_handle \<Rightarrow> 'st invoke \<Rightarrow> 'mux \<Rightarrow> 'mux outcome" where
  "RegisterPingServiceHandler env Handle invoke =
     RegisterPingServiceHandlerClient env Handle (ping_client_of invoke)"

definition RegisterControlServiceHandler ::
  "('b, 'c, 'cs) gateway_env \<Rightarrow> ('b, 'cs, 'st, 'mux) mux_handle \<Rightarrow> 'st invoke \<Rightarrow> 'cs client_conn \<Rightarrow> 'mux \<Rightarrow> 'mux outcome" where
  "RegisterControlServiceHandler env Handle invoke cc =
     RegisterControlServiceHandlerClient env Handle (control_client_of invoke cc)"

text \<open>
  The registrations that dial the endpoint themselves: what becomes of the connection is decided by
  the deferred function.
\<close>

datatype conn_fate = NoConn | ClosedNow | ClosedWhenDone

definition from_endpoint ::
  "(string \<Rightarrow> go_error + 'conn) \<Rightarrow> string \<Rightarrow> ('conn \<Rightarrow> 'mux \<Rightarrow> 'mux outcome) \<Rightarrow> 'mux \<Rightarrow> 'mux outcome \<times> conn_fate" where
  "from_endpoint dial endpoint register mux =
     (case dial endpoint of
        Inl err \<Rightarrow> (Fail err, NoConn)
      | Inr conn \<Rightarrow>
          (case register conn mux of
             Fail err \<Rightarrow> (Fail err, ClosedNow)
           | r \<Rightarrow> (r, ClosedWhenDone)))"

definition RegisterPingServiceHandlerFromEndpoint ::
  "('b, 'c, 'cs) gateway_env \<Rightarrow> ('b, 'cs, 'st, 'mux) mux_handle \<Rightarrow> (string \<Rightarrow> go_error + 'st invoke \<times> 'cs client_conn) \<Rightarrow>
   string \<Rightarrow> 'mux \<Rightarrow> 'mux outcome \<times> conn_fate" where
  "RegisterPingServiceHandlerFromEndpoint env Handle dial endpoint =
     from_endpoint dial endpoint (\<lambda>(invoke, cc). RegisterPingServiceHandler env Handle invoke)"

definition RegisterControlServiceHandlerFromEndpoint ::
  "('b, 'c, 'cs) gateway_env \<Rightarrow> ('b, 'cs, 'st, 'mux) mux_handle \<Rightarrow> (string \<Rightarrow> go_error + 'st invoke \<times> 'cs client_conn) \<Rightarrow>
   string \<Rightarrow> 'mux \<Rightarrow> 'mux outcome \<times> conn_fate" where
  "RegisterControlServiceHandlerFromEndpoint env Handle dial endpoint =
     from_endpoint dial endpoint (\<lambda>(invoke, cc). RegisterControlServiceHandler env Handle invoke cc)"

section \<open>The gateway of the process\<close>

text \<open>The two registrations of \<open>Run\<close> on the empty multiplexer, over one connection.\<close>

definition gateway ::
  "('b, 'c, 'cs) gateway_env \<Rightarrow> ('b, 'cs, 'st, 'mux) mux_handle \<Rightarrow> 'st invoke \<Rightarrow> 'cs client_conn \<Rightarrow> 'mux \<Rightarrow> 'mux outcome" where
  "gateway env Handle invoke cc mux =
     (case RegisterPingServiceHandler env Handle invoke mux of
        Ret mux \<Rightarrow> RegisterControlServiceHandler env Handle invoke cc mux
      | r \<Rightarrow> r)"

end
