(* ===== verification/Gateway_Props.thy ===== *)
theory Gateway_Props
  imports Gateway Grpc_Props
begin

text \<open>
  What the multiplexer promises (\<open>mux_ok\<close>), and that with it an HTTP request reaches the method of
  its path: through the stubs, or directly when the gateway is registered in the server's process.
\<close>

section \<open>The promises of the multiplexer\<close>

text \<open>
  The path a pattern of literals stands for: operation 2 pushes a component that is equal to the
  string the operand refers to.
\<close>

fun literal_path :: "string list \<Rightarrow> nat list \<Rightarrow> string option" where
  "literal_path pool [] = Some []"
| "literal_path pool [op] = None"
| "literal_path pool (op # i # ops) =
     (if op = 2 \<and> i < length pool then map_option (\<lambda>p. ''/'' @ pool ! i @ p) (literal_path pool ops) else None)"

definition pattern_path :: "pattern \<Rightarrow> string option" where
  "pattern_path p = (if pa_verb p = [] then literal_path (pa_pool p) (pa_ops p) else None)"

text \<open>
  A multiplexer with handlers for POST under different paths gives a POST request to the handler of
  its path, and answers every other request with an error of its own.
\<close>

definition mux_ok ::
  "('b, 'cs, 'st, 'mux) mux_handle \<Rightarrow> 'mux \<Rightarrow> ('mux \<Rightarrow> ('b, 'cs, 'st) http_handler) \<Rightarrow> bool" where
  "mux_ok Handle mux0 dispatch \<longleftrightarrow>
     (\<forall>hs req st. distinct (map (pattern_path \<circ> fst) hs) \<longrightarrow> None \<notin> (pattern_path \<circ> fst) ` set hs \<longrightarrow>
        (\<forall>(p, h) \<in> set hs. hr_Method req = ''POST'' \<longrightarrow> pattern_path p = Some (hr_Path req) \<longrightarrow>
           dispatch (post_all Handle hs mux0) req st = h req st) \<and>
        (hr_Method req \<noteq> ''POST'' \<or> Some (hr_Path req) \<notin> (pattern_path \<circ> fst) ` set hs \<longrightarrow>
           (\<exists>e. dispatch (post_all Handle hs mux0) req st = (Ret (HttpError e), st))))"

lemma mux_dispatch:
  assumes "mux_ok Handle mux0 dispatch" and "map (pattern_path \<circ> fst) hs = map Some paths" and "distinct paths"
  shows "(p, h) \<in> set hs \<Longrightarrow> hr_Method req = ''POST'' \<Longrightarrow> pattern_path p = Some (hr_Path req) \<Longrightarrow>
           dispatch (post_all Handle hs mux0) req st = h req st"
    and "hr_Method req \<noteq> ''POST'' \<or> hr_Path req \<notin> set paths \<Longrightarrow>
           \<exists>e. dispatch (post_all Handle hs mux0) req st = (Ret (HttpError e), st)"
proof -
  have d: "distinct (map (pattern_path \<circ> fst) hs)" using assms(2,3) by (simp add: distinct_map)
  have s: "(pattern_path \<circ> fst) ` set hs = Some ` set paths"
    using arg_cong [OF assms(2), of set] by simp
  have n: "None \<notin> (pattern_path \<circ> fst) ` set hs" unfolding s by blast
  note ok = assms(1) [unfolded mux_ok_def, rule_format, OF d n]
  show "(p, h) \<in> set hs \<Longrightarrow> hr_Method req = ''POST'' \<Longrightarrow> pattern_path p = Some (hr_Path req) \<Longrightarrow>
      dispatch (post_all Handle hs mux0) req st = h req st"
    using conjunct1 [OF ok, of req st] by blast
  show "hr_Method req \<noteq> ''POST'' \<or> hr_Path req \<notin> set paths \<Longrightarrow>
      \<exists>e. dispatch (post_all Handle hs mux0) req st = (Ret (HttpError e), st)"
    using conjunct2 [OF ok, of req st] unfolding s by blast
qed

section \<open>What a request asks for\<close>

text \<open>The paths with the full names of their methods and the requests their bodies are decoded to.\<close>

definition as_request :: "('m \<Rightarrow> request) \<Rightarrow> ('c, 'm) decode \<Rightarrow> ('c, request) decode" where
  "as_request f dec b = (case dec b of (m, e) \<Rightarrow> (f m, e))"

definition gateway_methods :: "'c marshaler \<Rightarrow> (string \<times> string \<times> ('c, request) decode) list" where
  "gateway_methods m =
     [(''/v1/ping'', ''/rpcpb.PingService/Ping'', as_request (\<lambda>_. RqPing) (ma_Ping m)),
      (''/v1/control/start'', ''/rpcpb.ControlService/Start'', as_request RqStart (ma_Start m)),
      (''/v1/control/health'', ''/rpcpb.ControlService/Health'', as_request (\<lambda>_. RqHealth) (ma_Health m)),
      (''/v1/control/uris'', ''/rpcpb.ControlService/URIs'', as_request (\<lambda>_. RqURIs) (ma_URIs m)),
      (''/v1/control/status'', ''/rpcpb.ControlService/Status'', as_request (\<lambda>_. RqStatus) (ma_Status m)),
      (''/v1/control/removenode'', ''/rpcpb.ControlService/RemoveNode'', as_request RqRemove (ma_RemoveNode m)),
      (''/v1/control/restartnode'', ''/rpcpb.ControlService/RestartNode'', as_request RqRestart (ma_RestartNode m)),
      (''/v1/control/stop'', ''/rpcpb.ControlService/Stop'', as_request (\<lambda>_. RqStop) (ma_Stop m))]"

definition asked ::
  "('b, 'c, 'cs) gateway_env \<Rightarrow> ('b http_request \<Rightarrow> string \<Rightarrow> string \<Rightarrow> go_error option) \<Rightarrow>
   'b http_request \<Rightarrow> (go_error + request) option" where
  "asked env annotate req =
     (if hr_Method req \<noteq> ''POST'' then None
      else
        (case map_of (gateway_methods (ge_marshaler env req)) (hr_Path req) of
           None \<Rightarrow> None
         | Some (full, dec) \<Rightarrow>
             Some (case annotate req full (hr_Path req) of
                     Some e \<Rightarrow> Inl e
                   | None \<Rightarrow> decode_body env dec req)))"

definition answer :: "(request \<Rightarrow> 'st meth) \<Rightarrow> go_error + request \<Rightarrow> 'st \<Rightarrow> 'cs http_reply outcome \<times> 'st" where
  "answer call x st = (case x of Inl e \<Rightarrow> (Ret (HttpError e), st) | Inr rq \<Rightarrow> written (call rq st))"

lemma decode_as_request: "decode_body env (as_request f dec) req = map_sum id f (decode_body env dec req)"
  by (simp add: decode_body_def as_request_def split: sum.splits prod.splits option.splits)

lemma answer_as_request:
  "answer g (case a of Some e \<Rightarrow> Inl e | None \<Rightarrow> decode_body env (as_request f dec) req) st =
     (case a of
        Some err \<Rightarrow> (Ret (HttpError err), st)
      | None \<Rightarrow> written (with_body env dec (\<lambda>x. g (f x)) req st))"
  by (simp add: with_body_def answer_def decode_as_request written_def split: option.splits sum.splits)

section \<open>The two gateways\<close>

text \<open>The handlers of the nine paths in the order of their registration.\<close>

definition client_handlers ::
  "('b, 'c, 'cs) gateway_env \<Rightarrow> 'st PingServiceClient \<Rightarrow> ('st, 'cs) ControlServiceClient \<Rightarrow>
   (pattern \<times> ('b, 'cs, 'st) http_handler) list" where
  "client_handlers env pc kc = PingService_handlers_Client env pc @ ControlService_handlers_Client env kc"

definition server_handlers ::
  "('b, 'c, 'cs) gateway_env \<Rightarrow> 'st PingServiceServer \<Rightarrow> ('st, 'str) ControlServiceServer \<Rightarrow>
   (pattern \<times> ('b, 'cs, 'st) http_handler) list" where
  "server_handlers env ps ks = PingService_handlers_Server env ps @ ControlService_handlers_Server env ks"

lemmas client_handlers_defs = client_handlers_def PingService_handlers_Client_def ControlService_handlers_Client_def
    ControlService_Stop_Client_def
lemmas server_handlers_defs = server_handlers_def PingService_handlers_Server_def ControlService_handlers_Server_def
    ControlService_Stop_Server_def

definition gateway_paths :: "string list" where
  "gateway_paths = [''/v1/ping'', ''/v1/control/start'', ''/v1/control/health'', ''/v1/control/uris'',
     ''/v1/control/status'', ''/v1/control/streamstatus'', ''/v1/control/removenode'',
     ''/v1/control/restartnode'', ''/v1/control/stop'']"

lemma distinct_gateway_paths: "distinct gateway_paths"
  by (simp add: gateway_paths_def)

lemma pattern_paths:
  "pattern_path pattern_PingService_Ping_0 = Some ''/v1/ping''"
  "pattern_path pattern_ControlService_Start_0 = Some ''/v1/control/start''"
  "pattern_path pattern_ControlService_Health_0 = Some ''/v1/control/health''"
  "pattern_path pattern_ControlService_URIs_0 = Some ''/v1/control/uris''"
  "pattern_path pattern_ControlService_Status_0 = Some ''/v1/control/status''"
  "pattern_path pattern_ControlService_StreamStatus_0 = Some ''/v1/control/streamstatus''"
  "pattern_path pattern_ControlService_RemoveNode_0 = Some ''/v1/control/removenode''"
  "pattern_path pattern_ControlService_RestartNode_0 = Some ''/v1/control/restartnode''"
  "pattern_path pattern_ControlService_Stop_0 = Some ''/v1/control/stop''"
  by (simp_all add: pattern_path_def pattern_PingService_Ping_0_def pattern_ControlService_Start_0_def
      pattern_ControlService_Health_0_def pattern_ControlService_URIs_0_def
      pattern_ControlService_Status_0_def pattern_ControlService_StreamStatus_0_def
      pattern_ControlService_RemoveNode_0_def pattern_ControlService_RestartNode_0_def
      pattern_ControlService_Stop_0_def)

lemma handler_paths:
  "map (pattern_path \<circ> fst) (client_handlers env pc kc) = map Some gateway_paths"
  "map (pattern_path \<circ> fst) (server_handlers env ps ks) = map Some gateway_paths"
  by (simp_all add: client_handlers_defs server_handlers_defs pattern_paths gateway_paths_def)

lemma gateway_eq:
  "gateway env Handle invoke cc mux =
     Ret (post_all Handle
       (client_handlers env (ping_client_of invoke) (control_client_of invoke cc)) mux)"
  by (simp add: gateway_def RegisterPingServiceHandler_def RegisterControlServiceHandler_def
      RegisterPingServiceHandlerClient_def RegisterControlServiceHandlerClient_def post_all_def
      client_handlers_def)

text \<open>The handler of a unary path answers with what the method gives on the decoded request.\<close>

lemmas request_defs = request_PingService_Ping_0_def request_ControlService_Start_0_def
  request_ControlService_Health_0_def request_ControlService_URIs_0_def
  request_ControlService_Status_0_def request_ControlService_RemoveNode_0_def
  request_ControlService_RestartNode_0_def request_ControlService_Stop_0_def

lemmas local_request_defs = local_request_PingService_Ping_0_def local_request_ControlService_Start_0_def
  local_request_ControlService_Health_0_def local_request_ControlService_URIs_0_def
  local_request_ControlService_Status_0_def local_request_ControlService_RemoveNode_0_def
  local_request_ControlService_RestartNode_0_def local_request_ControlService_Stop_0_def

text \<open>The method a request is for, on a client.\<close>

fun client_method ::
  "'st PingServiceClient \<Rightarrow> ('st, 'cs) ControlServiceClient \<Rightarrow> request \<Rightarrow> 'st meth" where
  "client_method pc kc RqPing = pc_Ping pc"
| "client_method pc kc (RqStart x) = kc_Start kc x"
| "client_method pc kc RqHealth = kc_Health kc"
| "client_method pc kc RqURIs = kc_URIs kc"
| "client_method pc kc RqStatus = kc_Status kc"
| "client_method pc kc (RqRemove x) = kc_RemoveNode kc x"
| "client_method pc kc (RqRestart x) = kc_RestartNode kc x"
| "client_method pc kc RqStop = kc_Stop kc"

lemma client_method_stub:
  "client_method (ping_client_of invoke) (control_client_of invoke cc) rq = client_stub invoke rq"
  by (cases rq) (simp_all add: ping_client_of_def control_client_of_def)

lemma asked_paths:
  "asked env annotate req = None \<longleftrightarrow>
     hr_Method req \<noteq> ''POST'' \<or> hr_Path req \<notin> set gateway_paths - {''/v1/control/streamstatus''}"
  by (auto simp: asked_def gateway_methods_def gateway_paths_def)

text \<open>The handlers of the eight unary paths, in the order of \<open>gateway_methods\<close>.\<close>

definition answers ::
  "(request \<Rightarrow> 'st meth) \<Rightarrow> ('b, 'c, 'cs) gateway_env \<Rightarrow> ('b http_request \<Rightarrow> string \<Rightarrow> string \<Rightarrow> go_error option) \<Rightarrow>
   'b http_request \<Rightarrow> 'st \<Rightarrow> string \<times> string \<times> ('c, request) decode \<Rightarrow>
   pattern \<times> ('b, 'cs, 'st) http_handler \<Rightarrow> bool" where
  "answers g env annotate req st = (\<lambda>(path, full, dec) (p, h).
     pattern_path p = Some path \<and>
     h req st = answer g (case annotate req full path of Some e \<Rightarrow> Inl e | None \<Rightarrow> decode_body env dec req) st)"

definition unary_of :: "'a list \<Rightarrow> 'a list" where
  "unary_of hs = take 5 hs @ drop 6 hs"

lemma client_handlers_answer:
  "list_all2 (answers (client_method pc kc) env (ge_AnnotateContext env) req st)
     (gateway_methods (ge_marshaler env req)) (unary_of (client_handlers env pc kc))"
  by (simp add: unary_of_def client_handlers_defs gateway_methods_def answers_def pattern_paths
      answer_as_request unary_http_def request_defs cong: option.case_cong)

lemma server_handlers_answer:
  "list_all2 (answers (server_method ps ks) env (ge_AnnotateIncomingContext env) req st)
     (gateway_methods (ge_marshaler env req)) (unary_of (server_handlers env ps ks))"
  by (simp add: unary_of_def server_handlers_defs gateway_methods_def answers_def pattern_paths
      answer_as_request unary_http_def local_request_defs cong: option.case_cong)

lemma list_all2_set1: "list_all2 P xs ys \<Longrightarrow> x \<in> set xs \<Longrightarrow> \<exists>y \<in> set ys. P x y"
  by (induction rule: list_all2_induct) auto

text \<open>So a multiplexer with these handlers answers what was asked.\<close>

lemma mux_answers:
  assumes "mux_ok Handle mux0 dispatch" and "map (pattern_path \<circ> fst) hs = map Some gateway_paths"
    and "list_all2 (answers g env annotate req st) (gateway_methods (ge_marshaler env req)) (unary_of hs)"
    and "asked env annotate req = Some x"
  shows "dispatch (post_all Handle hs mux0) req st = answer g x st"
proof -
  obtain full dec where m: "hr_Method req = ''POST''"
      "map_of (gateway_methods (ge_marshaler env req)) (hr_Path req) = Some (full, dec)"
      "x = (case annotate req full (hr_Path req) of Some e \<Rightarrow> Inl e | None \<Rightarrow> decode_body env dec req)"
    using assms(4) by (auto simp: asked_def split: if_splits option.splits)
  have "(hr_Path req, full, dec) \<in> set (gateway_methods (ge_marshaler env req))" using map_of_SomeD [OF m(2)] .
  from list_all2_set1 [OF assms(3) this] obtain p h where h: "(p, h) \<in> set (unary_of hs)"
      "answers g env annotate req st (hr_Path req, full, dec) (p, h)"
    by auto
  have "(p, h) \<in> set hs" using h(1) by (auto simp: unary_of_def dest: in_set_takeD in_set_dropD)
  then have "dispatch (post_all Handle hs mux0) req st = h req st"
    using mux_dispatch(1) [OF assms(1,2) distinct_gateway_paths _ m(1)] h(2) by (simp add: answers_def)
  then show ?thesis using h(2) m(3) by (simp add: answers_def)
qed

lemma mux_other:
  assumes "mux_ok Handle mux0 dispatch" and "map (pattern_path \<circ> fst) hs = map Some gateway_paths"
    and "asked env annotate req = None" and "hr_Path req \<noteq> ''/v1/control/streamstatus'' \<or> hr_Method req \<noteq> ''POST''"
  shows "\<exists>e. dispatch (post_all Handle hs mux0) req st = (Ret (HttpError e), st)"
  using mux_dispatch(2) [OF assms(1,2) distinct_gateway_paths, of req st] assms(3,4) asked_paths by blast

lemma stream_handlers:
  "(pattern_ControlService_StreamStatus_0, stream_http env kc) \<in> set (client_handlers env pc kc)"
  "(pattern_ControlService_StreamStatus_0, local_stream_http) \<in> set (server_handlers env ps ks)"
  by (simp_all add: client_handlers_defs server_handlers_defs)

lemma stream_http_cases: "\<exists>y. stream_http env kc req st = (Ret y, st) \<and> (\<forall>rp. y \<noteq> HttpMessage rp)"
  by (simp add: stream_http_def split: option.splits sum.splits)

section \<open>An HTTP request reaches the method of its path\<close>

text \<open>C12: A POST on one of the eight unary paths whose context cannot be annotated or whose body cannot
  be read or decoded is answered with that error, and nothing is called; the body decoded, the call
  reaches the server's method of the path with the decoded request: either the call is lost, or the
  method runs once and its reply, or an error, is written.  Any other request calls no method that
  changes the state, and is answered with an error or, on the path of the stream, with the stream.
  The gateway itself never panics, and it returns as soon as the call does, which the
  transport promises.\<close>

theorem gateway_reaches_method:
  assumes "mux_ok Handle mux0 dispatch" and "codec_ok C"
    and "transport_ok C (registered ping ctl) invoke" and "typed_server ping ctl"
    and "gateway env Handle invoke cc mux0 = Ret mux" and "dispatch mux req st = (r, st')"
  shows "case asked env (ge_AnnotateContext env) req of
     None \<Rightarrow>
       st' = st \<and> ((\<exists>e. r = Ret (HttpError e)) \<or>
         hr_Path req = ''/v1/control/streamstatus'' \<and> (\<exists>cs. r = Ret (HttpStream cs)))
   | Some (Inl e) \<Rightarrow> st' = st \<and> r = Ret (HttpError e)
   | Some (Inr rq) \<Rightarrow>
       (st' = st \<and> (\<exists>e. r = Ret (HttpError e))) \<or>
       (\<exists>r1. server_method ping ctl rq st = (r1, st') \<and>
          ((\<exists>e. r = Ret (HttpError e)) \<or>
           (\<exists>rp rp'. r1 = Ret rp \<and> same_reply rp rp' \<and> r = Ret (HttpMessage rp'))))"
proof -
  define hs where "hs = client_handlers env (ping_client_of invoke) (control_client_of invoke cc)"
  have mux: "mux = post_all Handle hs mux0" using assms(5) by (simp add: gateway_eq hs_def)
  note paths = handler_paths(1) [of env "ping_client_of invoke" "control_client_of invoke cc",
    folded hs_def]
  show ?thesis
  proof (cases "asked env (ge_AnnotateContext env) req")
    case None
    show ?thesis
    proof (cases "hr_Path req = ''/v1/control/streamstatus'' \<and> hr_Method req = ''POST''")
      case True
      have "dispatch mux req st = stream_http env (control_client_of invoke cc) req st"
        unfolding mux
        by (rule mux_dispatch(1) [where p = pattern_ControlService_StreamStatus_0, OF assms(1) paths distinct_gateway_paths])
           (use True in \<open>simp_all add: hs_def stream_handlers pattern_paths\<close>)
      then obtain y where "r = Ret y" "st' = st" "\<forall>rp. y \<noteq> HttpMessage rp"
        using stream_http_cases [of env "control_client_of invoke cc" req st] assms(6) by auto
      then show ?thesis using None True by (cases y) auto
    next
      case False
      then show ?thesis
        using mux_other [OF assms(1) paths None, of st] assms(6) None mux by auto
    qed
  next
    case (Some x)
    have "dispatch mux req st = answer (client_stub invoke) x st"
      using mux_answers [OF assms(1) paths _ Some]
        client_handlers_answer [of "ping_client_of invoke" "control_client_of invoke cc" env req st]
      by (simp add: mux hs_def client_method_stub [abs_def])
    then have a: "answer (client_stub invoke) x st = (r, st')" using assms(6) by simp
    show ?thesis
    proof (cases x)
      case (Inl e)
      then show ?thesis using a Some by (simp add: answer_def)
    next
      case (Inr rq)
      obtain r0 st0 where stub: "client_stub invoke rq st = (r0, st0)" by (cases "client_stub invoke rq st")
      then have w: "written (r0, st0) = (r, st')" using a Inr by (simp add: answer_def)
      show ?thesis
        using stub_reaches [OF assms(2-4) stub] w Some Inr by (auto simp: written_def)
    qed
  qed
qed

section \<open>In the same process\<close>

definition gateway_in_process ::
  "('b, 'c, 'cs) gateway_env \<Rightarrow> ('b, 'cs, 'st, 'mux) mux_handle \<Rightarrow> 'st PingServiceServer \<Rightarrow>
   ('st, 'str) ControlServiceServer \<Rightarrow> 'mux \<Rightarrow> 'mux outcome" where
  "gateway_in_process env Handle ps ks mux =
     (case RegisterPingServiceHandlerServer env Handle ps mux of
        Ret mux \<Rightarrow> RegisterControlServiceHandlerServer env Handle ks mux
      | r \<Rightarrow> r)"

lemma gateway_in_process_eq:
  "gateway_in_process env Handle ps ks mux = Ret (post_all Handle (server_handlers env ps ks) mux)"
  by (simp add: gateway_in_process_def RegisterPingServiceHandlerServer_def
      RegisterControlServiceHandlerServer_def post_all_def server_handlers_def)

text \<open>C24: The gateway registered in the server's own process, which the generated code offers too, answers
  every POST on one of the eight unary paths, when the context can be annotated and the body decoded,
  with what the server's method of the path gives on the decoded request, called exactly once; with
  the error of the annotation or the body otherwise, and the method is not called; a POST on the path
  of the stream with the error that streams are not implemented in process; and everything else with
  an error of the multiplexer.\<close>

theorem in_process_answers:
  assumes "mux_ok Handle mux0 dispatch" and "gateway_in_process env Handle ps ks mux0 = Ret mux"
  shows "case asked env (ge_AnnotateIncomingContext env) req of
     Some (Inr rq) \<Rightarrow> dispatch mux req st = written (server_method ps ks rq st)
   | Some (Inl e) \<Rightarrow> dispatch mux req st = (Ret (HttpError e), st)
   | None \<Rightarrow>
       (if hr_Method req = ''POST'' \<and> hr_Path req = ''/v1/control/streamstatus''
        then dispatch mux req st = (Ret (HttpError (GrpcStatus CodeUnimplemented
               ''streaming calls are not yet supported in the in-process transport'')), st)
        else \<exists>e. dispatch mux req st = (Ret (HttpError e), st))"
proof -
  have mux: "mux = post_all Handle (server_handlers env ps ks) mux0"
    using assms(2) by (simp add: gateway_in_process_eq)
  note paths = handler_paths(2) [of env ps ks]
  show ?thesis
  proof (cases "asked env (ge_AnnotateIncomingContext env) req")
    case (Some x)
    then show ?thesis
      using mux_answers [OF assms(1) paths server_handlers_answer Some, of st]
      by (simp add: mux answer_def split: sum.split)
  next
    case None
    have "dispatch mux req st = local_stream_http req st"
      if "hr_Method req = ''POST''" "hr_Path req = ''/v1/control/streamstatus''"
      unfolding mux
      by (rule mux_dispatch(1) [where p = pattern_ControlService_StreamStatus_0, OF assms(1) paths distinct_gateway_paths])
         (use that in \<open>simp_all add: stream_handlers pattern_paths\<close>)
    then show ?thesis
      using mux_other [OF assms(1) paths None, of st] None by (auto simp: mux local_stream_http_def)
  qed
qed

section \<open>A multiplexer that keeps its promises\<close>

type_synonym ('b, 'cs, 'st) list_mux = "(string \<times> pattern \<times> ('b, 'cs, 'st) http_handler) list"

definition list_Handle :: "('b, 'cs, 'st, ('b, 'cs, 'st) list_mux) mux_handle" where
  "list_Handle m p h mux = (m, p, h) # mux"

definition list_dispatch :: "('b, 'cs, 'st) list_mux \<Rightarrow> ('b, 'cs, 'st) http_handler" where
  "list_dispatch mux req st =
     (case find (\<lambda>(m, p, h). m = hr_Method req \<and> pattern_path p = Some (hr_Path req)) mux of
        None \<Rightarrow> (Ret (HttpError (GrpcStatus (CodeOther 5) ''Not Found'')), st)
      | Some (m, p, h) \<Rightarrow> h req st)"

lemma post_all_list: "post_all list_Handle hs mux = rev (map (\<lambda>(p, h). (''POST'', p, h)) hs) @ mux"
  by (induction hs arbitrary: mux) (auto simp: post_all_def list_Handle_def)

lemma list_mux_ok:
  "mux_ok (list_Handle :: ('b, 'cs, 'st, ('b, 'cs, 'st) list_mux) mux_handle) [] list_dispatch"
  unfolding mux_ok_def
proof (intro allI impI conjI ballI)
  fix hs :: "(pattern \<times> ('b, 'cs, 'st) http_handler) list" and req :: "'b http_request" and st :: 'st
  assume d: "distinct (map (pattern_path \<circ> fst) hs)"
  let ?P = "\<lambda>(m, p, h :: ('b, 'cs, 'st) http_handler). m = hr_Method req \<and> pattern_path p = Some (hr_Path req)"
  show "case x of (p, h) \<Rightarrow> hr_Method req = ''POST'' \<longrightarrow> pattern_path p = Some (hr_Path req) \<longrightarrow>
      list_dispatch (post_all list_Handle hs []) req st = h req st" if mem: "x \<in> set hs" for x
  proof -
    obtain p h where xp: "x = (p, h)" by (cases x)
    have "list_dispatch (post_all list_Handle hs []) req st = h req st"
      if x: "hr_Method req = ''POST''" "pattern_path p = Some (hr_Path req)"
    proof -
      obtain y where y: "find ?P (post_all list_Handle hs []) = Some y"
        using mem x xp by (cases "find ?P (post_all list_Handle hs [])") (auto simp: find_None_iff post_all_list)
      then have "y \<in> set (post_all list_Handle hs [])" "?P y"
        unfolding find_Some_iff by (metis nth_mem, metis)
      then obtain p' h' where y': "y = (''POST'', p', h')" "(p', h') \<in> set hs" "pattern_path p' = Some (hr_Path req)"
        by (auto simp: post_all_list)
      have "inj_on (pattern_path \<circ> fst) (set hs)" using d by (simp add: distinct_map)
      from inj_onD [OF this, of "(p', h')" "(p, h)"] have "(p', h') = (p, h)"
        using mem xp x(2) y'(2,3) by simp
      then show ?thesis
        using y y'(1) by (simp add: list_dispatch_def)
    qed
    then show ?thesis by (simp add: xp)
  qed
  show "\<exists>e. list_dispatch (post_all list_Handle hs []) req st = (Ret (HttpError e), st)"
    if "hr_Method req \<noteq> ''POST'' \<or> Some (hr_Path req) \<notin> (pattern_path \<circ> fst) ` set hs"
  proof -
    have "find ?P (post_all list_Handle hs []) = None"
      using that by (force simp: find_None_iff post_all_list)
    then show ?thesis by (simp add: list_dispatch_def)
  qed
qed

text \<open>A marshaler that finds the end of the input, and requests with no body.\<close>

definition empty_marshaler :: "'c marshaler" where
  "empty_marshaler =
     \<lparr>ma_Ping = (\<lambda>_. ((), Some IoEOF)),
      ma_Start = (\<lambda>_. (\<lparr>sr_ExecPath = [], sr_WhitelistedSubnets = None, sr_LogLevel = None\<rparr>, Some IoEOF)),
      ma_Health = (\<lambda>_. ((), Some IoEOF)), ma_URIs = (\<lambda>_. ((), Some IoEOF)), ma_Status = (\<lambda>_. ((), Some IoEOF)),
      ma_StreamStatus = (\<lambda>_. (\<lparr>ss_PushInterval = 0\<rparr>, Some IoEOF)),
      ma_RemoveNode = (\<lambda>_. (\<lparr>rm_Name = []\<rparr>, Some IoEOF)),
      ma_RestartNode = (\<lambda>_. (\<lparr>rr_Name = [], rr_StartRequest = None\<rparr>, Some IoEOF)),
      ma_Stop = (\<lambda>_. ((), Some IoEOF))\<rparr>"

definition sample_gateway_env :: "(unit, unit, unit) gateway_env" where
  "sample_gateway_env =
     \<lparr>ge_reader = (\<lambda>b. Inr b), ge_text = (\<lambda>_. ''error''), ge_marshaler = (\<lambda>_. empty_marshaler),
      ge_AnnotateContext = (\<lambda>_ _ _. None), ge_AnnotateIncomingContext = (\<lambda>_ _ _. None),
      ge_Header = (\<lambda>_. None)\<rparr>"

definition sample_gateway_conn :: "unit client_conn" where
  "sample_gateway_conn = \<lparr>cc_NewStream = (\<lambda>_. Inr ()), cc_SendMsg = (\<lambda>_ _. Inr ()), cc_CloseSend = (\<lambda>_. Inr ())\<rparr>"

abbreviation post_uris :: "unit http_request" where
  "post_uris \<equiv> \<lparr>hr_Method = ''POST'', hr_Path = ''/v1/control/uris'', hr_Body = ()\<rparr>"

lemma post_uris_asked:
  "asked sample_gateway_env (ge_AnnotateContext sample_gateway_env) post_uris = Some (Inr RqURIs)"
  by (simp add: asked_def gateway_methods_def sample_gateway_env_def empty_marshaler_def decode_body_def as_request_def)

lemma uris_served:
  assumes "gateway sample_gateway_env list_Handle
      (direct_invoke (registered counting_ping counting_control)) sample_gateway_conn [] = Ret mux"
  shows "list_dispatch mux post_uris 4 = (Ret (HttpMessage (RpUris [show_nat 4])), 5)"
proof -
  let ?inv = "direct_invoke (registered counting_ping counting_control)"
  note ans = mux_answers [OF list_mux_ok handler_paths(1) client_handlers_answer post_uris_asked,
    of "ping_client_of ?inv" "control_client_of ?inv sample_gateway_conn" 4]
  show ?thesis
    using assms ans unfolding gateway_eq client_method_stub [abs_def] answer_def counting_call written_def
    by (simp only: outcome.inject sum.case prod.case outcome.case counting_call)
qed

lemma gateway_reaches_method_witness:
  "\<exists>mux rp. gateway sample_gateway_env list_Handle
       (direct_invoke (registered counting_ping counting_control)) sample_gateway_conn [] = Ret mux \<and>
     list_dispatch mux post_uris 4 = (Ret (HttpMessage (RpUris [show_nat 4])), 5) \<and>
     server_method counting_ping counting_control RqURIs 4 = (Ret rp, 5) \<and> same_reply rp (RpUris [show_nat 4])"
proof -
  let ?inv = "direct_invoke (registered counting_ping counting_control)"
  obtain mux where mux: "gateway sample_gateway_env list_Handle ?inv sample_gateway_conn [] = Ret mux"
    by (simp add: gateway_eq)
  note served = uris_served [OF mux]
  from gateway_reaches_method [OF list_mux_ok direct_codec_ok direct_transport_ok counting_typed, OF mux served]
  obtain rp where "server_method counting_ping counting_control RqURIs 4 = (Ret rp, 5)"
      "same_reply rp (RpUris [show_nat 4])"
    unfolding post_uris_asked option.case sum.case by auto
  with mux served show ?thesis by (intro exI conjI)
qed

text \<open>The gateway in the process of the counting server.\<close>

lemma in_process_answers_witness:
  "\<exists>mux. gateway_in_process sample_gateway_env list_Handle counting_ping counting_control [] = Ret mux \<and>
     list_dispatch mux post_uris 4 = (Ret (HttpMessage (RpUris [show_nat 4])), 5)"
proof -
  obtain mux where mux: "gateway_in_process sample_gateway_env list_Handle counting_ping counting_control [] = Ret mux"
    by (simp add: gateway_in_process_eq)
  have "asked sample_gateway_env (ge_AnnotateIncomingContext sample_gateway_env) post_uris = Some (Inr RqURIs)"
    using post_uris_asked by (simp add: sample_gateway_env_def)
  then have "list_dispatch mux post_uris 4 = written (server_method counting_ping counting_control RqURIs 4)"
    using in_process_answers [OF list_mux_ok mux, of post_uris 4] by simp
  also have "\<dots> = (Ret (HttpMessage (RpUris [show_nat 4])), 5)"
    by (simp add: written_def counting_control_def)
  finally show ?thesis using mux by blast
qed

end
