(* ===== verification/Gateway_Session.thy ===== *)
theory Gateway_Session
  imports Gateway_Props Remote_Props
begin

text \<open>
  A whole conversation over HTTP: the gateway, the stubs, the library, the handlers and the server
  together keep the contract of a cluster service.
\<close>

section \<open>Requests over HTTP\<close>

text \<open>What a reply over HTTP says; a stream is not the reply of a unary method.\<close>

fun http_result :: "'cs http_reply outcome \<Rightarrow> reply outcome" where
  "http_result (Ret (HttpMessage rp)) = Ret rp"
| "http_result (Ret (HttpError e)) = Fail e"
| "http_result (Ret (HttpStream x)) = Block"
| "http_result (Fail e) = Fail e"
| "http_result Panic = Panic"
| "http_result Block = Block"

text \<open>\<open>encode\<close> is how a user writes a request: a POST the gateway decodes to it.\<close>

definition encodes ::
  "('b, 'c, 'cs) gateway_env \<Rightarrow> (request \<Rightarrow> 'b http_request) \<Rightarrow> bool" where
  "encodes env encode \<longleftrightarrow> (\<forall>rq. asked env (ge_AnnotateContext env) (encode rq) = Some (Inr rq))"

definition http_call ::
  "(request \<Rightarrow> 'b http_request) \<Rightarrow> ('b, 'cs, 'st) http_handler \<Rightarrow> request \<Rightarrow> 'st meth" where
  "http_call encode serve_http rq st =
     (case serve_http (encode rq) st of (y, st') \<Rightarrow> (http_result y, st'))"


lemma http_result_written: "map_prod http_result id (written p) = p"
  by (cases p; cases "fst p") (simp_all add: written_def)

lemma gateway_serves:
  assumes "mux_ok Handle mux0 dispatch" and "gateway env Handle invoke cc mux0 = Ret mux"
    and "encodes env encode"
  shows "dispatch mux (encode rq) st = written (client_stub invoke rq st)"
proof -
  have "asked env (ge_AnnotateContext env) (encode rq) = Some (Inr rq)"
    using assms(3) by (simp add: encodes_def)
  from mux_answers [OF assms(1) handler_paths(1) client_handlers_answer this,
      of "ping_client_of invoke" "control_client_of invoke cc" st]
  show ?thesis
    using assms(2) by (simp add: gateway_eq answer_def client_method_stub)
qed

lemma http_call_stub:
  assumes "mux_ok Handle mux0 dispatch" and "gateway env Handle invoke cc mux0 = Ret mux"
    and "encodes env encode"
  shows "http_call encode (dispatch mux) rq st = client_stub invoke rq st"
  using http_result_written [of "client_stub invoke rq st"]
  by (simp add: http_call_def gateway_serves [OF assms] map_prod_def split_beta)

section \<open>The contract\<close>













end
