(* ===== verification/Commands.thy ===== *)
theory Commands
  imports Client
begin

text \<open>
  The command line, \<open>src/cmd/avalanche-network-runner\<close>: the tree of commands with their flags and
  defaults, and the functions of the client commands.  The parser of the command line (cobra) is
  outside: it runs the function of a command with the values of the flags, and suggests commands for
  misspelt names (\<open>SuggestFor\<close>).  The server command and
  the command that streams the status are in the theories on their goroutines.
\<close>

section \<open>The tree of commands\<close>

text \<open>A duration is its number of seconds.\<close>

datatype flag_default = StrFlag string | DurFlag nat

record flag =
  fg_name :: string
  fg_default :: flag_default
  fg_usage :: string

datatype runE =
    ServerFunc | PingFunc | StartFunc | HealthFunc | URIsFunc | StatusFunc | StreamStatusFunc
  | RemoveNodeFunc | RestartNodeFunc | StopFunc

datatype command =
  Command (cmd_Use: string) (cmd_Short: string) (cmd_flags: "flag list") (cmd_RunE: "runE option")
    (cmd_sub: "command list")

definition str_flag :: "string \<Rightarrow> string \<Rightarrow> string \<Rightarrow> flag" where
  "str_flag name d usage = \<lparr>fg_name = name, fg_default = StrFlag d, fg_usage = usage\<rparr>"

definition dur_flag :: "string \<Rightarrow> nat \<Rightarrow> string \<Rightarrow> flag" where
  "dur_flag name d usage = \<lparr>fg_name = name, fg_default = DurFlag d, fg_usage = usage\<rparr>"

definition newStartCommand :: command where
  "newStartCommand =
     Command ''start [options]'' ''Starts the server.''
       [str_flag ''avalanchego-path'' [] ''avalanchego binary path'',
        str_flag ''whitelisted-subnets'' [] ''whitelisted subnets (comma-separated)'']
       (Some StartFunc) []"

definition newHealthCommand :: command where
  "newHealthCommand = Command ''health [options]'' ''Requests server health.'' [] (Some HealthFunc) []"

definition newURIsCommand :: command where
  "newURIsCommand = Command ''uris [options]'' ''Requests server uris.'' [] (Some URIsFunc) []"

definition newStatusCommand :: command where
  "newStatusCommand = Command ''status [options]'' ''Requests server status.'' [] (Some StatusFunc) []"

definition newStreamStatusCommand :: command where
  "newStreamStatusCommand =
     Command ''stream-status [options]'' ''Requests server bootstrap status.''
       [dur_flag ''push-interval'' 5 ''interval that server pushes status updates to the client'']
       (Some StreamStatusFunc) []"

definition newRemoveNodeCommand :: command where
  "newRemoveNodeCommand =
     Command ''remove-node [options]'' ''Removes a node.''
       [str_flag ''node-name'' [] ''node name to remove''] (Some RemoveNodeFunc) []"

definition newRestartNodeCommand :: command where
  "newRestartNodeCommand =
     Command ''restart-node [options]'' ''Restarts the server.''
       [str_flag ''node-name'' [] ''node name to restart'',
        str_flag ''avalanchego-path'' [] ''avalanchego binary path'',
        str_flag ''whitelisted-subnets'' [] ''whitelisted subnets (comma-separated)'']
       (Some RestartNodeFunc) []"

definition newStopCommand :: command where
  "newStopCommand = Command ''stop [options]'' ''Requests server stop.'' [] (Some StopFunc) []"

definition control_NewCommand :: command where
  "control_NewCommand =
     Command ''control [options]'' ''Start a network runner controller.''
       [str_flag ''log-level'' DefaultLogLevel ''log level'',
        str_flag ''endpoint'' ''0.0.0.0:8080'' ''server endpoint'',
        dur_flag ''dial-timeout'' 10 ''server dial timeout'',
        dur_flag ''request-timeout'' 60 ''client request timeout'']
       None
       [newStartCommand, newHealthCommand, newURIsCommand, newStatusCommand, newStreamStatusCommand,
        newRemoveNodeCommand, newRestartNodeCommand, newStopCommand]"

definition ping_NewCommand :: command where
  "ping_NewCommand =
     Command ''ping [options]'' ''Ping the server.''
       [str_flag ''log-level'' DefaultLogLevel ''log level'',
        str_flag ''endpoint'' ''0.0.0.0:8080'' ''server endpoint'',
        dur_flag ''dial-timeout'' 10 ''server dial timeout'',
        dur_flag ''request-timeout'' 10 ''client request timeout'']
       (Some PingFunc) []"

definition server_NewCommand :: command where
  "server_NewCommand =
     Command ''server [options]'' ''Start a network runner server.''
       [str_flag ''log-level'' DefaultLogLevel ''log level'',
        str_flag ''port'' '':8080'' ''server port'',
        str_flag ''grpc-gateway-port'' '':8081'' ''grpc-gateway server port'',
        dur_flag ''dial-timeout'' 10 ''server dial timeout'']
       (Some ServerFunc) []"

definition rootCmd :: command where
  "rootCmd =
     Command ''avalanche-network-runner'' ''avalanche-network-runner commands'' [] None
       [server_NewCommand, ping_NewCommand, control_NewCommand]"

text \<open>The exit status of \<open>main\<close>, and what it prints, from what \<open>Execute\<close> returns.\<close>

definition main_exit :: "(go_error \<Rightarrow> string) \<Rightarrow> go_error option \<Rightarrow> nat \<times> printed list" where
  "main_exit show_err e =
     (case e of
        Some err \<Rightarrow> (1, [Stderr (''avalanche-network-runner failed '' @ show_err err @ [CHR 0x0A])])
      | None \<Rightarrow> (0, []))"

section \<open>The functions of the client commands\<close>

text \<open>The package variables the flags are stored in.\<close>

record control_vars =
  fv_logLevel :: string
  fv_endpoint :: string
  fv_dialTimeout :: int
  fv_avalancheGoBinPath :: string
  fv_whitelistedSubnets :: string
  fv_nodeName :: string

text \<open>How the responses are printed, \<open>%+v\<close> of a message and \<open>%q\<close> of the addresses.\<close>

record 'st command_env = "'st client_env" +
  cv_show :: "reply \<Rightarrow> string"
  cv_quote :: "string list \<Rightarrow> string"

type_synonym 'st command_run = "unit outcome \<times> printed list \<times> 'st"

text \<open>
  The common beginning and end: the client is made, and closed when the function returns.  The
  context of the request and its timeout belong to the connection: a call that does not return in
  time returns an error.
\<close>

definition with_client ::
  "'st command_env \<Rightarrow> control_vars \<Rightarrow> ('st client \<Rightarrow> 'st \<Rightarrow> 'st command_run) \<Rightarrow> 'st \<Rightarrow> 'st command_run" where
  "with_client D v body st =
     (case client_New (client_env.truncate D)
             \<lparr>cg_LogLevel = fv_logLevel v, cg_Endpoint = fv_endpoint v, cg_DialTimeout = fv_dialTimeout v\<rparr> of
        (Fail e, out) \<Rightarrow> (Fail e, out, st)
      | (Panic, out) \<Rightarrow> (Panic, out, st)
      | (Block, out) \<Rightarrow> (Block, out, st)
      | (Ret c, out) \<Rightarrow>
          (case body c st of
             (r, out1, st1) \<Rightarrow> (r, out @ out1, snd (client_Close c st1))))"

text \<open>The rest of a command: print the response, or return the error.\<close>

definition respond ::
  "'st command_env \<Rightarrow> string \<Rightarrow> ('a \<Rightarrow> string) \<Rightarrow> 'a outcome \<times> 'st \<Rightarrow> 'st command_run" where
  "respond D fmt shw res =
     (case res of
        (Ret x, st) \<Rightarrow> (Ret (), [Outf (cv_F D) (fmt @ [CHR 0x0A]) [shw x]], st)
      | (Fail e, st) \<Rightarrow> (Fail e, [], st)
      | (Panic, st) \<Rightarrow> (Panic, [], st)
      | (Block, st) \<Rightarrow> (Block, [], st))"

definition startFunc :: "'st command_env \<Rightarrow> control_vars \<Rightarrow> 'st \<Rightarrow> 'st command_run" where
  "startFunc D v = with_client D v (\<lambda>c st.
     respond D ''{{green}}start response:{{/}} %+v'' (cv_show D)
       (client_Start c (fv_avalancheGoBinPath v) [WithWhitelistedSubnets (fv_whitelistedSubnets v)] st))"

definition healthFunc :: "'st command_env \<Rightarrow> control_vars \<Rightarrow> 'st \<Rightarrow> 'st command_run" where
  "healthFunc D v = with_client D v (\<lambda>c st.
     respond D ''{{green}}health response:{{/}} %+v'' (cv_show D) (client_Health c st))"

definition urisFunc :: "'st command_env \<Rightarrow> control_vars \<Rightarrow> 'st \<Rightarrow> 'st command_run" where
  "urisFunc D v = with_client D v (\<lambda>c st.
     respond D ''{{green}}URIs:{{/}} %q'' (cv_quote D) (client_URIs c st))"

definition statusFunc :: "'st command_env \<Rightarrow> control_vars \<Rightarrow> 'st \<Rightarrow> 'st command_run" where
  "statusFunc D v = with_client D v (\<lambda>c st.
     respond D ''{{green}}status response:{{/}} %+v'' (cv_show D) (client_Status c st))"

definition removeNodeFunc :: "'st command_env \<Rightarrow> control_vars \<Rightarrow> 'st \<Rightarrow> 'st command_run" where
  "removeNodeFunc D v = with_client D v (\<lambda>c st.
     respond D ''{{green}}remove node response:{{/}} %+v'' (cv_show D) (client_RemoveNode c (fv_nodeName v) st))"

definition restartNodeFunc :: "'st command_env \<Rightarrow> control_vars \<Rightarrow> 'st \<Rightarrow> 'st command_run" where
  "restartNodeFunc D v = with_client D v (\<lambda>c st.
     respond D ''{{green}}restart node response:{{/}} %+v'' (cv_show D)
       (client_RestartNode c (fv_nodeName v) (fv_avalancheGoBinPath v)
          [WithWhitelistedSubnets (fv_whitelistedSubnets v)] st))"

definition stopFunc :: "'st command_env \<Rightarrow> control_vars \<Rightarrow> 'st \<Rightarrow> 'st command_run" where
  "stopFunc D v = with_client D v (\<lambda>c st.
     respond D ''{{green}}stop response:{{/}} %+v'' (cv_show D) (client_Stop c st))"

definition pingFunc :: "'st command_env \<Rightarrow> control_vars \<Rightarrow> 'st \<Rightarrow> 'st command_run" where
  "pingFunc D v = with_client D v (\<lambda>c st.
     respond D ''ping response {{green}}%+v{{/}}'' (cv_show D) (client_Ping c st))"

text \<open>The function of a command, where it is one request.\<close>

fun run_command :: "runE \<Rightarrow> ('st command_env \<Rightarrow> control_vars \<Rightarrow> 'st \<Rightarrow> 'st command_run) option" where
  "run_command PingFunc = Some pingFunc"
| "run_command StartFunc = Some startFunc"
| "run_command HealthFunc = Some healthFunc"
| "run_command URIsFunc = Some urisFunc"
| "run_command StatusFunc = Some statusFunc"
| "run_command RemoveNodeFunc = Some removeNodeFunc"
| "run_command RestartNodeFunc = Some restartNodeFunc"
| "run_command StopFunc = Some stopFunc"
| "run_command ServerFunc = None"
| "run_command StreamStatusFunc = None"

text \<open>The one call of the client such a command makes.\<close>

fun command_call :: "control_vars \<Rightarrow> runE \<Rightarrow> client_call option" where
  "command_call v PingFunc = Some CallPing"
| "command_call v StartFunc =
     Some (CallStart (fv_avalancheGoBinPath v) [WithWhitelistedSubnets (fv_whitelistedSubnets v)])"
| "command_call v HealthFunc = Some CallHealth"
| "command_call v URIsFunc = Some CallURIs"
| "command_call v StatusFunc = Some CallStatus"
| "command_call v RemoveNodeFunc = Some (CallRemoveNode (fv_nodeName v))"
| "command_call v RestartNodeFunc =
     Some (CallRestartNode (fv_nodeName v) (fv_avalancheGoBinPath v)
             [WithWhitelistedSubnets (fv_whitelistedSubnets v)])"
| "command_call v StopFunc = Some CallStop"
| "command_call v ServerFunc = None"
| "command_call v StreamStatusFunc = None"

end
