(* ===== verification/Commands_Props.thy ===== *)
theory Commands_Props
  imports Commands Remote_Props
begin

text \<open>
  Properties of the commands: a client command is one request to the server, or nothing; and the
  defaults of the commands fit together.
\<close>

section \<open>A command is one request\<close>

text \<open>
  What a command returns and prints for the outcome of its request: a table of the formats, the
  addresses quoted and every other response printed as the message it is, nothing on an error.
\<close>

definition reported :: "'a outcome \<Rightarrow> unit outcome" where
  "reported r = map_outcome (\<lambda>_. ()) r"

fun response_format :: "runE \<Rightarrow> string" where
  "response_format PingFunc = ''ping response {{green}}%+v{{/}}''"
| "response_format StartFunc = ''{{green}}start response:{{/}} %+v''"
| "response_format HealthFunc = ''{{green}}health response:{{/}} %+v''"
| "response_format URIsFunc = ''{{green}}URIs:{{/}} %q''"
| "response_format StatusFunc = ''{{green}}status response:{{/}} %+v''"
| "response_format RemoveNodeFunc = ''{{green}}remove node response:{{/}} %+v''"
| "response_format RestartNodeFunc = ''{{green}}restart node response:{{/}} %+v''"
| "response_format StopFunc = ''{{green}}stop response:{{/}} %+v''"
| "response_format _ = []"

fun shown :: "'st command_env \<Rightarrow> runE \<Rightarrow> reply \<Rightarrow> string" where
  "shown D URIsFunc (RpUris uris) = cv_quote D uris"
| "shown D k rp = cv_show D rp"

fun response_lines :: "'st command_env \<Rightarrow> runE \<Rightarrow> reply outcome \<Rightarrow> printed list" where
  "response_lines D k (Ret rp) = [Outf (cv_F D) (response_format k @ [CHR 0x0A]) [shown D k rp]]"
| "response_lines D k _ = []"

lemma truncate_simps [simp]:
  "cv_build (client_env.truncate D) = cv_build D" "cv_F (client_env.truncate D) = cv_F D"
  "cv_dial (client_env.truncate D) = cv_dial D"
  by (simp_all add: client_env.truncate_def)

abbreviation dials :: "'st command_env \<Rightarrow> control_vars \<Rightarrow> go_error + 'st connection" where
  "dials D v \<equiv> cv_dial D (fv_endpoint v) (fv_dialTimeout v)"

definition dialed :: "control_vars \<Rightarrow> 'st connection \<Rightarrow> 'st client" where
  "dialed v conn =
     \<lparr>ct_cfg = \<lparr>cg_LogLevel = fv_logLevel v, cg_Endpoint = fv_endpoint v, cg_DialTimeout = fv_dialTimeout v\<rparr>,
      ct_conn = conn, ct_pingc = cn_Invoke conn, ct_controlc = cn_Invoke conn, ct_closed = new_once_chan\<rparr>"

definition dial_line :: "'st command_env \<Rightarrow> control_vars \<Rightarrow> printed" where
  "dial_line D v = Outf (cv_F D) (''{{blue}}dialing endpoint %q{{/}}'' @ [CHR 0x0A]) [fv_endpoint v]"

lemma dialed_close: "snd (client_Close (dialed v conn) st) = snd (cn_Close conn st)"
  by (simp add: dialed_def client_Close_def client_close_chan_def once_close_def new_once_chan_def
      split: prod.splits)

lemma with_client_dialed:
  assumes "setup_logger (cv_build D) (fv_logLevel v) = Ret cfg" and "dials D v = Inr conn"
  shows "with_client D v body st =
    (case body (dialed v conn) st of (r, out, st1) \<Rightarrow> (r, dial_line D v # out, snd (cn_Close conn st1)))"
  using assms dialed_close [of v conn]
  by (simp add: with_client_def client_New_def NewPingServiceClient_def NewControlServiceClient_def
      dialed_def dial_line_def)

lemma respond_eq:
  "respond D fmt shw (r, st) =
     (reported r, case r of Ret x \<Rightarrow> [Outf (cv_F D) (fmt @ [CHR 0x0A]) [shw x]] | _ \<Rightarrow> [], st)"
  by (cases r) (simp_all add: respond_def reported_def)

lemma with_client_respond:
  assumes "setup_logger (cv_build D) (fv_logLevel v) = Ret cfg" and "dials D v = Inr conn"
    and "f (dialed v conn) st = (r, st1)"
  shows "with_client D v (\<lambda>c st. respond D fmt shw (f c st)) st =
    (reported r, dial_line D v # (case r of Ret x \<Rightarrow> [Outf (cv_F D) (fmt @ [CHR 0x0A]) [shw x]] | _ \<Rightarrow> []),
     snd (cn_Close conn st1))"
  by (simp add: with_client_dialed [OF assms(1,2)] assms(3) respond_eq)

lemma response_lines_show:
  "k \<noteq> URIsFunc \<Longrightarrow>
   (case r of Ret x \<Rightarrow> [Outf (cv_F D) (response_format k @ [CHR 0x0A]) [cv_show D x]] | _ \<Rightarrow> []) = response_lines D k r"
  by (cases r; cases k) simp_all

lemma response_lines_quote:
  "(case r of Ret x \<Rightarrow> [Outf (cv_F D) (response_format URIsFunc @ [CHR 0x0A]) [cv_quote D x]] | _ \<Rightarrow> []) =
   response_lines D URIsFunc (map_outcome RpUris r)"
  by (cases r) simp_all

lemma reported_map [simp]: "reported (map_outcome f r) = reported r"
  by (cases r) (simp_all add: reported_def)

lemma command_runs:
  assumes "run_command k = Some run \<and> command_call v k = Some call"
    and "setup_logger (cv_build D) (fv_logLevel v) = Ret cfg" and "dials D v = Inr conn" and "typed_conn conn"
    and "client_stub (cn_Invoke conn) (call_request call) st = (r0, st0)"
  shows "run D v st = (reported r0, dial_line D v # response_lines D k r0, snd (cn_Close conn st0))"
proof -
  have did: "client_do (dialed v conn) call st = (r0, st0)"
    using client_do_stub [OF assms(4), of "dialed v conn"] assms(5) by (simp add: dialed_def)
  have run: "with_client D v (\<lambda>c st. respond D (response_format k) (cv_show D) (f c st)) st =
        (reported r0, dial_line D v # response_lines D k r0, snd (cn_Close conn st0))"
    if "f (dialed v conn) st = (r0, st0)" "k \<noteq> URIsFunc" for f k
    using with_client_respond [OF assms(2,3), of f, OF that(1)] response_lines_show [OF that(2), where r = r0 and D = D] by simp
  show ?thesis
  proof (cases k)
    case URIsFunc
    then obtain ru where ru: "client_URIs (dialed v conn) st = (ru, st0)" "r0 = map_outcome RpUris ru"
      using did assms(1) by (auto split: prod.splits)
    then show ?thesis
      using assms(1) URIsFunc with_client_respond [OF assms(2,3), of client_URIs, OF ru(1)]
        response_lines_quote [where r = ru and D = D, unfolded response_format.simps]
      by (auto simp: urisFunc_def)
  next
    case PingFunc
    then show ?thesis using assms(1) did run [of client_Ping PingFunc] by (auto simp: pingFunc_def)
  next
    case StartFunc
    then show ?thesis using assms(1) did run [of _ StartFunc] by (auto simp: startFunc_def)
  next
    case HealthFunc
    then show ?thesis using assms(1) did run [of client_Health HealthFunc] by (auto simp: healthFunc_def)
  next
    case StatusFunc
    then show ?thesis using assms(1) did run [of client_Status StatusFunc] by (auto simp: statusFunc_def)
  next
    case RemoveNodeFunc
    then show ?thesis using assms(1) did run [of _ RemoveNodeFunc] by (auto simp: removeNodeFunc_def)
  next
    case RestartNodeFunc
    then show ?thesis using assms(1) did run [of _ RestartNodeFunc] by (auto simp: restartNodeFunc_def)
  next
    case StopFunc
    then show ?thesis using assms(1) did run [of client_Stop StopFunc] by (auto simp: stopFunc_def)
  qed (use assms(1) in auto)
qed

text \<open>C21: A client command is one request or none.  With an unknown log level it panics, and when the
  logger or the connection cannot be made it returns that error, each time without asking the server
  anything; otherwise it sends exactly the request its name and flags say, closes the connection,
  and when the call succeeds prints the dialing line and one line with the format of the command and
  the response it got; when the call fails it prints the dialing line only and returns the error.
  (The replies of the connection have the types of the messages, as gRPC decodes them.)\<close>

theorem command_is_one_request:
  assumes "run_command k = Some run \<and> command_call v k = Some call" and "\<And>conn. dials D v = Inr conn \<Longrightarrow> typed_conn conn"
    and "run D v st = (r, out, st')"
  shows "case setup_logger (cv_build D) (fv_logLevel v) of
      Ret _ \<Rightarrow>
        (case dials D v of
           Inl e \<Rightarrow> r = Fail e \<and> st' = st \<and> out = [dial_line D v]
         | Inr conn \<Rightarrow>
             (let (r0, st0) = client_stub (cn_Invoke conn) (call_request call) st
              in st' = snd (cn_Close conn st0) \<and> r = reported r0 \<and> out = dial_line D v # response_lines D k r0))
    | Fail e \<Rightarrow> r = Fail e \<and> st' = st \<and> out = []
    | Panic \<Rightarrow> r = Panic \<and> st' = st \<and> out = []
    | Block \<Rightarrow> r = Block \<and> st' = st \<and> out = []"
proof (cases "\<exists>cfg conn. setup_logger (cv_build D) (fv_logLevel v) = Ret cfg \<and> dials D v = Inr conn")
  case True
  then obtain cfg conn where c: "setup_logger (cv_build D) (fv_logLevel v) = Ret cfg" "dials D v = Inr conn"
    by blast
  obtain r0 st0 where stub: "client_stub (cn_Invoke conn) (call_request call) st = (r0, st0)"
    by (cases "client_stub (cn_Invoke conn) (call_request call) st")
  then show ?thesis using command_runs [OF assms(1) c assms(2) [OF c(2)] stub] assms(3) c by auto
next
  case False
  obtain body where run: "run D v = with_client D v body"
    using assms(1)
    by (cases k) (auto simp: pingFunc_def startFunc_def healthFunc_def urisFunc_def statusFunc_def
        removeNodeFunc_def restartNodeFunc_def stopFunc_def)
  show ?thesis
    using False assms(3) unfolding run
    by (cases "setup_logger (cv_build D) (fv_logLevel v)"; cases "dials D v")
       (auto simp: with_client_def client_New_def dial_line_def Let_def)
qed

definition sample_command_env :: "(string list session \<times> nat) command_env" where
  "sample_command_env =
     \<lparr>cv_build = (\<lambda>_. None), cv_F = (\<lambda>f args. f), cv_dial = (\<lambda>_ _. Inr sample_conn),
      cv_show = (\<lambda>_. ''response''), cv_quote = concat\<rparr>"

definition sample_vars :: control_vars where
  "sample_vars = \<lparr>fv_logLevel = ''info'', fv_endpoint = ''0.0.0.0:8080'', fv_dialTimeout = 10,
     fv_avalancheGoBinPath = ''/bin/avalanchego'', fv_whitelistedSubnets = [], fv_nodeName = ''node1''\<rparr>"

lemma sample_ping:
  "\<exists>rp st0. client_stub (cn_Invoke sample_conn) RqPing (new_session, 0) = (Ret rp, st0)"
proof -
  obtain r st where "scheduled sample_ext (\<lambda>_. sample_env) RqPing (new_session :: string list session, 0) = (Ret r, st)"
    by (simp add: scheduled_def serve_def settle_def new_session_def)
  then show ?thesis
    using direct_stub [of sample_ext "\<lambda>_. sample_env" RqPing "(new_session, 0)" "Ret r" st] by (simp add: sample_conn_def)
qed

lemma command_is_one_request_witness:
  "\<exists>rp st0. client_stub (cn_Invoke sample_conn) RqPing (new_session, 0) = (Ret rp, st0) \<and>
     fst (snd (pingFunc sample_command_env sample_vars (new_session, 0))) =
       [dial_line sample_command_env sample_vars,
        Outf (\<lambda>f args. f) (''ping response {{green}}%+v{{/}}'' @ [CHR 0x0A]) [''response'']]"
proof -
  obtain cfg where "setup_logger (cv_build sample_command_env) (fv_logLevel sample_vars) = Ret cfg"
    using sample_logger by (auto simp: sample_command_env_def sample_vars_def)
  moreover have env: "dials sample_command_env sample_vars = Inr sample_conn" "cv_F sample_command_env = (\<lambda>f args. f)"
      "cv_show sample_command_env = (\<lambda>_. ''response'')"
    by (simp_all add: sample_command_env_def)
  moreover obtain r out st' where run: "pingFunc sample_command_env sample_vars (new_session, 0) = (r, out, st')"
    by (rule prod_cases3)
  moreover obtain rp st0 where stub: "client_stub (cn_Invoke sample_conn) RqPing (new_session, 0) = (Ret rp, st0)"
    using sample_ping by blast
  ultimately have "out = dial_line sample_command_env sample_vars # response_lines sample_command_env PingFunc (Ret rp)"
    using command_is_one_request [of PingFunc pingFunc sample_vars CallPing sample_command_env "(new_session, 0)" r out st']
      sample_typed
    by (simp split: prod.splits)
  then show ?thesis using run stub env by (intro exI [of _ rp] exI [of _ st0]) simp
qed

section \<open>The defaults\<close>

text \<open>The commands that run something, with their own flags and those they inherit.\<close>

fun leaves :: "flag list \<Rightarrow> command \<Rightarrow> (runE \<times> flag list) list" where
  "leaves inherited (Command use short flags run subs) =
     (case run of None \<Rightarrow> [] | Some f \<Rightarrow> [(f, inherited @ flags)]) @
     concat (map (leaves (inherited @ flags)) subs)"

definition default_of :: "string \<Rightarrow> flag list \<Rightarrow> flag_default option" where
  "default_of name flags = map_of (map (\<lambda>f. (fg_name f, fg_default f)) flags) name"

definition flags_of :: "runE \<Rightarrow> flag list" where
  "flags_of f = (case map_of (leaves [] rootCmd) f of Some flags \<Rightarrow> flags | None \<Rightarrow> [])"

definition healthyWait_seconds :: nat where
  "healthyWait_seconds = 120"

lemmas command_defs = rootCmd_def server_NewCommand_def ping_NewCommand_def control_NewCommand_def
  newStartCommand_def newHealthCommand_def newURIsCommand_def newStatusCommand_def
  newStreamStatusCommand_def newRemoveNodeCommand_def newRestartNodeCommand_def newStopCommand_def
  str_flag_def dur_flag_def

lemma leaves_rootCmd:
  "map (\<lambda>(f, flags). (f, map fg_name flags)) (leaves [] rootCmd) =
     [(ServerFunc, [''log-level'', ''port'', ''grpc-gateway-port'', ''dial-timeout'']),
      (PingFunc, [''log-level'', ''endpoint'', ''dial-timeout'', ''request-timeout'']),
      (StartFunc, [''log-level'', ''endpoint'', ''dial-timeout'', ''request-timeout'', ''avalanchego-path'', ''whitelisted-subnets'']),
      (HealthFunc, [''log-level'', ''endpoint'', ''dial-timeout'', ''request-timeout'']),
      (URIsFunc, [''log-level'', ''endpoint'', ''dial-timeout'', ''request-timeout'']),
      (StatusFunc, [''log-level'', ''endpoint'', ''dial-timeout'', ''request-timeout'']),
      (StreamStatusFunc, [''log-level'', ''endpoint'', ''dial-timeout'', ''request-timeout'', ''push-interval'']),
      (RemoveNodeFunc, [''log-level'', ''endpoint'', ''dial-timeout'', ''request-timeout'', ''node-name'']),
      (RestartNodeFunc, [''log-level'', ''endpoint'', ''dial-timeout'', ''request-timeout'', ''node-name'', ''avalanchego-path'', ''whitelisted-subnets'']),
      (StopFunc, [''log-level'', ''endpoint'', ''dial-timeout'', ''request-timeout''])]"
  by (simp add: command_defs)

text \<open>Every function has exactly one command, no command has two flags of one name, and the defaults
  fit together: the client commands dial the address the server listens on by default, and a
  health request has, by default, only half of the time the server may wait before it answers.\<close>

theorem command_defaults_fit:
  "distinct (map fst (leaves [] rootCmd)) \<and>
   list_all (\<lambda>(f, flags). distinct (map fg_name flags) \<and> default_of ''log-level'' flags = Some (StrFlag ''info''))
     (leaves [] rootCmd) \<and>
   default_of ''port'' (flags_of ServerFunc) = Some (StrFlag '':8080'') \<and>
   default_of ''endpoint'' (flags_of HealthFunc) = Some (StrFlag (''0.0.0.0'' @ '':8080'')) \<and>
   default_of ''endpoint'' (flags_of PingFunc) = default_of ''endpoint'' (flags_of HealthFunc) \<and>
   default_of ''request-timeout'' (flags_of HealthFunc) = Some (DurFlag (healthyWait_seconds div 2))"
  by (simp add: command_defs default_of_def flags_of_def healthyWait_seconds_def DefaultLogLevel_def)

end
