(* ===== verification/Command_Runs.thy ===== *)
theory Command_Runs
  imports Commands Lifecycle
begin

text \<open>
  The two commands that start goroutines: \<open>stream-status\<close>, with the goroutine that waits for a
  signal or the end of the context, over the client's side of the status stream; and \<open>server\<close>, with
  the goroutine that runs the server.  Both are state machines over events, as in the theories they
  build on.
\<close>

section \<open>\<open>streamStatusFunc\<close>\<close>

datatype waiter_pc = WaSelect | WaCancel | WaDone
datatype stream_main_pc = SkRange | SkCancel | SkWait | SkReturn

text \<open>
  The client's stream with its goroutine (the function is the consumer, its context is the one of
  the stream), whether a signal is in \<open>sigc\<close>, the waiting goroutine, the function, and what was
  printed; \<open>donec\<close> is closed when the waiting goroutine is done.
\<close>

record 'm stream_cmd =
  sk_cs :: "'m client_stream"
  sk_signal :: bool
  sk_waiter :: waiter_pc
  sk_pc :: stream_main_pc
  sk_printed :: "'m list"

datatype 'm stream_cmd_event =
    SkSignal | SkTimeout
  | SkWaiterSig | SkWaiterCtx | SkWaiterEnd
  | SkClient "'m client_event"
  | SkTake | SkMainCancel | SkMainDone

text \<open>
  \<open>streamStatusFunc\<close> up to its loop.  The goroutine that waits for a signal is started before
  \<open>cli.StreamStatus\<close>; it is listed with the state the loop starts from, and left out when
  \<open>StreamStatus\<close> fails, where the command returns and the process ends with it.
\<close>

definition stream_cmd_begin ::
  "'stream client_conn \<Rightarrow> int64 \<Rightarrow> 'm stream_cmd outcome" where
  "stream_cmd_begin cc pushInterval =
     (case client_StreamStatus cc pushInterval of
        Inl e \<Rightarrow> Fail e
      | Inr (_, cs) \<Rightarrow>
          Ret \<lparr>sk_cs = cs, sk_signal = False, sk_waiter = WaSelect, sk_pc = SkRange, sk_printed = []\<rparr>)"

text \<open>
  The beginning of the function makes the client like every other command; \<open>streams\<close> are the streams
  of its connection.
\<close>

definition streamStatusFunc_begin ::
  "'st command_env \<Rightarrow> ('st connection \<Rightarrow> 'stream client_conn) \<Rightarrow> control_vars \<Rightarrow> int64 \<Rightarrow>
   'm stream_cmd outcome \<times> printed list" where
  "streamStatusFunc_begin D streams v pushInterval =
     (case client_New (client_env.truncate D)
             \<lparr>cg_LogLevel = fv_logLevel v, cg_Endpoint = fv_endpoint v, cg_DialTimeout = fv_dialTimeout v\<rparr> of
        (Fail e, out) \<Rightarrow> (Fail e, out)
      | (Panic, out) \<Rightarrow> (Panic, out)
      | (Block, out) \<Rightarrow> (Block, out)
      | (Ret c, out) \<Rightarrow> (stream_cmd_begin (streams (ct_conn c)) pushInterval, out))"

text \<open>The steps of the client's own goroutine.\<close>

fun is_goroutine_event :: "'m client_event \<Rightarrow> bool" where
  "is_goroutine_event CSelStop = True"
| "is_goroutine_event CSelDefault = True"
| "is_goroutine_event (CRecvOk _) = True"
| "is_goroutine_event (CRecvErr _) = True"
| "is_goroutine_event CPut = True"
| "is_goroutine_event _ = False"

text \<open>
  The loop over the channel prints each value and ends when the channel is closed and empty; then
  the function cancels the context and waits for the other goroutine.  The deferred \<open>Close\<close> of the
  client runs after its return, as in the other commands.
\<close>

fun stream_cmd_step :: "'m stream_cmd_event \<Rightarrow> 'm stream_cmd \<Rightarrow> 'm stream_cmd option" where
  "stream_cmd_step SkSignal st = (if sk_signal st then None else Some (st\<lparr>sk_signal := True\<rparr>))"
| "stream_cmd_step SkTimeout st =
     (if cl_ctx (sk_cs st) then None else Some (st\<lparr>sk_cs := (sk_cs st)\<lparr>cl_ctx := True\<rparr>\<rparr>))"
| "stream_cmd_step SkWaiterSig st =
     (if sk_waiter st = WaSelect \<and> sk_signal st then Some (st\<lparr>sk_waiter := WaCancel\<rparr>) else None)"
| "stream_cmd_step SkWaiterCtx st =
     (if sk_waiter st = WaSelect \<and> cl_ctx (sk_cs st) then Some (st\<lparr>sk_waiter := WaCancel\<rparr>) else None)"
| "stream_cmd_step SkWaiterEnd st =
     (if sk_waiter st = WaCancel
      then Some (st\<lparr>sk_waiter := WaDone, sk_cs := (sk_cs st)\<lparr>cl_ctx := True\<rparr>\<rparr>) else None)"
| "stream_cmd_step (SkClient ev) st =
     (if is_goroutine_event ev then map_option (\<lambda>cs. st\<lparr>sk_cs := cs\<rparr>) (client_step ev (sk_cs st)) else None)"
| "stream_cmd_step SkTake st =
     (if sk_pc st \<noteq> SkRange then None
      else
        (case client_step Take (sk_cs st) of
           None \<Rightarrow> None
         | Some cs \<Rightarrow>
             Some (case cl_ch (sk_cs st) of
                     m # _ \<Rightarrow> st\<lparr>sk_cs := cs, sk_printed := sk_printed st @ [m]\<rparr>
                   | [] \<Rightarrow> st\<lparr>sk_cs := cs, sk_pc := SkCancel\<rparr>)))"
| "stream_cmd_step SkMainCancel st =
     (if sk_pc st = SkCancel
      then Some (st\<lparr>sk_pc := SkWait, sk_cs := (sk_cs st)\<lparr>cl_ctx := True\<rparr>\<rparr>) else None)"
| "stream_cmd_step SkMainDone st =
     (if sk_pc st = SkWait \<and> sk_waiter st = WaDone then Some (st\<lparr>sk_pc := SkReturn\<rparr>) else None)"

abbreviation stream_cmd_run :: "'m stream_cmd_event list \<Rightarrow> 'm stream_cmd \<Rightarrow> 'm stream_cmd option" where
  "stream_cmd_run \<equiv> run_events stream_cmd_step"

section \<open>\<open>serverFunc\<close>\<close>

datatype server_runner = RuRun | RuSend "go_error option" | RuEnd
datatype server_main_pc = SmSelect | SmCancelSig | SmRecv | SmCancelErr | SmReturn

record server_cmd =
  sr_run :: run
  sr_signal :: bool
  sr_runner :: server_runner
  sr_main :: server_main_pc
  sr_err :: "go_error option"

datatype server_cmd_event =
    CmdRun run_event | CmdRunDone
  | CmdSignal | CmdSelSig | CmdCancelSig | CmdRecv | CmdSelErr | CmdCancelErr

text \<open>
  The logger, then the server.  A logger that cannot be built ends the process with a message and
  status 1, like the error of the command.
\<close>

definition serverFunc_begin ::
  "(zap_Config \<Rightarrow> go_error option) \<Rightarrow> (string \<Rightarrow> go_error option) \<Rightarrow> string \<Rightarrow> Config \<Rightarrow> server_cmd outcome" where
  "serverFunc_begin build listen logLevel cfg =
     (case setup_logger build logLevel of
        Fail e \<Rightarrow> Fail e | Panic \<Rightarrow> Panic | Block \<Rightarrow> Block
      | Ret _ \<Rightarrow>
          (case New listen cfg of
             Fail e \<Rightarrow> Fail e | Panic \<Rightarrow> Panic | Block \<Rightarrow> Block
           | Ret s \<Rightarrow>
               Ret \<lparr>sr_run = s, sr_signal = False, sr_runner = RuRun, sr_main = SmSelect, sr_err = None\<rparr>))"

text \<open>
  The goroutine runs the server and reports its error; the goroutines of the server may go on after
  that.  \<open>rootCancel\<close> ends the root context.  After a signal the error of the server is only logged.
\<close>

definition rootCancel :: "run \<Rightarrow> run" where
  "rootCancel s = s\<lparr>ru_root := True\<rparr>"

fun is_cmd_fault :: "server_cmd_event \<Rightarrow> bool" where
  "is_cmd_fault (CmdRun ev) = is_fault ev"
| "is_cmd_fault _ = False"

fun server_cmd_step :: "server_cmd_event \<Rightarrow> server_cmd \<Rightarrow> server_cmd option" where
  "server_cmd_step (CmdRun ev) st =
     (if ev \<noteq> RootDone
      then map_option (\<lambda>s. st\<lparr>sr_run := s\<rparr>) (run_step ev (sr_run st)) else None)"
| "server_cmd_step CmdRunDone st =
     (if sr_runner st = RuRun \<and> ru_main (sr_run st) = RReturn
      then Some (st\<lparr>sr_runner := RuSend (ru_err (sr_run st))\<rparr>) else None)"
| "server_cmd_step CmdSignal st = (if sr_signal st then None else Some (st\<lparr>sr_signal := True\<rparr>))"
| "server_cmd_step CmdSelSig st =
     (if sr_main st = SmSelect \<and> sr_signal st then Some (st\<lparr>sr_main := SmCancelSig\<rparr>) else None)"
| "server_cmd_step CmdCancelSig st =
     (if sr_main st = SmCancelSig then Some (st\<lparr>sr_main := SmRecv, sr_run := rootCancel (sr_run st)\<rparr>) else None)"
| "server_cmd_step CmdRecv st =
     (case (sr_main st, sr_runner st) of
        (SmRecv, RuSend _) \<Rightarrow> Some (st\<lparr>sr_main := SmReturn, sr_runner := RuEnd\<rparr>)
      | _ \<Rightarrow> None)"
| "server_cmd_step CmdSelErr st =
     (case (sr_main st, sr_runner st) of
        (SmSelect, RuSend e) \<Rightarrow> Some (st\<lparr>sr_main := SmCancelErr, sr_runner := RuEnd, sr_err := e\<rparr>)
      | _ \<Rightarrow> None)"
| "server_cmd_step CmdCancelErr st =
     (if sr_main st = SmCancelErr then Some (st\<lparr>sr_main := SmReturn, sr_run := rootCancel (sr_run st)\<rparr>) else None)"

abbreviation server_cmd_run :: "server_cmd_event list \<Rightarrow> server_cmd \<Rightarrow> server_cmd option" where
  "server_cmd_run \<equiv> run_events server_cmd_step"

end
