(* ===== verification/Command_Runs_Props.thy ===== *)
theory Command_Runs_Props
  imports Command_Runs Commands_Props Stream_Props Lifecycle_Props
begin

text \<open>
  Properties of the two commands that start goroutines: the stream command prints everything it
  received and comes to an end, and the server command returns only after the server has shut down.
\<close>

section \<open>The stream command\<close>

definition stream_cmd_inv :: "'m stream_cmd \<Rightarrow> bool" where
  "stream_cmd_inv st \<longleftrightarrow>
     client_inv (sk_cs st) \<and> sk_printed st = cl_consumed (sk_cs st) \<and>
     (cl_reading (sk_cs st) \<longleftrightarrow> sk_pc st = SkRange) \<and>
     (sk_pc st \<noteq> SkRange \<longrightarrow> cl_chClosed (sk_cs st) \<and> cl_ch (sk_cs st) = []) \<and>
     (sk_pc st = SkReturn \<longrightarrow> sk_waiter st = WaDone)"

lemma client_inv_ctx [simp]: "client_inv (cs\<lparr>cl_ctx := b\<rparr>) = client_inv cs"
  by (simp add: client_inv_def)

lemma goroutine_step_frame:
  assumes "is_goroutine_event ev" and "client_step ev cs = Some cs'"
  shows "cl_consumed cs' = cl_consumed cs" and "cl_reading cs' = cl_reading cs"
    and "cl_ctx cs' = cl_ctx cs" and "cl_chClosed cs \<Longrightarrow> client_inv cs \<Longrightarrow> cs' = cs"
  using assms
  by (cases ev; auto simp: client_end_def client_inv_def split: if_splits client_pc.splits)+

lemma take_step:
  assumes "client_step Take cs = Some cs'"
  shows "cl_reading cs" and "cl_ctx cs' = cl_ctx cs" and "cl_pc cs' = cl_pc cs"
    and "cl_ch cs = m # rest \<Longrightarrow>
           cl_ch cs' = rest \<and> cl_consumed cs' = cl_consumed cs @ [m] \<and> cl_reading cs'"
    and "cl_ch cs = [] \<Longrightarrow>
           cl_chClosed cs \<and> cl_chClosed cs' \<and> cl_ch cs' = [] \<and> cl_consumed cs' = cl_consumed cs \<and> \<not> cl_reading cs'"
  using assms by (auto split: if_splits list.splits)

lemma stream_cmd_step_inv:
  assumes "stream_cmd_step ev st = Some st'" and "stream_cmd_inv st"
  shows "stream_cmd_inv st'"
proof (cases ev)
  case (SkClient cev)
  then obtain cs where cs: "is_goroutine_event cev" "client_step cev (sk_cs st) = Some cs" "st' = st\<lparr>sk_cs := cs\<rparr>"
    using assms(1) by (auto split: if_splits)
  have "client_inv cs" using client_step_inv [OF cs(2)] assms(2) by (simp add: stream_cmd_inv_def)
  then show ?thesis
    using goroutine_step_frame [OF cs(1,2)] assms(2) cs(3) by (auto simp: stream_cmd_inv_def)
next
  case SkTake
  then obtain cs where cs: "client_step Take (sk_cs st) = Some cs" "sk_pc st = SkRange"
    using assms(1) by (auto split: if_splits option.splits)
  have "client_inv cs" using client_step_inv [OF cs(1)] assms(2) by (simp add: stream_cmd_inv_def)
  then show ?thesis
    using take_step(4,5) [OF cs(1)] assms SkTake cs
    by (cases "cl_ch (sk_cs st)") (auto simp: stream_cmd_inv_def)
qed (use assms in \<open>auto simp: stream_cmd_inv_def split: if_splits\<close>)

text \<open>The steps that are left once the context has ended.\<close>

definition goroutine_rank :: "'m client_pc \<Rightarrow> nat" where
  "goroutine_rank p = (case p of CRecv \<Rightarrow> 4 | CSend _ \<Rightarrow> 3 | CCheck \<Rightarrow> 1 | CEnd \<Rightarrow> 0)"

definition stream_cmd_rank :: "'m stream_cmd \<Rightarrow> nat" where
  "stream_cmd_rank st =
     goroutine_rank (cl_pc (sk_cs st)) + length (cl_ch (sk_cs st)) +
     (case sk_pc st of SkRange \<Rightarrow> 3 | SkCancel \<Rightarrow> 2 | SkWait \<Rightarrow> 1 | SkReturn \<Rightarrow> 0) +
     (case sk_waiter st of WaSelect \<Rightarrow> 2 | WaCancel \<Rightarrow> 1 | WaDone \<Rightarrow> 0) + (if sk_signal st then 0 else 1)"

lemma goroutine_step_rank:
  assumes "is_goroutine_event ev" and "client_step ev cs = Some cs'" and "cl_ctx cs"
  shows "goroutine_rank (cl_pc cs') + length (cl_ch cs') < goroutine_rank (cl_pc cs) + length (cl_ch cs)"
  using assms
  by (cases ev) (auto simp: client_end_def goroutine_rank_def split: if_splits client_pc.splits)

lemma stream_cmd_step_rank:
  assumes "stream_cmd_step ev st = Some st'" and "cl_ctx (sk_cs st)" and "stream_cmd_inv st"
  shows "stream_cmd_rank st' < stream_cmd_rank st" and "cl_ctx (sk_cs st')"
proof -
  have "stream_cmd_rank st' < stream_cmd_rank st \<and> cl_ctx (sk_cs st')"
  proof (cases ev)
    case (SkClient cev)
    then obtain cs where cs: "is_goroutine_event cev" "client_step cev (sk_cs st) = Some cs" "st' = st\<lparr>sk_cs := cs\<rparr>"
      using assms(1) by (auto split: if_splits)
    show ?thesis
      using goroutine_step_rank [OF cs(1,2) assms(2)] goroutine_step_frame(3) [OF cs(1,2)] assms(2) cs(3)
      by (simp add: stream_cmd_rank_def)
  next
    case SkTake
    then obtain cs where cs: "client_step Take (sk_cs st) = Some cs" "sk_pc st = SkRange"
      using assms(1) by (auto split: if_splits option.splits)
    show ?thesis
      using take_step(2-5) [OF cs(1)] assms(1,2) SkTake cs
      by (cases "cl_ch (sk_cs st)") (auto simp: stream_cmd_rank_def)
  qed (use assms(1,2) in \<open>auto simp: stream_cmd_rank_def split: if_splits\<close>)
  then show "stream_cmd_rank st' < stream_cmd_rank st" and "cl_ctx (sk_cs st')" by blast+
qed

interpretation stream_cmd: machine stream_cmd_step stream_cmd_inv
  by unfold_locales (rule stream_cmd_step_inv)

text \<open>After the end of its context the command is ranked.\<close>

interpretation stream_cmd_ending:
  ranked_machine stream_cmd_step "\<lambda>st. stream_cmd_inv st \<and> cl_ctx (sk_cs st)" stream_cmd_rank
  by unfold_locales (use stream_cmd_step_inv stream_cmd_step_rank in blast)+

lemma stream_cmd_rank_bound:
  assumes "stream_cmd_inv st"
  shows "stream_cmd_rank st \<le> 11"
proof -
  have "length (cl_ch (sk_cs st)) \<le> 1" using assms by (simp add: stream_cmd_inv_def client_inv_def)
  moreover have "goroutine_rank (cl_pc (sk_cs st)) \<le> 4" by (simp add: goroutine_rank_def split: client_pc.splits)
  ultimately show ?thesis
    by (simp add: stream_cmd_rank_def split: stream_main_pc.splits waiter_pc.splits)
qed

text \<open>A step of the environment is a signal or the timeout; all others are steps of the command.\<close>

lemma stream_cmd_not_stuck:
  assumes "stream_cmd_inv st" and "cl_ctx (sk_cs st)" and "sk_pc st \<noteq> SkReturn"
  shows "\<exists>ev. ev \<noteq> SkSignal \<and> stream_cmd_step ev st \<noteq> None"
proof (cases "sk_pc st")
  case SkRange
  have reading: "cl_reading (sk_cs st)" and inv: "client_inv (sk_cs st)"
    using assms(1) SkRange by (simp_all add: stream_cmd_inv_def)
  show ?thesis
  proof (cases "cl_ch (sk_cs st)")
    case (Cons m rest)
    then have "stream_cmd_step SkTake st \<noteq> None" using SkRange reading by simp
    then show ?thesis by blast
  next
    case Nil
    show ?thesis
    proof (cases "cl_pc (sk_cs st)")
      case CCheck
      then have "stream_cmd_step (SkClient CSelStop) st \<noteq> None" using assms(2) by simp
      then show ?thesis by blast
    next
      case CRecv
      then have "stream_cmd_step (SkClient (CRecvErr IoEOF)) st \<noteq> None" by simp
      then show ?thesis by blast
    next
      case (CSend m)
      then have "stream_cmd_step (SkClient CPut) st \<noteq> None" using Nil by simp
      then show ?thesis by blast
    next
      case CEnd
      then have "stream_cmd_step SkTake st \<noteq> None" using SkRange reading Nil inv by (simp add: client_inv_def)
      then show ?thesis by blast
    qed
  qed
next
  case SkCancel
  then have "stream_cmd_step SkMainCancel st \<noteq> None" by simp
  then show ?thesis by blast
next
  case SkWait
  have "stream_cmd_step SkWaiterCtx st \<noteq> None \<or> stream_cmd_step SkWaiterEnd st \<noteq> None \<or>
      stream_cmd_step SkMainDone st \<noteq> None"
    using SkWait assms(2) by (cases "sk_waiter st") auto
  then show ?thesis by blast
qed (use assms(3) in simp)

lemma stream_cmd_begin_inv:
  assumes "stream_cmd_begin cc push = Ret st"
  shows "stream_cmd_inv st" and "cl_received (sk_cs st) = []"
  using assms
  by (auto simp: stream_cmd_begin_def client_StreamStatus_def stream_cmd_inv_def client_inv_def
      new_client_stream_def split: sum.splits)

text \<open>C23: The stream command comes to an end: once its context has ended, by the timeout or after a
  signal, at most eleven steps are left, and an execution that cannot be continued has returned.
  When it has returned, it has printed everything the client received, in order; the client's
  goroutine and the one that waits for signals have ended, so nothing is left behind.\<close>

theorem stream_command_ends:
  assumes "streamStatusFunc_begin D streams v push = (Ret st0, out)" and "stream_cmd_run evs st0 = Some st"
  shows "(cl_ctx (sk_cs st) \<longrightarrow> stream_cmd_run evs' st = Some st' \<longrightarrow>
            length evs' \<le> 11 \<and>
            ((\<forall>ev. ev \<noteq> SkSignal \<longrightarrow> stream_cmd_step ev st' = None) \<longrightarrow> sk_pc st' = SkReturn)) \<and>
         (sk_pc st = SkReturn \<longrightarrow>
            sk_printed st = cl_received (sk_cs st) \<and> cl_pc (sk_cs st) = CEnd \<and> sk_waiter st = WaDone)"
proof
  obtain conn where "stream_cmd_begin (streams conn) push = Ret st0"
    using assms(1) by (auto simp: streamStatusFunc_begin_def split: prod.splits outcome.splits)
  from stream_cmd_begin_inv(1) [OF this] have inv: "stream_cmd_inv st"
    using stream_cmd.events_keep [OF assms(2)] by blast
  show "cl_ctx (sk_cs st) \<longrightarrow> stream_cmd_run evs' st = Some st' \<longrightarrow>
      length evs' \<le> 11 \<and>
      ((\<forall>ev. ev \<noteq> SkSignal \<longrightarrow> stream_cmd_step ev st' = None) \<longrightarrow> sk_pc st' = SkReturn)"
  proof (intro impI)
    assume ctx: "cl_ctx (sk_cs st)" and run: "stream_cmd_run evs' st = Some st'"
    have rank: "length evs' \<le> stream_cmd_rank st" using stream_cmd_ending.run_ends [OF run] ctx inv by blast
    have inv': "stream_cmd_inv st'" using stream_cmd.events_keep [OF run inv] .
    show "length evs' \<le> 11 \<and>
        ((\<forall>ev. ev \<noteq> SkSignal \<longrightarrow> stream_cmd_step ev st' = None) \<longrightarrow> sk_pc st' = SkReturn)"
      using rank stream_cmd_rank_bound [OF inv] stream_cmd_not_stuck [OF inv'] by fastforce
  qed
  show "sk_pc st = SkReturn \<longrightarrow>
      sk_printed st = cl_received (sk_cs st) \<and> cl_pc (sk_cs st) = CEnd \<and> sk_waiter st = WaDone"
    using inv by (auto simp: stream_cmd_inv_def client_inv_def)
qed

definition sample_stream_conn :: "unit client_conn" where
  "sample_stream_conn = \<lparr>cc_NewStream = (\<lambda>_. Inr ()), cc_SendMsg = (\<lambda>_ _. Inr ()), cc_CloseSend = (\<lambda>_. Inr ())\<rparr>"

lemma sample_stream_begin:
  "streamStatusFunc_begin sample_command_env (\<lambda>_. sample_stream_conn) sample_vars push =
     (stream_cmd_begin sample_stream_conn push, [dial_line sample_command_env sample_vars])"
proof -
  obtain lc where "setup_logger (\<lambda>_. None) ''info'' = Ret lc" using sample_logger by blast
  then show ?thesis
    by (simp add: streamStatusFunc_begin_def client_New_def sample_command_env_def sample_vars_def dial_line_def
        client_env.defs Let_def)
qed

lemma stream_command_ends_witness:
  "\<exists>st0 out st. streamStatusFunc_begin sample_command_env (\<lambda>_. sample_stream_conn) sample_vars 5 = (Ret st0, out) \<and>
     stream_cmd_run [SkClient CSelDefault, SkClient (CRecvOk (7::nat)), SkSignal, SkClient CPut, SkWaiterSig, SkTake,
        SkWaiterEnd, SkClient CSelStop, SkTake, SkMainCancel, SkMainDone] st0 = Some st \<and>
     sk_pc st = SkReturn \<and> sk_printed st = cl_received (sk_cs st) \<and> cl_received (sk_cs st) = [7]"
proof -
  obtain st0 :: "nat stream_cmd" where st0: "stream_cmd_begin sample_stream_conn 5 = Ret st0"
    by (simp add: stream_cmd_begin_def client_StreamStatus_def controlServiceClient_StreamStatus_def
        sample_stream_conn_def)
  then obtain st where st: "stream_cmd_run [SkClient CSelDefault, SkClient (CRecvOk (7::nat)), SkSignal,
        SkClient CPut, SkWaiterSig, SkTake, SkWaiterEnd, SkClient CSelStop, SkTake, SkMainCancel, SkMainDone] st0
        = Some st" "sk_pc st = SkReturn" "cl_received (sk_cs st) = [7]"
    by (auto simp: stream_cmd_begin_def client_StreamStatus_def controlServiceClient_StreamStatus_def
        sample_stream_conn_def new_client_stream_def client_end_def)
  have begun: "streamStatusFunc_begin sample_command_env (\<lambda>_. sample_stream_conn) sample_vars 5 =
      (Ret st0, [dial_line sample_command_env sample_vars])"
    by (simp add: sample_stream_begin st0)
  have "sk_printed st = cl_received (sk_cs st)"
    using stream_command_ends [OF begun st(1)] st(2) by blast
  then show ?thesis using begun st by blast
qed

section \<open>The server command\<close>

definition server_cmd_inv :: "server_cmd \<Rightarrow> bool" where
  "server_cmd_inv st \<longleftrightarrow>
     run_inv (sr_run st) \<and>
     (sr_runner st \<noteq> RuRun \<longrightarrow> ru_main (sr_run st) = RReturn) \<and>
     (\<forall>e. sr_runner st = RuSend e \<longrightarrow> e = ru_err (sr_run st)) \<and>
     (case sr_main st of
        SmSelect \<Rightarrow> sr_runner st \<noteq> RuEnd \<and> sr_err st = None \<and> \<not> ru_root (sr_run st)
      | SmCancelSig \<Rightarrow> sr_runner st \<noteq> RuEnd \<and> sr_err st = None \<and> sr_signal st
      | SmRecv \<Rightarrow> sr_runner st \<noteq> RuEnd \<and> sr_err st = None \<and> sr_signal st \<and> ru_root (sr_run st)
      | SmCancelErr \<Rightarrow> sr_runner st = RuEnd \<and> sr_err st = ru_err (sr_run st) \<and> ru_err (sr_run st) \<noteq> None
      | SmReturn \<Rightarrow> sr_runner st = RuEnd \<and>
          (sr_err st = None \<and> sr_signal st \<or> sr_err st = ru_err (sr_run st) \<and> ru_err (sr_run st) \<noteq> None))"

lemma rootCancel_inv: "run_inv s \<Longrightarrow> run_inv (rootCancel s)"
proof (cases "ru_root s")
  case True
  then have "rootCancel s = s" by (cases s) (simp add: rootCancel_def)
  then show "run_inv s \<Longrightarrow> run_inv (rootCancel s)" by simp
next
  case False
  then have "run_step RootDone s = Some (rootCancel s)" by (simp add: run_step_def rootCancel_def)
  then show "run_inv s \<Longrightarrow> run_inv (rootCancel s)" by (rule run_step_inv)
qed

text \<open>What the steps of the server leave alone, other than the end of the root context.\<close>

lemma gateway_event_frame:
  "gateway_event ev s = Some s' \<Longrightarrow> ru_root s' = ru_root s \<and> ru_main s' = ru_main s \<and> ru_err s' = ru_err s"
  by (cases ev) (auto split: if_splits option.splits)

lemma grpc_event_frame:
  "grpc_event ev s = Some s' \<Longrightarrow> ru_root s' = ru_root s \<and> ru_main s' = ru_main s \<and> ru_err s' = ru_err s"
  by (cases ev) (auto split: if_splits)

lemma main_run_event_frame:
  "main_run_event ev s = Some s' \<Longrightarrow> ru_root s' = ru_root s \<and> ru_main s \<noteq> RReturn"
  by (cases ev) (auto simp: take_gw_def take_grpc_def server_close_def
      split: if_splits option.splits runner_pc.splits serve_pc.splits gateway_pc.splits outcome.splits)

lemma run_step_frame:
  assumes "run_step ev s = Some s'" and "ev \<noteq> RootDone"
  shows "ru_root s' = ru_root s"
    and "ru_main s = RReturn \<Longrightarrow> ru_main s' = RReturn \<and> ru_err s' = ru_err s"
proof -
  have "gateway_event ev s = Some s' \<or> grpc_event ev s = Some s' \<or> main_run_event ev s = Some s'"
    using assms by (auto simp: run_step_def split: option.splits)
  then show "ru_root s' = ru_root s"
    and "ru_main s = RReturn \<Longrightarrow> ru_main s' = RReturn \<and> ru_err s' = ru_err s"
    using gateway_event_frame grpc_event_frame main_run_event_frame by (metis, metis)
qed

lemma run_returned_err:
  assumes "run_inv s" and "ru_main s = RReturn" and "\<not> ru_root s"
  shows "ru_err s \<noteq> None"
  using assms by (simp add: run_inv_def phase_ok_def)

lemma server_cmd_step_inv:
  assumes "server_cmd_step ev st = Some st'" and "server_cmd_inv st"
  shows "server_cmd_inv st'"
proof (cases ev)
  case (CmdRun rev)
  then obtain s where s: "rev \<noteq> RootDone" "run_step rev (sr_run st) = Some s" "st' = st\<lparr>sr_run := s\<rparr>"
    using assms(1) by (auto split: if_splits)
  have "run_inv s" using run_step_inv [OF s(2)] assms(2) by (simp add: server_cmd_inv_def)
  moreover have "ru_main (sr_run st) = RReturn" if "sr_runner st \<noteq> RuRun"
    using assms(2) that by (simp add: server_cmd_inv_def)
  ultimately show ?thesis
    using assms(2) s(3) run_step_frame [OF s(2,1)]
    by (cases "sr_runner st"; cases "sr_main st") (simp_all add: server_cmd_inv_def)
next
  case CmdCancelSig
  then show ?thesis
    using assms rootCancel_inv [of "sr_run st"]
    by (auto simp: server_cmd_inv_def rootCancel_def split: if_splits)
next
  case CmdCancelErr
  then show ?thesis
    using assms rootCancel_inv [of "sr_run st"]
    by (auto simp: server_cmd_inv_def rootCancel_def split: if_splits)
next
  case CmdSelErr
  then show ?thesis
    using assms run_returned_err [of "sr_run st"]
    by (auto simp: server_cmd_inv_def split: server_main_pc.splits server_runner.splits)
next
  case CmdRunDone
  then show ?thesis
    using assms by (cases "sr_main st") (auto simp: server_cmd_inv_def split: if_splits)
next
  case CmdSignal
  then have "st' = st\<lparr>sr_signal := True\<rparr>" using assms(1) by (simp split: if_splits)
  then show ?thesis
    using assms(2) by (cases "sr_main st") (auto simp: server_cmd_inv_def)
next
  case CmdSelSig
  then have "st' = st\<lparr>sr_main := SmCancelSig\<rparr>" "sr_main st = SmSelect" "sr_signal st"
    using assms(1) by (simp_all split: if_splits)
  then show ?thesis
    using assms(2) by (simp add: server_cmd_inv_def)
next
  case CmdRecv
  then obtain e where "st' = st\<lparr>sr_main := SmReturn, sr_runner := RuEnd\<rparr>" "sr_main st = SmRecv" "sr_runner st = RuSend e"
    using assms(1) by (auto split: server_main_pc.splits server_runner.splits)
  then show ?thesis
    using assms(2) by (simp add: server_cmd_inv_def)
qed

definition server_cmd_rank :: "server_cmd \<Rightarrow> nat" where
  "server_cmd_rank st =
     run_rank (sr_run st) + (case sr_runner st of RuRun \<Rightarrow> 2 | RuSend _ \<Rightarrow> 1 | RuEnd \<Rightarrow> 0) +
     (case sr_main st of SmSelect \<Rightarrow> 3 | SmCancelSig \<Rightarrow> 2 | SmRecv \<Rightarrow> 1 | SmCancelErr \<Rightarrow> 1 | SmReturn \<Rightarrow> 0) +
     (if sr_signal st then 0 else 1)"

lemma rootCancel_rank: "run_rank (rootCancel s) \<le> run_rank s"
  by (simp add: run_rank_def rootCancel_def)

lemma server_cmd_step_rank:
  assumes "server_cmd_step ev st = Some st'"
  shows "server_cmd_rank st' < server_cmd_rank st"
proof (cases ev)
  case (CmdRun rev)
  then obtain s where "run_step rev (sr_run st) = Some s" "st' = st\<lparr>sr_run := s\<rparr>"
    using assms by (auto split: if_splits)
  then show ?thesis using run_step_rank [of rev "sr_run st" s] by (simp add: server_cmd_rank_def)
next
  case CmdCancelSig
  then show ?thesis
    using assms rootCancel_rank [of "sr_run st"] by (auto simp: server_cmd_rank_def split: if_splits)
next
  case CmdCancelErr
  then show ?thesis
    using assms rootCancel_rank [of "sr_run st"] by (auto simp: server_cmd_rank_def split: if_splits)
next
  case CmdRunDone
  then have "st' = st\<lparr>sr_runner := RuSend (ru_err (sr_run st))\<rparr>" "sr_runner st = RuRun"
    using assms by (simp_all split: if_splits)
  then show ?thesis by (simp add: server_cmd_rank_def)
next
  case CmdSignal
  then have "st' = st\<lparr>sr_signal := True\<rparr>" "\<not> sr_signal st" using assms by (simp_all split: if_splits)
  then show ?thesis by (simp add: server_cmd_rank_def)
next
  case CmdSelSig
  then have "st' = st\<lparr>sr_main := SmCancelSig\<rparr>" "sr_main st = SmSelect" using assms by (simp_all split: if_splits)
  then show ?thesis by (simp add: server_cmd_rank_def)
next
  case CmdRecv
  then obtain e where "st' = st\<lparr>sr_main := SmReturn, sr_runner := RuEnd\<rparr>" "sr_main st = SmRecv" "sr_runner st = RuSend e"
    using assms by (auto split: server_main_pc.splits server_runner.splits)
  then show ?thesis by (simp add: server_cmd_rank_def)
next
  case CmdSelErr
  then obtain e where "st' = st\<lparr>sr_main := SmCancelErr, sr_runner := RuEnd, sr_err := e\<rparr>" "sr_main st = SmSelect"
      "sr_runner st = RuSend e"
    using assms by (auto split: server_main_pc.splits server_runner.splits)
  then show ?thesis by (simp add: server_cmd_rank_def)
qed

interpretation server_cmd: ranked_machine server_cmd_step server_cmd_inv server_cmd_rank
  by unfold_locales (use server_cmd_step_inv server_cmd_step_rank in blast)+

text \<open>Without a fault or a signal nothing can happen only while the server serves, or after the return.\<close>

lemma server_cmd_not_stuck:
  assumes inv: "server_cmd_inv st"
    and stuck: "\<forall>ev. \<not> is_cmd_fault ev \<and> ev \<noteq> CmdSignal \<longrightarrow> server_cmd_step ev st = None"
  shows "sr_main st = SmReturn \<or> sr_main st = SmSelect \<and> \<not> sr_signal st \<and> run_serving (sr_run st)"
proof -
  have stuck_at: "server_cmd_step ev st = None" if "\<not> is_cmd_fault ev" "ev \<noteq> CmdSignal" for ev
    using stuck that by blast
  have "run_step ev (sr_run st) = None" if "\<not> is_fault ev" "ev \<noteq> RootDone" for ev
    using stuck_at [of "CmdRun ev"] that by simp
  then have run: "run_serving (sr_run st) \<or> run_over (sr_run st)"
    using inv by (intro run_not_stuck) (simp_all add: server_cmd_inv_def)
  note steps = stuck_at [of CmdRunDone] stuck_at [of CmdSelSig] stuck_at [of CmdCancelSig] stuck_at [of CmdRecv]
    stuck_at [of CmdSelErr] stuck_at [of CmdCancelErr]
  show ?thesis
  proof (cases "sr_runner st")
    case RuRun
    then have "run_serving (sr_run st)" using run steps(1) by (auto simp: run_over_def)
    then show ?thesis
      using RuRun inv steps by (cases "sr_main st") (auto simp: server_cmd_inv_def run_serving_def split: if_splits)
  next
    case (RuSend e)
    then show ?thesis using steps inv by (cases "sr_main st") (auto simp: server_cmd_inv_def split: if_splits)
  next
    case RuEnd
    then show ?thesis using steps inv by (cases "sr_main st") (auto simp: server_cmd_inv_def split: if_splits)
  qed
qed

lemma serverFunc_begin_inv:
  assumes "serverFunc_begin build listen lvl cfg = Ret st"
  shows "server_cmd_inv st" and "server_cmd_rank st = 22"
proof -
  obtain s where s: "New listen cfg = Ret s"
      "st = \<lparr>sr_run = s, sr_signal = False, sr_runner = RuRun, sr_main = SmSelect, sr_err = None\<rparr>"
    using assms by (auto simp: serverFunc_begin_def split: outcome.splits)
  note new = New_inv [OF s(1)]
  show "server_cmd_inv st" using new(1,3) s(2) by (simp add: server_cmd_inv_def)
  show "server_cmd_rank st = 22" using new(2-5) s(2) by (simp add: server_cmd_rank_def rank_defs)
qed

text \<open>The steps of the server are steps of the command.\<close>

lemma server_cmd_run_map:
  "run_all evs s = Some s' \<Longrightarrow> RootDone \<notin> set evs \<Longrightarrow> sr_run st = s \<Longrightarrow>
   server_cmd_run (map CmdRun evs) st = Some (st\<lparr>sr_run := s'\<rparr>)"
proof (induction evs arbitrary: st s)
  case Nil
  then show ?case by auto
next
  case (Cons ev evs)
  then obtain s1 where s1: "run_step ev s = Some s1" "run_all evs s1 = Some s'" by (auto split: option.splits)
  have "ev \<noteq> RootDone" using Cons.prems(2) by auto
  then show ?case using Cons.IH [OF s1(2), of "st\<lparr>sr_run := s1\<rparr>"] Cons.prems s1(1) by simp
qed

text \<open>C22: The server command takes at most twenty-two steps, counting those of the server it runs.  An
  execution that cannot be continued without a fault of one of the two servers, nor without a signal,
  either waits for a signal while the server serves, or the command has returned: in particular,
  after a signal it returns by itself, since cancelling the root context shuts the server down.  It
  returns only after \<open>Run\<close> has, whose channel \<open>closed\<close> is then closed; without an error only after a
  signal, whatever the server reported then, otherwise with the error of the server.\<close>

theorem server_command_returns:
  assumes "serverFunc_begin build listen logLevel cfg = Ret st0" and "server_cmd_run evs st0 = Some st"
  shows "length evs \<le> 22 \<and>
    ((\<forall>ev. \<not> is_cmd_fault ev \<and> ev \<noteq> CmdSignal \<longrightarrow> server_cmd_step ev st = None) \<longrightarrow>
       sr_main st = SmReturn \<or>
       sr_main st = SmSelect \<and> \<not> sr_signal st \<and>
         ru_main (sr_run st) = RSelect \<and> ru_grpc (sr_run st) = GServe \<and> ru_gw (sr_run st) = WServe) \<and>
    (sr_main st = SmReturn \<longrightarrow>
       sr_runner st = RuEnd \<and> ru_main (sr_run st) = RReturn \<and> oc_closed (ru_closed (sr_run st)) \<and>
       (if sr_err st = None then sr_signal st else sr_err st = ru_err (sr_run st)))"
proof -
  note b = serverFunc_begin_inv [OF assms(1)]
  have inv: "server_cmd_inv st" using server_cmd.events_keep [OF assms(2) b(1)] .
  have "length evs \<le> 22" using server_cmd.run_ends [OF assms(2) b(1)] b(2) by simp
  moreover have "sr_main st = SmReturn \<or>
       sr_main st = SmSelect \<and> \<not> sr_signal st \<and>
         ru_main (sr_run st) = RSelect \<and> ru_grpc (sr_run st) = GServe \<and> ru_gw (sr_run st) = WServe"
    if "\<forall>ev. \<not> is_cmd_fault ev \<and> ev \<noteq> CmdSignal \<longrightarrow> server_cmd_step ev st = None"
    using server_cmd_not_stuck [OF inv that] by (auto simp: run_serving_def)
  moreover have "sr_runner st = RuEnd \<and> ru_main (sr_run st) = RReturn \<and> oc_closed (ru_closed (sr_run st)) \<and>
       (if sr_err st = None then sr_signal st else sr_err st = ru_err (sr_run st))" if "sr_main st = SmReturn"
    using inv that by (auto simp: server_cmd_inv_def run_inv_def closed_ok_def)
  ultimately show ?thesis by blast
qed

text \<open>A signal while both servers serve: the command is not at rest before it has returned.\<close>

lemma server_command_returns_witness:
  "\<exists>st0 st. serverFunc_begin (\<lambda>_. None) (\<lambda>_. None) ''info'' sample_cfg = Ret st0 \<and>
     server_cmd_run
       (map CmdRun [GwDial None, GwRegPing None, GwRegControl None] @ [CmdSignal, CmdSelSig, CmdCancelSig] @
        map CmdRun shutdown_events @ [CmdRunDone, CmdRecv]) st0 = Some st \<and>
     sr_main st = SmReturn \<and> ru_main (sr_run st) = RReturn \<and> sr_err st = None"
proof -
  obtain s0 where s0: "New (\<lambda>_. None) sample_cfg = Ret s0" by (simp add: New_def sample_cfg_def)
  then have s0_eq: "s0 = \<lparr>ru_cfg = sample_cfg, ru_root = False, ru_stopped = False, ru_gwClosed = False,
      ru_conn = False, ru_grpc = GServe, ru_gw = WDial, ru_main = RSelect, ru_err = None,
      ru_closed = new_once_chan\<rparr>"
    by (simp add: New_def sample_cfg_def)
  then obtain s1 where s1: "run_all [GwDial None, GwRegPing None, GwRegControl None] s0 = Some s1"
      "s1 = s0\<lparr>ru_gw := WServe, ru_conn := True\<rparr>"
    by (simp add: run_step_def)
  then obtain s where s: "run_all shutdown_events (rootCancel s1) = Some s" "ru_main s = RReturn"
    by (simp add: s0_eq shutdown_events_def rootCancel_def run_step_def take_gw_def take_grpc_def server_close_def
        once_close_def new_once_chan_def)
  obtain lc where logger: "setup_logger (\<lambda>_. None) ''info'' = Ret lc" using sample_logger by blast
  define st0 where "st0 = \<lparr>sr_run = s0, sr_signal = False, sr_runner = RuRun, sr_main = SmSelect, sr_err = None\<rparr>"
  have begun: "serverFunc_begin (\<lambda>_. None) (\<lambda>_. None) ''info'' sample_cfg = Ret st0"
    using s0 by (simp add: serverFunc_begin_def logger st0_def)
  define st where "st = \<lparr>sr_run = s, sr_signal = True, sr_runner = RuEnd, sr_main = SmReturn, sr_err = None\<rparr>"
  have no_root: "RootDone \<notin> set shutdown_events" by (simp add: shutdown_events_def)
  have run: "server_cmd_run
      (map CmdRun [GwDial None, GwRegPing None, GwRegControl None] @ [CmdSignal, CmdSelSig, CmdCancelSig] @
        map CmdRun shutdown_events @ [CmdRunDone, CmdRecv]) st0 = Some st"
    unfolding run_events_append
    using s(2) server_cmd_run_map [OF s1(1), of st0] server_cmd_run_map [OF s(1) no_root, of
      "\<lparr>sr_run = rootCancel s1, sr_signal = True, sr_runner = RuRun, sr_main = SmRecv, sr_err = None\<rparr>"]
    by (simp add: st0_def st_def del: list.map)
  show ?thesis using server_command_returns [OF begun run] begun run by (auto simp: st_def)
qed

end
