(* ===== verification/Randutil.thy ===== *)
theory Randutil
  imports Prelude
begin

text \<open>
  Random strings, \<open>src/pkg/randutil/randutil.go\<close>.  The random source \<open>rand.Int(rand.Reader, max)\<close> is
  the argument \<open>draw\<close>: the number of the call and the bound give a number, or \<open>None\<close> when the
  reader fails.
\<close>

definition ll :: string where
  "ll = ''0123456789abcdefghijklmnopqrstuvwxyz''"

definition lll :: nat where
  "lll = length ll"

definition randoms :: "string list" where
  "randoms =
    [''autumn'', ''sun'', ''splendid'', ''sunny'', ''original'', ''dream'', ''whole'', ''aws'',
     ''amazon'', ''flow'', ''cherry'', ''grand'', ''tree'', ''frost'', ''deluxe'', ''superb'',
     ''morning'', ''grand'', ''sparkling'', ''wandering'', ''summertime'', ''butterfly'', ''boldly'',
     ''green'', ''river'', ''breeze'', ''hiking'', ''proud'', ''great'', ''mochi'', ''floral'',
     ''spectacular'', ''dune'', ''modern'', ''delight'', ''lively'', ''forte'', ''waterfall'',
     ''embark'', ''flower'', ''roadtrip'', ''atlas'', ''grass'', ''haze'', ''spotlight'', ''glacial'',
     ''mountain'', ''snowflake'', ''misty'', ''summer'', ''good'', ''icy'', ''coffee'', ''awesome'',
     ''spring'', ''twilight'', ''blue'', ''coral'', ''everest'', ''galaxy'', ''hello'', ''seattle'',
     ''wind'', ''breeze'', ''watermelon'', ''sea'', ''ocean'', ''kirkland'', ''bellevue'', ''sunrise'',
     ''waterfront'', ''magnificent'', ''exclusive'', ''tropical'', ''morning'', ''sunset'',
     ''blueshift'', ''dynamic'', ''forest'', ''impressive'', ''amelia'', ''amzn'', ''rufus'',
     ''spheres'', ''innovation'', ''apple'', ''inventive'', ''brazil'', ''milan'', ''cloud'',
     ''rustc'', ''sun'', ''sound'', ''sky'', ''surf'', ''island'', ''water'', ''wildflower'',
     ''wave'', ''charisma'', ''water'', ''amber'', ''reinvent'', ''oscar'', ''integrity'',
     ''accountable'', ''day1'', ''prime'', ''nitro'', ''maria'', ''frosty'', ''paper'', ''star'',
     ''onion'', ''linux'', ''rust'', ''hawaii'', ''otter'', ''varzea'', ''obidos'']"

definition randomsN :: nat where
  "randomsN = length randoms"

type_synonym rand = "nat \<Rightarrow> nat \<Rightarrow> nat option"

text \<open>The loop that fills the byte slice: \<open>k\<close> characters from call \<open>i\<close> on, \<open>None\<close> for a panic.\<close>

fun fill :: "rand \<Rightarrow> nat \<Rightarrow> nat \<Rightarrow> string option" where
  "fill draw i 0 = Some []"
| "fill draw i (Suc k) =
     (case draw i lll of
        None \<Rightarrow> None
      | Some x \<Rightarrow> (case fill draw (i + 1) k of None \<Rightarrow> None | Some b \<Rightarrow> Some (ll ! x # b)))"

text \<open>\<open>make\<close> panics for a negative length.\<close>

definition String :: "rand \<Rightarrow> int \<Rightarrow> string outcome" where
  "String draw n =
     (if n < 0 then Panic
      else
        (case fill draw 0 (nat n) of
           None \<Rightarrow> Panic
         | Some b \<Rightarrow>
             (case draw (nat n) randomsN of
                None \<Rightarrow> Panic
              | Some x \<Rightarrow>
                  (let s = randoms ! x @ b
                   in Ret (if int (length s) > n then take (nat n) s else s)))))"

definition Bytes :: "rand \<Rightarrow> int \<Rightarrow> (8 word) list outcome" where
  "Bytes draw n = map_outcome (map (\<lambda>c. of_nat (of_char c))) (String draw n)"

text \<open>\<open>hex.EncodeToString\<close> and \<open>hex.DecodeString\<close> of the standard library.\<close>

definition hex_digit :: "nat \<Rightarrow> char" where
  "hex_digit d = (''0123456789abcdef'' ! d)"

definition EncodeToString :: "(8 word) list \<Rightarrow> string" where
  "EncodeToString bs = concat (map (\<lambda>b. [hex_digit (unat b div 16), hex_digit (unat b mod 16)]) bs)"

definition hex_value :: "char \<Rightarrow> nat option" where
  "hex_value c =
     (let n = of_char c :: nat
      in if 48 \<le> n \<and> n \<le> 57 then Some (n - 48)
         else if 97 \<le> n \<and> n \<le> 102 then Some (n - 87)
         else if 65 \<le> n \<and> n \<le> 70 then Some (n - 55)
         else None)"

fun DecodeString :: "string \<Rightarrow> (8 word) list option" where
  "DecodeString [] = Some []"
| "DecodeString [c] = None"
| "DecodeString (c # d # cs) =
     (case (hex_value c, hex_value d, DecodeString cs) of
        (Some h, Some l, Some bs) \<Rightarrow> Some (of_nat (h * 16 + l) # bs)
      | _ \<Rightarrow> None)"

definition Hex :: "rand \<Rightarrow> int \<Rightarrow> string outcome" where
  "Hex draw n = map_outcome EncodeToString (Bytes draw n)"

section \<open>Properties\<close>

definition rand_ok :: "rand \<Rightarrow> bool" where
  "rand_ok draw \<longleftrightarrow> (\<forall>i b. 0 < b \<longrightarrow> (\<exists>x < b. draw i b = Some x))"

lemma lll_pos: "0 < lll" and randomsN_pos: "0 < randomsN"
  by (simp_all add: lll_def ll_def randomsN_def randoms_def)

lemma fill_ok:
  assumes "rand_ok draw"
  shows "\<exists>b. fill draw i k = Some b \<and> length b = k \<and> set b \<subseteq> set ll"
proof (induction k arbitrary: i)
  case 0
  then show ?case by simp
next
  case (Suc k)
  obtain x where x: "x < lll" "draw i lll = Some x"
    using assms lll_pos by (auto simp: rand_ok_def)
  obtain b where "fill draw (i + 1) k = Some b" "length b = k" "set b \<subseteq> set ll" using Suc by blast
  then show ?case using x by (simp add: lll_def)
qed

lemma randoms_chars: "w \<in> set randoms \<Longrightarrow> set w \<subseteq> set ll"
  by (auto simp: randoms_def ll_def)

lemma randoms_length: "w \<in> set randoms \<Longrightarrow> 3 \<le> length w"
  by (auto simp: randoms_def)

lemma String_eq:
  assumes "rand_ok draw" and "0 \<le> n"
  shows "\<exists>w b. w \<in> set randoms \<and> length b = nat n \<and> set b \<subseteq> set ll \<and>
           String draw n = Ret (take (nat n) (w @ b))"
proof -
  obtain b where b: "fill draw 0 (nat n) = Some b" "length b = nat n" "set b \<subseteq> set ll"
    using fill_ok [OF assms(1)] by blast
  obtain x where x: "x < randomsN" "draw (nat n) randomsN = Some x"
    using assms(1) randomsN_pos by (auto simp: rand_ok_def)
  have w: "randoms ! x \<in> set randoms" using x(1) by (simp add: randomsN_def)
  have "randoms ! x \<noteq> []" using randoms_length [OF w] by auto
  then have "int (length (randoms ! x @ b)) > n" using b(2) assms(2) by simp
  then show ?thesis using assms(2) b x w by (auto simp: String_def Let_def)
qed

text \<open>With a working random source, \<open>String\<close> of a length that is not negative never panics and
  returns exactly that many characters, all digits or lower-case letters; the first three, or all
  of them if there are fewer, are the beginning of one of the fixed words, so a short string is
  not random beyond the choice of the word.\<close>

theorem String_shape:
  assumes "rand_ok draw" and "0 \<le> n"
  shows "\<exists>s. String draw n = Ret s \<and> length s = nat n \<and> set s \<subseteq> set ll \<and>
    (\<exists>w \<in> set randoms. take 3 s = take (min 3 (nat n)) w)"
proof -
  obtain w b where w: "w \<in> set randoms" "length b = nat n" "set b \<subseteq> set ll"
      "String draw n = Ret (take (nat n) (w @ b))"
    using String_eq [OF assms] by blast
  have "length (take (nat n) (w @ b)) = nat n" using w(2) by simp
  moreover have "set (take (nat n) (w @ b)) \<subseteq> set ll"
    using set_take_subset [of "nat n" "w @ b"] w(3) randoms_chars [OF w(1)] by auto
  moreover have "take 3 (take (nat n) (w @ b)) = take (min 3 (nat n)) w"
  proof -
    define k where "k = min 3 (nat n)"
    have "k \<le> length w" using randoms_length [OF w(1)] by (simp add: k_def)
    then have "take k (w @ b) = take k w" by simp
    then show ?thesis unfolding k_def take_take .
  qed
  ultimately show ?thesis using w(1,4) by blast
qed

lemma rand_ok_first: "rand_ok (\<lambda>i b. Some 0)"
  by (simp add: rand_ok_def)

lemma String_shape_witness: "\<exists>s. String (\<lambda>i b. Some 0) 12 = Ret s \<and> length s = 12"
  using String_shape [OF rand_ok_first, of 12] by auto

lemma hex_value_digit: "d < 16 \<Longrightarrow> hex_value (hex_digit d) = Some d"
proof -
  assume "d < 16"
  then have "d = 0 \<or> d = 1 \<or> d = 2 \<or> d = 3 \<or> d = 4 \<or> d = 5 \<or> d = 6 \<or> d = 7 \<or>
      d = 8 \<or> d = 9 \<or> d = 10 \<or> d = 11 \<or> d = 12 \<or> d = 13 \<or> d = 14 \<or> d = 15" by arith
  then show ?thesis by (elim disjE) (simp_all add: hex_digit_def hex_value_def)
qed

lemma DecodeString_Encode: "DecodeString (EncodeToString bs) = Some bs"
proof (induction bs)
  case Nil
  then show ?case by (simp add: EncodeToString_def)
next
  case (Cons b bs)
  have "unat b < 256" using unsigned_less [of b] by simp
  then have "unat b div 16 < 16" "unat b mod 16 < 16" by simp_all
  then have "DecodeString (EncodeToString (b # bs)) =
      Some (of_nat (unat b div 16 * 16 + unat b mod 16) # bs)"
    using Cons by (simp add: EncodeToString_def hex_value_digit)
  then show ?case by simp
qed

lemma length_EncodeToString: "length (EncodeToString bs) = 2 * length bs"
  by (induction bs) (simp_all add: EncodeToString_def)

text \<open>C39: \<open>Hex\<close> returns two digits for every character of a random string, and decoding them gives
  the characters back: unlike the command its comment names, it never shows a byte that is not a
  digit or a lower-case letter.\<close>

theorem Hex_roundtrip:
  assumes "rand_ok draw" and "0 \<le> n"
  shows "\<exists>h s. Hex draw n = Ret h \<and> length h = 2 * nat n \<and> String draw n = Ret s \<and>
    DecodeString h = Some (map (\<lambda>c. of_nat (of_char c)) s) \<and> set s \<subseteq> set ll"
proof -
  obtain w b where w: "w \<in> set randoms" "length b = nat n" "set b \<subseteq> set ll"
      "String draw n = Ret (take (nat n) (w @ b))"
    using String_eq [OF assms] by blast
  have "set (take (nat n) (w @ b)) \<subseteq> set ll"
    using set_take_subset [of "nat n" "w @ b"] w(3) randoms_chars [OF w(1)] by auto
  then show ?thesis
    using w(2,4) by (simp add: Hex_def Bytes_def length_EncodeToString DecodeString_Encode)
qed

lemma Hex_roundtrip_witness: "\<exists>h. Hex (\<lambda>i b. Some 0) 32 = Ret h \<and> length h = 64"
  using Hex_roundtrip [OF rand_ok_first, of 32] by auto

end
