(* ===== verification/Duktape_Stub.thy ===== *)
theory Duktape_Stub
  imports Prelude
begin

text \<open>
  The package \<open>src/internal/go-duktape/v3\<close>, which stands in for a JavaScript engine that an indirect
  dependency wants: every method has an empty body or returns zero values.  A method is its name and
  the list of its results; the parameters are not used.
\<close>

datatype go_zero = ZNil | ZFalse | ZNum | ZEmpty

text \<open>A pointer to the empty struct \<open>Context\<close>; \<open>New\<close> returns nil.\<close>

datatype duktape_Context = DuktapeContext

definition duktape_New :: "duktape_Context option" where
  "duktape_New = None"

text \<open>The methods in the order of the source, in two halves.\<close>

definition duktape_methods_1 :: "(string \<times> go_zero list) list" where
  "duktape_methods_1 =
    [(''Alloc'', [ZNil]), (''AllocRaw'', [ZNil]), (''Base64Decode'', []), (''Base64Encode'', [ZEmpty]),
     (''Call'', []), (''CallMethod'', []), (''CallProp'', []), (''CheckStack'', [ZFalse]),
     (''CheckStackTop'', [ZFalse]), (''CheckType'', [ZFalse]), (''CheckTypeMask'', [ZFalse]),
     (''Compact'', []), (''Compile'', []), (''CompileFile'', []), (''CompileLstring'', []),
     (''CompileLstringFilename'', []), (''CompileString'', []), (''CompileStringFilename'', []),
     (''Concat'', []), (''ConfigBuffer'', []), (''Copy'', []), (''DefProp'', []), (''DelProp'', [ZFalse]),
     (''DelPropIndex'', [ZFalse]), (''DelPropString'', [ZFalse]), (''Destroy'', []), (''DestroyHeap'', []),
     (''DumpContextStderr'', []), (''DumpContextStdout'', []), (''DumpFunction'', []), (''Dup'', []),
     (''DupTop'', []), (''Enum'', []), (''Equals'', [ZFalse]), (''Error'', []), (''ErrorRaw'', []),
     (''ErrorVa'', []), (''Errorf'', []), (''Eval'', []), (''EvalFile'', []), (''EvalFileNoresult'', []),
     (''EvalLstring'', []), (''EvalLstringNoresult'', []), (''EvalNoresult'', []), (''EvalString'', []),
     (''EvalStringNoresult'', []), (''Fatal'', []), (''FlushTimers'', []), (''Gc'', []),
     (''GetBoolean'', [ZFalse]), (''GetBuffer'', [ZNil, ZNum]), (''GetContext'', [ZNil]),
     (''GetCurrentMagic'', [ZNum]), (''GetErrorCode'', [ZNum]), (''GetFinalizer'', []),
     (''GetGlobalString'', [ZFalse]), (''GetHeapptr'', [ZNil]), (''GetInt'', [ZNum]),
     (''GetLength'', [ZNum]), (''GetLstring'', [ZEmpty]), (''GetMagic'', [ZNum]), (''GetNumber'', [ZNum]),
     (''GetPointer'', [ZNil]), (''GetProp'', [ZFalse]), (''GetPropIndex'', [ZFalse]),
     (''GetPropString'', [ZFalse]), (''GetPrototype'', []), (''GetString'', [ZEmpty]), (''GetTop'', [ZNum]),
     (''GetTopIndex'', [ZNum]), (''GetType'', [ZNum]), (''GetTypeMask'', [ZNum]), (''GetUint'', [ZNum]),
     (''HasProp'', [ZFalse]), (''HasPropIndex'', [ZFalse]), (''HasPropString'', [ZFalse]),
     (''HexDecode'', []), (''HexEncode'', [ZEmpty]), (''Insert'', []), (''Instanceof'', [ZFalse]),
     (''IsArray'', [ZFalse]), (''IsBoolean'', [ZFalse]), (''IsBoundFunction'', [ZFalse]),
     (''IsBuffer'', [ZFalse]), (''IsCFunction'', [ZFalse]), (''IsCallable'', [ZFalse]),
     (''IsConstructorCall'', [ZFalse]), (''IsDynamicBuffer'', [ZFalse]),
     (''IsEcmascriptFunction'', [ZFalse]), (''IsError'', [ZFalse]), (''IsFixedBuffer'', [ZFalse]),
     (''IsFunction'', [ZFalse]), (''IsLightfunc'', [ZFalse]), (''IsNan'', [ZFalse]), (''IsNull'', [ZFalse]),
     (''IsNullOrUndefined'', [ZFalse]), (''IsNumber'', [ZFalse]), (''IsObject'', [ZFalse]),
     (''IsObjectCoercible'', [ZFalse]), (''IsPointer'', [ZFalse]), (''IsPrimitive'', [ZFalse]),
     (''IsStrictCall'', [ZFalse]), (''IsString'', [ZFalse]), (''IsThread'', [ZFalse]),
     (''IsUndefined'', [ZFalse]), (''IsValidIndex'', [ZFalse]), (''Join'', []), (''JsonDecode'', []),
     (''JsonEncode'', [ZEmpty]), (''LoadFunction'', []), (''Log'', []), (''LogVa'', []), (''Must'', [ZNil]),
     (''New'', []), (''Next'', [ZFalse]), (''NormalizeIndex'', [ZNum]), (''Pcall'', [ZNum]),
     (''PcallMethod'', [ZNum]), (''PcallProp'', [ZNum]), (''Pcompile'', [ZNil]), (''PcompileFile'', [ZNil]),
     (''PcompileLstring'', [ZNil]), (''PcompileLstringFilename'', [ZNil]), (''PcompileString'', [ZNil]),
     (''PcompileStringFilename'', [ZNil]), (''Peval'', [ZNil]), (''PevalFile'', [ZNil]),
     (''PevalFileNoresult'', [ZNum]), (''PevalLstring'', [ZNil]), (''PevalLstringNoresult'', [ZNum]),
     (''PevalNoresult'', [ZNum]), (''PevalString'', [ZNil]), (''PevalStringNoresult'', [ZNum])]"

definition duktape_methods_2 :: "(string \<times> go_zero list) list" where
  "duktape_methods_2 =
    [(''Pnew'', [ZNil]), (''Pop'', []), (''Pop2'', []), (''Pop3'', []), (''PopN'', []),
     (''PushArray'', [ZNum]), (''PushBoolean'', []), (''PushBuffer'', [ZNil]), (''PushBufferObject'', []),
     (''PushCFunction'', [ZNum]), (''PushCLightfunc'', [ZNum]), (''PushContextDump'', []),
     (''PushCurrentFunction'', []), (''PushCurrentThread'', []), (''PushDynamicBuffer'', [ZNil]),
     (''PushErrorObject'', []), (''PushErrorObjectVa'', []), (''PushExternalBuffer'', []),
     (''PushFalse'', []), (''PushFixedBuffer'', [ZNil]), (''PushGlobalGoFunction'', [ZNum, ZNil]),
     (''PushGlobalObject'', []), (''PushGlobalStash'', []), (''PushGoFunction'', [ZNum]),
     (''PushHeapStash'', []), (''PushHeapptr'', []), (''PushInt'', []), (''PushLstring'', [ZEmpty]),
     (''PushNan'', []), (''PushNull'', []), (''PushNumber'', []), (''PushObject'', [ZNum]),
     (''PushPointer'', []), (''PushString'', [ZEmpty]), (''PushStringFile'', [ZEmpty]), (''PushThis'', []),
     (''PushThread'', [ZNum]), (''PushThreadNewGlobalenv'', [ZNum]), (''PushThreadStash'', []),
     (''PushTimers'', [ZNil]), (''PushTrue'', []), (''PushUint'', []), (''PushUndefined'', []),
     (''PutGlobalString'', [ZFalse]), (''PutProp'', [ZFalse]), (''PutPropIndex'', [ZFalse]),
     (''PutPropString'', [ZFalse]), (''Remove'', []), (''Replace'', []), (''RequireBoolean'', [ZFalse]),
     (''RequireBuffer'', [ZNil, ZNum]), (''RequireCallable'', []), (''RequireContext'', [ZNil]),
     (''RequireFunction'', []), (''RequireHeapptr'', [ZNil]), (''RequireInt'', [ZNum]),
     (''RequireLstring'', [ZEmpty]), (''RequireNormalizeIndex'', [ZNum]), (''RequireNull'', []),
     (''RequireNumber'', [ZNum]), (''RequireObjectCoercible'', []), (''RequirePointer'', [ZNil]),
     (''RequireStack'', []), (''RequireStackTop'', []), (''RequireString'', [ZEmpty]),
     (''RequireTopIndex'', [ZNum]), (''RequireTypeMask'', []), (''RequireUint'', [ZNum]),
     (''RequireUndefined'', []), (''RequireValidIndex'', []), (''ResizeBuffer'', [ZNil]),
     (''SafeCall'', [ZNum]), (''SafeToLstring'', [ZEmpty]), (''SafeToString'', [ZEmpty]),
     (''SetFinalizer'', []), (''SetGlobalObject'', []), (''SetMagic'', []), (''SetPrototype'', []),
     (''SetTop'', []), (''StrictEquals'', [ZFalse]), (''Substring'', []), (''Swap'', []), (''SwapTop'', []),
     (''Throw'', []), (''ToBoolean'', [ZFalse]), (''ToBuffer'', [ZNil, ZNum]), (''ToDefaultvalue'', []),
     (''ToDynamicBuffer'', [ZNil, ZNum]), (''ToFixedBuffer'', [ZNil, ZNum]), (''ToInt'', [ZNum]),
     (''ToInt32'', [ZNum]), (''ToLstring'', [ZEmpty]), (''ToNull'', []), (''ToNumber'', [ZNum]),
     (''ToObject'', []), (''ToPointer'', [ZNil]), (''ToPrimitive'', []), (''ToString'', [ZEmpty]),
     (''ToUint'', [ZNum]), (''ToUint16'', [ZNum]), (''ToUint32'', [ZNum]), (''ToUndefined'', []),
     (''Trim'', []), (''XcopyTop'', []), (''XmoveTop'', [])]"

text \<open>A call; no method reads its receiver, so that a nil one makes no difference.\<close>

definition duktape_call :: "duktape_Context option \<Rightarrow> string \<Rightarrow> go_zero list outcome option" where
  "duktape_call d name = map_option Ret (map_of (duktape_methods_1 @ duktape_methods_2) name)"

text \<open>
  The names are in alphabetical order, so distinct, and a method does what its line says, also on what
  \<open>New\<close> returns.
\<close>

lemma duktape_methods_sorted: "successively (<) (map fst (duktape_methods_1 @ duktape_methods_2))"
  by code_simp

lemma duktape_methods_distinct: "distinct (map fst (duktape_methods_1 @ duktape_methods_2))"
proof -
  have "sorted_wrt (<) (map fst (duktape_methods_1 @ duktape_methods_2))"
    using duktape_methods_sorted by (simp only: successively_iff_sorted_wrt_strong [of _ "(<)"] less_trans)
  then show ?thesis by (simp only: strict_sorted_iff)
qed

lemma duktape_call_New:
  assumes "(name, zs) \<in> set (duktape_methods_1 @ duktape_methods_2)"
  shows "duktape_call duktape_New name = Some (Ret zs)"
  using map_of_is_SomeI [OF duktape_methods_distinct assms] by (simp add: duktape_call_def)

end
