(* ===== verification/Spec2Isabelle.thy ===== *)
theory Spec2Isabelle
  imports
    Prelude
    Handler_Props
    Restart_Props
    Conc_Session
    Conc_Maps
    Conc_Late
    Conc_Ends
    Conc_Types
    Conc_Panics
    Stream_Props
    Lifecycle_Props
    Remote_Props
    Success_Props
    Gateway_Session
    Commands_Props
    Command_Runs_Props
    Randutil
    Duktape_Stub
begin

text \<open>
  Verification of the avalanche network runner: a gRPC server that boots and controls a local cluster
  of avalanchego nodes, the HTTP gateway in front of it, its client, and the command line.

  \<^bold>\<open>The program.\<close>  The command \<open>server\<close> (\<open>src/cmd/avalanche-network-runner/server\<close>) makes a server
  with \<open>New\<close> and calls \<open>Run\<close> (\<open>src/server/server.go\<close>), which serves gRPC and, over a connection to
  itself, the gateway.  The handlers \<open>Start\<close>, \<open>Health\<close>, \<open>URIs\<close>, \<open>Status\<close>, \<open>StreamStatus\<close>,
  \<open>RemoveNode\<close>, \<open>RestartNode\<close>, \<open>Stop\<close> and \<open>Ping\<close> share one server value behind a lock; it holds a
  \<open>localNetwork\<close> (\<open>src/server/network.go\<close>), a wrapper of the library's network of nodes, whose
  goroutine \<open>start\<close> creates the network and waits until it is healthy.  The commands \<open>control\<close> and
  \<open>ping\<close> call a client (\<open>src/client/client.go\<close>), which calls generated stubs (\<open>src/rpcpb\<close>).

  \<^bold>\<open>Theories and code.\<close>
  \<^item> \<open>Prelude\<close>: how a Go function ends (\<open>outcome\<close>: a value, an error, a panic, or a wait for ever), the
    error values, Go maps as association lists with distinct keys, a channel closed under a
    \<open>sync.Once\<close> with the locale \<open>closable\<close> of its contract; \<open>Gostd\<close>: \<open>strings\<close> and \<open>filepath\<close>;
    \<open>Machines\<close>: runs of machines driven by events, with the locales of an invariant and of a rank.
  \<^item> \<open>Messages\<close>: the messages of \<open>rpc.pb.go\<close>.  \<open>Net_Config\<close>: what \<open>newNetwork\<close> and \<open>RestartNode\<close>
    write for one node.  \<open>Local_Network\<close>: the store (networks, cluster informations and maps by
    index, since the code shares them by pointer), \<open>newNetwork\<close>, \<open>start\<close>, \<open>waitForHealthy\<close>, \<open>stop\<close>.
    \<open>Server\<close>: every unary handler, cut where it takes or gives back the lock.
  \<^item> \<open>Session\<close>: one request at a time, with the goroutines run until they wait, and the abstract
    machine of a cluster, \<open>spec_step\<close>: down, or up with a set of node names.  \<open>Concurrent\<close>: the same
    segments as threads over the shared server and the lock, a step relation \<open>cstep\<close>; replies are
    marshalled after the lock has been given back, as gRPC does.
    The goroutine \<open>start\<close> is a thread there and runs to its end at once in \<open>Session\<close>; the watcher
    reads \<open>s.network\<close> twice before its \<open>select\<close>, as two segments.
    \<open>Conc_Maps\<close>: which segment reads or writes which map.  \<open>Conc_Stream\<close>: the process together with
    its open status streams, a step relation \<open>wstep\<close>.
  \<^item> \<open>Status_Stream\<close>: \<open>StreamStatus\<close>, \<open>sendLoop\<close>, \<open>recvLoop\<close> of the server and \<open>StreamStatus\<close> of the
    client as machines over events.  \<open>Lifecycle\<close>: \<open>New\<close> and \<open>Run\<close> with its two goroutines,
    whose channels are not buffered, so that \<open>Run\<close> can return before they do.  The two servers return
    when they have been closed or stopped; that they return before is a fault (\<open>is_fault\<close>).
  \<^item> \<open>Grpc\<close>: the stubs, handlers and tables of \<open>rpc_grpc.pb.go\<close>.  \<open>Gateway\<close>: the paths, the functions
    that decode a body, and the registrations of \<open>rpc.pb.gw.go\<close>.
  \<^item> \<open>Client\<close>: options, dialing, methods and \<open>Close\<close>.  \<open>Commands\<close>: the command tree of \<open>control.go\<close>,
    \<open>ping.go\<close>, \<open>server.go\<close> and \<open>main.go\<close> and the functions of the client commands.
    \<open>Command_Runs\<close>: the two commands that start goroutines.  \<open>Logutil\<close>, \<open>Randutil\<close>: \<open>src/pkg\<close>.
    \<open>Duktape_Stub\<close>: the methods of \<open>src/internal/go-duktape\<close>, all of which return zero values.

  \<^bold>\<open>What the lemmas show.\<close>
  \<^item> \<open>Local_Network_Props\<close>, \<open>Cluster_Inv\<close>, \<open>Cluster_Steps\<close>, \<open>Cluster_Life\<close>, \<open>Keeps\<close>: the invariant of
    the store and of the cluster, one lemma per handler.  \<open>Session_Ok\<close>, \<open>Server_Props\<close>: the server
    implements the abstract cluster.  \<open>Success\<close>, \<open>Success_Props\<close>: which requests succeed when the
    libraries do not fail.  \<open>Handler_Props\<close>, \<open>Restart_Props\<close>: results of single handlers, error paths
    included.
  \<^item> \<open>Conc_Inv\<close>, \<open>Conc_Props\<close>: the invariant of the interleaved process, and that it is never at a
    standstill.  \<open>Conc_Progress\<close>: a rank of the threads, so that every request comes to an end.
    \<open>Conc_Nets\<close>: the locale \<open>net_property\<close> of what all networks of a reachable state share;
    \<open>Conc_Types\<close>: every configuration holds a \<open>local.NodeConfig\<close>; \<open>Conc_Panics\<close>: the complete list of the
    steps that panic.  \<open>Conc_Races\<close>, \<open>Conc_Maps\<close>: interleavings that end the process or publish
    something false, and which accesses to maps the lock does not keep apart (such an
    access is not a step that ends the process in the model; the Go runtime may end it).  \<open>Conc_Late\<close>: a stop that
    stops the next cluster.
  \<^item> \<open>Conc_Infos\<close>: the server refers to its newest cluster information or to none.  \<open>Conc_Stream\<close>: the
    projections of the process with streams to the process and to each stream, and that updates are
    never older than the question for them.  \<open>Conc_Ends\<close>: requests, goroutines and streams together
    come to an end, and the list of the accesses to maps that race covers the streams too.
  \<^item> \<open>Conc_Serial\<close>, \<open>Conc_Session\<close>: a thread that runs without interruption has the effect of its
    handler, and every conversation of the sequential server is an execution of the interleaved
    process with the same replies, so the two views of the server agree.
  \<^item> \<open>Stream_Props\<close>, \<open>Lifecycle_Props\<close>, \<open>Command_Runs_Props\<close>: the machines return, and leave no
    goroutine behind, or when they do; the server and its command come to rest only while they serve or
    when they have returned, unless a fault or a signal comes.
  \<^item> \<open>Grpc_Props\<close>, \<open>Gateway_Props\<close>: a stub and an HTTP request reach the method of their name,
    over a connection or in the server's own process.
    \<open>Remote\<close>, \<open>Remote_Props\<close>, \<open>Gateway_Session\<close>: the locale \<open>cluster_service\<close> of what a client may
    rely on, interpreted on the server asked directly, through stubs, library and handlers, and
    through the gateway; its extension \<open>address_service\<close> adds what the addresses of a reply are.  \<open>Commands_Props\<close>: a
    command is one request.  \<open>Sample\<close>: a small instance of the libraries for the witnesses.

  \<^bold>\<open>Parameters and hypotheses.\<close>  Code outside \<open>src/\<close> is a parameter: the record \<open>ext\<close> for the network
  runner library, loggers and the operating system, \<open>call_env\<close> for what a scheduler or a map visit
  decides during one call, \<open>invoke\<close> and \<open>codec\<close> for gRPC, \<open>mux_handle\<close> and \<open>gateway_env\<close> for the
  gateway's runtime, \<open>client_env\<close> and \<open>command_env\<close> for dialing and printing.  Hypotheses on them:
  \<open>network_laws\<close> (the names of a network's nodes follow additions and removals), \<open>boots\<close>
  (\<open>NewNetwork\<close> succeeds; what happens otherwise is \<open>failed_boot_panics\<close>), \<open>env_ok\<close> (a map visit is a
  permutation), \<open>codec_ok\<close>, \<open>transport_ok\<close>, \<open>mux_ok\<close>; each has an instance that fulfils it.

  \<^bold>\<open>Bounds.\<close>  \<open>wait_all\<close> has fuel for four segments, which are all of a wait
  (\<open>wait_all_waitForHealthy\<close>); \<open>alone\<close> has fuel for the segments of a thread, and twelve are enough for
  every request (\<open>effect_alone\<close>).  Runs of the machines are lists of events, an impossible event
  being \<open>None\<close>; that they end is shown by a rank that every step of the program decreases: sixteen
  steps for \<open>Run\<close>, twenty-two for the server command, eleven for the stream command after its context
  has ended, fourteen for each thread of the interleaved process and eight for each of its streams.
  Integers of messages are words of their width; durations of flags are seconds.  The standard library
  is that of Go 1.17, which \<open>src/go.mod\<close> names.

  \<^bold>\<open>Not modelled.\<close>  Tests, scripts and the build are not part of the program.  Of the
  generated messages the descriptor bytes, reflection and bookkeeping fields are left out; of the
  gateway headers and metadata; of all functions the log lines.  The parsing of the command line is done by a library.
\<close>

end
